(* ===== verification/Prelude.thy ===== *)
theory Prelude
  imports Complex_Main "HOL-Library.Signed_Division" "HOL-Library.Word"
begin

text \<open>
  Shared vocabulary of the development: the collections of rewrite rules the component
  proofs use, generic lemmas on lists, options and association lists, and the integer
  conversions of Rust that the backend performs (truncating division, \<open>as i16\<close>).
\<close>

named_theorems rust_simps \<open>defining equations of the Rust standard library model\<close>
named_theorems prog_simps \<open>equations that run a program of the I/O model\<close>
named_theorems table_simps \<open>row-wise facts about the database tables\<close>

section \<open>Machine integers\<close>

text \<open>
  Rust's \<open>/\<close> on signed integers truncates towards zero, which is \<^const>\<open>signed_divide\<close>.
  \<open>x as i16\<close> keeps the low sixteen bits and reads them as two's complement.
\<close>

definition as_i16 :: "int \<Rightarrow> int" where
  "as_i16 x = sint (word_of_int x :: 16 word)"

definition i64_min :: int where "i64_min = - (2 ^ 63)"
definition i64_max :: int where "i64_max = 2 ^ 63 - 1"
definition u32_max :: nat where "u32_max = 2 ^ 32 - 1"

lemma as_i16_range: "- 32768 \<le> as_i16 x \<and> as_i16 x \<le> 32767"
proof -
  have "- (2 ^ 15) \<le> sint (word_of_int x :: 16 word)"
    using sint_ge [of "word_of_int x :: 16 word"] by simp
  moreover have "sint (word_of_int x :: 16 word) < 2 ^ 15"
    using sint_lt [of "word_of_int x :: 16 word"] by simp
  ultimately show ?thesis by (simp add: as_i16_def)
qed

lemma as_i16_id: "- 32768 \<le> x \<Longrightarrow> x \<le> 32767 \<Longrightarrow> as_i16 x = x"
  unfolding as_i16_def by (simp add: sint_sbintrunc' signed_take_bit_int_eq_self)

section \<open>Time\<close>

text \<open>An instant is a signed count of nanoseconds since the epoch.\<close>

type_synonym instant = int

definition ns_per_sec :: int where "ns_per_sec = 1000000000"
definition ns_per_min :: int where "ns_per_min = 60 * ns_per_sec"

section \<open>Lists and options\<close>

text \<open>Rust's \<open>Iterator::find_map\<close>.\<close>

fun find_map :: "('a \<Rightarrow> 'b option) \<Rightarrow> 'a list \<Rightarrow> 'b option" where
  "find_map f [] = None"
| "find_map f (x # xs) = (case f x of Some y \<Rightarrow> Some y | None \<Rightarrow> find_map f xs)"

lemma find_map_None_iff: "find_map f xs = None \<longleftrightarrow> (\<forall>x\<in>set xs. f x = None)"
  by (induction xs) (auto split: option.splits)

lemma map_of_filter_key:
  "map_of (filter (\<lambda>kv. P (fst kv)) m) k = (if P k then map_of m k else None)"
  by (induction m) auto

text \<open>
  SQL's \<open>UPDATE ... SET ... WHERE\<close> on a table kept as a list of rows, and the number of rows
  it reports.
\<close>

definition update_where :: "('r \<Rightarrow> bool) \<Rightarrow> ('r \<Rightarrow> 'r) \<Rightarrow> 'r list \<Rightarrow> 'r list" where
  "update_where P f t = map (\<lambda>r. if P r then f r else r) t"

definition count_where :: "('r \<Rightarrow> bool) \<Rightarrow> 'r list \<Rightarrow> nat" where
  "count_where P t = length (filter P t)"

lemma update_where_Nil [simp]: "update_where P f [] = []"
  by (simp add: update_where_def)

lemma update_where_Cons [simp]:
  "update_where P f (r # t) = (if P r then f r else r) # update_where P f t"
  by (simp add: update_where_def)

lemma length_update_where [simp]: "length (update_where P f t) = length t"
  by (simp add: update_where_def)

lemma set_update_where:
  "set (update_where P f t) = (\<lambda>r. if P r then f r else r) ` set t"
  by (simp add: update_where_def)

lemma update_where_mem: "r \<in> set t \<Longrightarrow> P r \<Longrightarrow> f r \<in> set (update_where P f t)"
  by (auto simp: set_update_where)

lemma map_update_where:
  "(\<And>r. P r \<Longrightarrow> g (f r) = g r) \<Longrightarrow> map g (update_where P f t) = map g t"
  by (simp add: update_where_def)

lemma update_where_all:
  "(\<And>r. r \<in> set t \<Longrightarrow> Q r) \<Longrightarrow> (\<And>r. P r \<Longrightarrow> Q r \<Longrightarrow> Q (f r)) \<Longrightarrow>
   r \<in> set (update_where P f t) \<Longrightarrow> Q r"
  by (auto simp: set_update_where split: if_splits)

lemma update_where_none: "count_where P t = 0 \<Longrightarrow> update_where P f t = t"
  by (induction t) (auto simp: count_where_def split: if_splits)

lemma count_where_pos: "0 < count_where P t \<longleftrightarrow> (\<exists>r\<in>set t. P r)"
  by (auto simp: count_where_def filter_empty_conv)

lemma filter_update_where_skip:
  "(\<And>r. P r \<Longrightarrow> \<not> Q r \<and> \<not> Q (f r)) \<Longrightarrow> filter Q (update_where P f t) = filter Q t"
  by (induction t) auto

lemma filter_update_where_leave:
  "(\<And>r. P r \<Longrightarrow> \<not> Q (f r)) \<Longrightarrow> filter Q (update_where P f t) = filter (\<lambda>r. Q r \<and> \<not> P r) t"
  by (induction t) auto

lemma length_filter_conj_less:
  "r \<in> set t \<Longrightarrow> Q r \<Longrightarrow> P r \<Longrightarrow> length (filter (\<lambda>r. Q r \<and> \<not> P r) t) < length (filter Q t)"
proof (induction t)
  case (Cons x t)
  have "length (filter (\<lambda>r. Q r \<and> \<not> P r) t) \<le> length (filter Q t)"
    by (induction t) auto
  with Cons show ?case by auto
qed simp

lemma find_update_where_other:
  "(\<And>r. Q (f r) = Q r) \<Longrightarrow> (\<And>r. Q r \<Longrightarrow> \<not> P r) \<Longrightarrow> find Q (update_where P f xs) = find Q xs"
  by (induction xs) auto

lemma find_update_where_same:
  "(\<And>r. P (f r) = P r) \<Longrightarrow> find P (update_where P f xs) = map_option f (find P xs)"
  by (induction xs) auto

lemma find_append_new:
  "count_where P xs = 0 \<Longrightarrow> find P (xs @ [x]) = (if P x then Some x else None)"
  by (induction xs) (auto simp: count_where_def)

lemma find_append_other: "\<not> P x \<Longrightarrow> find P (xs @ [x]) = find P xs"
  by (induction xs) auto

lemma count_where_find: "count_where P xs = 0 \<longleftrightarrow> find P xs = None"
  by (induction xs) (auto simp: count_where_def)

lemma filter_map_swap: "filter P (map f xs) = map f (filter (\<lambda>x. P (f x)) xs)"
  by (induction xs) auto

lemma filter_update_where_skip_set:
  "(\<And>r. r \<in> set t \<Longrightarrow> P r \<Longrightarrow> \<not> Q r \<and> \<not> Q (f r)) \<Longrightarrow> filter Q (update_where P f t) = filter Q t"
  by (induction t) auto

lemma find_update_where:
  "(\<And>r. Q (f r) = Q r) \<Longrightarrow> find Q (update_where P f xs) = map_option (\<lambda>r. if P r then f r else r) (find Q xs)"
  by (induction xs) auto

lemma find_SomeD: "find Q xs = Some r \<Longrightarrow> Q r \<and> r \<in> set xs"
  by (auto simp: find_Some_iff)

end
