(* ===== verification/F64.thy ===== *)
theory F64
  imports Rust_Str "HOL-Library.Log_Nat"
begin

text \<open>
  IEEE 754 binary64 as far as the rule evaluator observes it. A finite value is the rational
  it denotes (the two zeros are equal under every comparison the code makes, so they are one
  value here); rounding is to nearest, ties to even, with gradual underflow and overflow to
  infinity, as both the \<open>as f64\<close> conversions, the subtraction and \<open>str::parse::<f64>\<close>
  round. Everything is executable.
\<close>

datatype f64 = F64_Fin rat | F64_Inf bool | F64_NaN  \<comment> \<open>\<open>F64_Inf True\<close> is negative\<close>

section \<open>Rounding\<close>

definition pow2 :: "int \<Rightarrow> rat" where
  "pow2 e = (if 0 \<le> e then 2 ^ nat e else 1 / 2 ^ nat (- e))"

definition round_half_even :: "rat \<Rightarrow> int" where
  "round_half_even y =
     (let f = floor y; d = y - of_int f
      in if d < 1/2 then f else if 1/2 < d then f + 1 else if even f then f else f + 1)"

definition exponent :: "rat \<Rightarrow> int" where
  "exponent a =
     (let (p, q) = quotient_of a;
          e = int (floorlog 2 (nat p)) - int (floorlog 2 (nat q))
      in if pow2 e \<le> a then e else e - 1)"

definition round_f64 :: "rat \<Rightarrow> f64" where
  "round_f64 x =
     (if x = 0 then F64_Fin 0
      else let a = \<bar>x\<bar>;
               u = max (exponent a - 52) (- 1074);
               r = of_int (round_half_even (a / pow2 u)) * pow2 u
           in if 2 ^ 1024 \<le> r then F64_Inf (x < 0)
              else F64_Fin (if x < 0 then - r else r))"

section \<open>Arithmetic and comparison\<close>

fun f64_lt :: "f64 \<Rightarrow> f64 \<Rightarrow> bool" where
  "f64_lt F64_NaN b = False"
| "f64_lt a F64_NaN = False"
| "f64_lt (F64_Fin a) (F64_Fin b) = (a < b)"
| "f64_lt (F64_Fin a) (F64_Inf n) = (\<not> n)"
| "f64_lt (F64_Inf n) (F64_Fin b) = n"
| "f64_lt (F64_Inf m) (F64_Inf n) = (m \<and> \<not> n)"

fun f64_le :: "f64 \<Rightarrow> f64 \<Rightarrow> bool" where
  "f64_le F64_NaN b = False"
| "f64_le a F64_NaN = False"
| "f64_le (F64_Fin a) (F64_Fin b) = (a \<le> b)"
| "f64_le (F64_Fin a) (F64_Inf n) = (\<not> n)"
| "f64_le (F64_Inf n) (F64_Fin b) = n"
| "f64_le (F64_Inf m) (F64_Inf n) = (m \<or> \<not> n)"

fun f64_sub :: "f64 \<Rightarrow> f64 \<Rightarrow> f64" where
  "f64_sub F64_NaN b = F64_NaN"
| "f64_sub a F64_NaN = F64_NaN"
| "f64_sub (F64_Fin a) (F64_Fin b) = round_f64 (a - b)"
| "f64_sub (F64_Fin a) (F64_Inf n) = F64_Inf (\<not> n)"
| "f64_sub (F64_Inf n) (F64_Fin b) = F64_Inf n"
| "f64_sub (F64_Inf m) (F64_Inf n) = (if m = n then F64_NaN else F64_Inf m)"

fun f64_abs :: "f64 \<Rightarrow> f64" where
  "f64_abs F64_NaN = F64_NaN"
| "f64_abs (F64_Fin a) = F64_Fin \<bar>a\<bar>"
| "f64_abs (F64_Inf n) = F64_Inf False"

definition F64_EPSILON :: f64 where "F64_EPSILON = F64_Fin (1 / 2 ^ 52)"

section \<open>Parsing decimal text\<close>

text \<open>
  The grammar of \<open>f64::from_str\<close>: an optional sign, then \<open>inf\<close>, \<open>infinity\<close> or \<open>nan\<close> in any
  case, or digits with an optional point (at least one digit in all) and an optional exponent.
\<close>

definition parse_exp :: "string \<Rightarrow> int option" where
  "parse_exp s =
     (case s of
        [] \<Rightarrow> Some 0
      | c # r \<Rightarrow>
          if c = CHR ''e'' \<or> c = CHR ''E''
          then (case strip_sign CHR ''-'' r of
                  Some d \<Rightarrow> map_option (\<lambda>n. - int n) (parse_digits d)
                | None \<Rightarrow> map_option int (parse_digits
                    (case strip_sign CHR ''+'' r of Some d \<Rightarrow> d | None \<Rightarrow> r)))
          else None)"

definition pow10 :: "int \<Rightarrow> rat" where
  "pow10 e = (if 0 \<le> e then 10 ^ nat e else 1 / 10 ^ nat (- e))"

definition parse_number :: "string \<Rightarrow> rat option" where
  "parse_number s =
     (let ip = takeWhile is_ascii_digit s; r1 = dropWhile is_ascii_digit s;
          (fp, r2) = (case strip_sign CHR ''.'' r1 of
                        Some r \<Rightarrow> (takeWhile is_ascii_digit r, dropWhile is_ascii_digit r)
                      | None \<Rightarrow> ([], r1))
      in if ip = [] \<and> fp = [] then None
         else map_option (\<lambda>e. of_nat (digits_val (ip @ fp)) * pow10 (e - int (length fp)))
                (parse_exp r2))"

definition parse_f64 :: "string \<Rightarrow> f64 option" where
  "parse_f64 s =
     (let (neg, r) = (case strip_sign CHR ''-'' s of
                        Some r \<Rightarrow> (True, r)
                      | None \<Rightarrow> (case strip_sign CHR ''+'' s of
                                   Some r \<Rightarrow> (False, r)
                                 | None \<Rightarrow> (False, s)));
          l = to_ascii_lowercase r
      in if l = ''inf'' \<or> l = ''infinity'' then Some (F64_Inf neg)
         else if l = ''nan'' then Some F64_NaN
         else map_option (\<lambda>x. round_f64 (if neg then - x else x)) (parse_number r))"

section \<open>Lemmas\<close>

lemma f64_le_lt_total:
  "a \<noteq> F64_NaN \<Longrightarrow> b \<noteq> F64_NaN \<Longrightarrow> f64_le a b \<longleftrightarrow> \<not> f64_lt b a"
  by (cases a; cases b) auto

lemma f64_NaN_compare [simp]:
  "\<not> f64_lt a F64_NaN" "\<not> f64_le a F64_NaN"
  by (cases a; simp)+

lemma f64_le_trans: "f64_le a b \<Longrightarrow> f64_le b c \<Longrightarrow> f64_le a c"
  by (cases a; cases b; cases c) auto

lemma f64_le_lt_trans: "f64_le a b \<Longrightarrow> f64_lt b c \<Longrightarrow> f64_lt a c"
  by (cases a; cases b; cases c) auto

lemma f64_lt_le_trans: "f64_lt a b \<Longrightarrow> f64_le b c \<Longrightarrow> f64_lt a c"
  by (cases a; cases b; cases c) auto

lemma f64_lt_imp_le: "f64_lt a b \<Longrightarrow> f64_le a b"
  by (cases a; cases b) auto

lemma round_half_even_of_int [simp]: "round_half_even (of_int n) = n"
  by (simp add: round_half_even_def)

lemma floorlog_bound: "n < 2 ^ k \<Longrightarrow> floorlog 2 n \<le> k"
  by (rule floorlog_leI) auto

lemma exponent_of_nat:
  assumes "0 < n" "n < 2 ^ k"
  shows "exponent (of_nat n) \<le> int k - 1"
proof -
  have "quotient_of (of_nat n) = (int n, 1)"
    using quotient_of_int [of "int n"] by (simp add: of_int_def)
  moreover have "floorlog 2 (nat 1) = 1" by (simp add: floorlog_def)
  ultimately show ?thesis
    using floorlog_bound [OF assms(2)] by (simp add: exponent_def Let_def)
qed

lemma pow2_neg: "0 \<le> j \<Longrightarrow> 1 / pow2 (- j) = of_int (2 ^ nat j)"
  by (cases "j = 0") (simp_all add: pow2_def)

text \<open>Integers below \<open>2 ^ 53\<close> in absolute value are represented exactly.\<close>

lemma round_f64_of_nat:
  assumes "n < 2 ^ 53"
  shows "round_f64 (of_nat n) = F64_Fin (of_nat n)"
proof (cases "n = 0")
  case False
  let ?u = "max (exponent (of_nat n) - 52) (- 1074)"
  have "exponent (of_nat n) \<le> 52"
    using exponent_of_nat [of n 53] False assms by simp
  then have "?u \<le> 0" by simp
  then obtain j where j: "?u = - j" "0 \<le> j" by (metis minus_minus neg_0_le_iff_le)
  have div: "of_nat n / pow2 ?u = of_int (int n * 2 ^ nat j)"
    using pow2_neg [OF j(2)] by (simp add: j(1) divide_inverse)
  have pos: "pow2 ?u \<noteq> 0" by (simp add: pow2_def)
  have r: "of_int (round_half_even (of_nat n / pow2 ?u)) * pow2 ?u = (of_nat n :: rat)"
    unfolding div round_half_even_of_int using div [symmetric] pos by simp
  have "(of_nat n :: rat) < of_nat (2 ^ 53)" using assms of_nat_less_iff by blast
  moreover have "(of_nat (2 ^ 53) :: rat) \<le> 2 ^ 1024" by simp
  ultimately have "\<not> 2 ^ 1024 \<le> (of_nat n :: rat)" by linarith
  with False r show ?thesis by (simp add: round_f64_def Let_def)
qed (simp add: round_f64_def)

lemma round_f64_minus:
  "round_f64 (- x) =
     (case round_f64 x of F64_Fin r \<Rightarrow> F64_Fin (- r) | F64_Inf n \<Rightarrow> F64_Inf (\<not> n) | F64_NaN \<Rightarrow> F64_NaN)"
  by (cases "x = 0") (auto simp: round_f64_def Let_def)

lemma round_f64_of_int:
  assumes "\<bar>i\<bar> < 2 ^ 53"
  shows "round_f64 (of_int i) = F64_Fin (of_int i)"
proof (cases "0 \<le> i")
  case True
  with assms round_f64_of_nat [of "nat i"] show ?thesis
    by (simp add: of_nat_nat nat_less_iff)
next
  case False
  with assms round_f64_of_nat [of "nat (- i)"] round_f64_minus [of "of_int (- i)"] show ?thesis
    by (simp add: of_nat_nat nat_less_iff)
qed

lemma round_f64_not_NaN [simp]: "round_f64 x \<noteq> F64_NaN"
  by (simp add: round_f64_def Let_def)

lemma f64_sub_self: "f64_sub (F64_Fin x) (F64_Fin x) = F64_Fin 0"
  by (simp add: round_f64_def)

end
