(* ===== verification/Json.thy ===== *)
theory Json
  imports F64
begin

text \<open>
  \<open>serde_json::Value\<close>. The build uses serde\_json without \<open>preserve_order\<close>, so an object is a
  \<open>BTreeMap\<close>: its keys are distinct and ascending, and two objects are equal exactly when
  their entry lists are. An object is therefore an association list kept sorted by
  \<open>jmap_insert\<close> and \<open>jmap_remove\<close>; \<open>wf_json\<close> states the representation invariant. A number
  is a \<open>u64\<close>, a negative \<open>i64\<close> or a finite \<open>f64\<close>, and, as \<open>derive(PartialEq)\<close> has it, values
  of different variants are never equal (\<open>80\<close> and \<open>80.0\<close> differ).
\<close>

datatype json_number = PosInt nat | NegInt int | Float rat

datatype json =
    JNull
  | JBool bool
  | JNumber json_number
  | JString string
  | JArray "json list"
  | JObject "(string \<times> json) list"

type_synonym jmap = "(string \<times> json) list"

section \<open>Maps\<close>

fun jmap_insert :: "string \<Rightarrow> 'v \<Rightarrow> (string \<times> 'v) list \<Rightarrow> (string \<times> 'v) list" where
  "jmap_insert k v [] = [(k, v)]"
| "jmap_insert k v ((k', v') # m) =
     (if k < k' then (k, v) # (k', v') # m
      else if k = k' then (k, v) # m
      else (k', v') # jmap_insert k v m)"

definition jmap_remove :: "string \<Rightarrow> (string \<times> 'v) list \<Rightarrow> (string \<times> 'v) list" where
  "jmap_remove k m = filter (\<lambda>kv. fst kv \<noteq> k) m"

abbreviation jmap_get :: "(string \<times> 'v) list \<Rightarrow> string \<Rightarrow> 'v option" where
  "jmap_get m k \<equiv> map_of m k"

definition wf_jmap :: "(string \<times> 'v) list \<Rightarrow> bool" where
  "wf_jmap m \<longleftrightarrow> sorted_wrt (<) (map fst m)"

text \<open>The \<open>json!\<close> object literal: entries inserted in source order.\<close>

definition json_obj :: "(string \<times> json) list \<Rightarrow> json" where
  "json_obj es = JObject (foldl (\<lambda>m (k, v). jmap_insert k v m) [] es)"

section \<open>Accessors\<close>

definition json_get :: "json \<Rightarrow> string \<Rightarrow> json option" where
  "json_get v k = (case v of JObject m \<Rightarrow> jmap_get m k | _ \<Rightarrow> None)"

definition as_str :: "json \<Rightarrow> string option" where
  "as_str v = (case v of JString s \<Rightarrow> Some s | _ \<Rightarrow> None)"

definition as_object :: "json \<Rightarrow> jmap option" where
  "as_object v = (case v of JObject m \<Rightarrow> Some m | _ \<Rightarrow> None)"

definition as_array :: "json \<Rightarrow> json list option" where
  "as_array v = (case v of JArray xs \<Rightarrow> Some xs | _ \<Rightarrow> None)"

definition is_null :: "json \<Rightarrow> bool" where
  "is_null v = (case v of JNull \<Rightarrow> True | _ \<Rightarrow> False)"

definition is_object :: "json \<Rightarrow> bool" where
  "is_object v = (case v of JObject m \<Rightarrow> True | _ \<Rightarrow> False)"

fun number_as_f64 :: "json_number \<Rightarrow> f64" where
  "number_as_f64 (PosInt n) = round_f64 (of_nat n)"
| "number_as_f64 (NegInt i) = round_f64 (of_int i)"
| "number_as_f64 (Float x) = F64_Fin x"

fun number_as_i64 :: "json_number \<Rightarrow> int option" where
  "number_as_i64 (PosInt n) = (if int n \<le> i64_max then Some (int n) else None)"
| "number_as_i64 (NegInt i) = Some i"
| "number_as_i64 (Float x) = None"

definition as_i64 :: "json \<Rightarrow> int option" where
  "as_i64 v = (case v of JNumber n \<Rightarrow> number_as_i64 n | _ \<Rightarrow> None)"

section \<open>Representation invariant\<close>

fun wf_number :: "json_number \<Rightarrow> bool" where
  "wf_number (PosInt n) \<longleftrightarrow> n < 2 ^ 64"
| "wf_number (NegInt i) \<longleftrightarrow> i64_min \<le> i \<and> i < 0"
| "wf_number (Float x) \<longleftrightarrow> round_f64 x = F64_Fin x"

fun wf_json :: "json \<Rightarrow> bool" where
  "wf_json JNull = True"
| "wf_json (JBool b) = True"
| "wf_json (JNumber n) = wf_number n"
| "wf_json (JString s) = True"
| "wf_json (JArray xs) = (\<forall>x\<in>set xs. wf_json x)"
| "wf_json (JObject m) = (wf_jmap m \<and> (\<forall>kv\<in>set m. wf_json (snd kv)))"

section \<open>Map lemmas\<close>

lemma jmap_get_insert [simp]:
  "wf_jmap m \<Longrightarrow> jmap_get (jmap_insert k v m) = (jmap_get m)(k \<mapsto> v)"
  by (induction k v m rule: jmap_insert.induct) (auto simp: wf_jmap_def fun_eq_iff)

lemma jmap_get_remove [simp]: "jmap_get (jmap_remove k m) = (jmap_get m)(k := None)"
  by (rule ext) (simp add: jmap_remove_def map_of_filter_key [where P = "\<lambda>x. x \<noteq> k"])

lemma keys_jmap_insert: "set (map fst (jmap_insert k v m)) = insert k (set (map fst m))"
  by (induction k v m rule: jmap_insert.induct) auto

lemma set_jmap_insert: "set (jmap_insert k v m) \<subseteq> insert (k, v) (set m)"
  by (induction k v m rule: jmap_insert.induct) auto

lemma wf_jmap_Nil [simp]: "wf_jmap []"
  by (simp add: wf_jmap_def)

lemma wf_jmap_insert [simp, intro]: "wf_jmap m \<Longrightarrow> wf_jmap (jmap_insert k v m)"
proof (induction k v m rule: jmap_insert.induct)
  case (2 k v k' v' m)
  then show ?case
    using keys_jmap_insert [of k v m] by (fastforce simp: wf_jmap_def)
qed (simp add: wf_jmap_def)

lemma wf_jmap_filter: "wf_jmap m \<Longrightarrow> wf_jmap (filter P m)"
  unfolding wf_jmap_def by (induction m) auto

lemma wf_jmap_remove [simp, intro]: "wf_jmap m \<Longrightarrow> wf_jmap (jmap_remove k m)"
  by (simp add: jmap_remove_def wf_jmap_filter)

lemma wf_jmap_distinct: "wf_jmap m \<Longrightarrow> distinct (map fst m)"
  by (simp add: wf_jmap_def strict_sorted_iff)

lemma jmap_from_lookup:
  "distinct (map fst m) \<Longrightarrow> map (\<lambda>k. (k, the (jmap_get m k))) (map fst m) = m"
  by (auto simp: comp_def intro!: map_idI)

text \<open>Two well-formed maps with the same lookups are the same map.\<close>

lemma wf_jmap_ext:
  assumes "wf_jmap m" "wf_jmap n" "jmap_get m = jmap_get n"
  shows "m = n"
proof -
  have "set (map fst m) = set (map fst n)"
    using assms(3) dom_map_of_conv_image_fst [of m] dom_map_of_conv_image_fst [of n] by simp
  then have "map fst m = map fst n"
    using assms(1,2) strict_sorted_equal unfolding wf_jmap_def by blast
  then show ?thesis
    using assms jmap_from_lookup wf_jmap_distinct by metis
qed

lemmas json_access_defs =
  json_get_def as_str_def as_object_def as_array_def is_null_def is_object_def as_i64_def

lemma json_get_simps [simp]:
  "json_get (JObject m) k = jmap_get m k"
  "json_get JNull k = None" "json_get (JBool b) k = None" "json_get (JNumber n) k = None"
  "json_get (JString s) k = None" "json_get (JArray a) k = None"
  by (simp_all add: json_get_def)

lemma as_str_simps [simp]:
  "as_str (JString s) = Some s" "as_str JNull = None" "as_str (JBool b) = None"
  "as_str (JNumber n) = None" "as_str (JArray a) = None" "as_str (JObject m) = None"
  by (simp_all add: as_str_def)

lemma is_null_iff [simp]: "is_null v \<longleftrightarrow> v = JNull"
  by (cases v) (simp_all add: is_null_def)

lemma as_str_Some_iff: "as_str v = Some s \<longleftrightarrow> v = JString s"
  by (cases v) simp_all

lemma json_get_SomeD: "json_get v k = Some x \<Longrightarrow> \<exists>m. v = JObject m \<and> jmap_get m k = Some x"
  by (cases v) auto

section \<open>Editing a map entry by entry\<close>

text \<open>
  The contract of \<open>serde_json::Map\<close> its clients rely on. Most of them walk over the entries of
  one map and edit another: each entry keeps, sets or removes its key. \<open>fold_edits\<close> is that
  loop, and its lookup law is proved once for any map that meets the contract.
\<close>

fun fold_edits ::
  "('k \<Rightarrow> 'v \<Rightarrow> 'm \<Rightarrow> 'm) \<Rightarrow> ('k \<Rightarrow> 'm \<Rightarrow> 'm) \<Rightarrow> ('k \<Rightarrow> 'u \<Rightarrow> 'v option option) \<Rightarrow>
   'm \<Rightarrow> ('k \<times> 'u) list \<Rightarrow> 'm" where
  "fold_edits ins rem f m [] = m"
| "fold_edits ins rem f m ((k, u) # es) =
     fold_edits ins rem f
       (case f k u of None \<Rightarrow> m | Some None \<Rightarrow> rem k m | Some (Some v) \<Rightarrow> ins k v m) es"

locale key_map =
  fixes get :: "'m \<Rightarrow> 'k \<Rightarrow> 'v option"
    and ins :: "'k \<Rightarrow> 'v \<Rightarrow> 'm \<Rightarrow> 'm"
    and rem :: "'k \<Rightarrow> 'm \<Rightarrow> 'm"
    and inv :: "'m \<Rightarrow> bool"
  assumes get_ins: "inv m \<Longrightarrow> get (ins k v m) = (get m)(k \<mapsto> v)"
    and get_rem: "inv m \<Longrightarrow> get (rem k m) = (get m)(k := None)"
    and inv_ins: "inv m \<Longrightarrow> inv (ins k v m)"
    and inv_rem: "inv m \<Longrightarrow> inv (rem k m)"
    and extensional: "inv m \<Longrightarrow> inv n \<Longrightarrow> get m = get n \<Longrightarrow> m = n"
begin

lemma inv_fold_edits: "inv m \<Longrightarrow> inv (fold_edits ins rem f m es)"
  by (induction es arbitrary: m) (auto simp: inv_ins inv_rem split: option.split)

lemma get_fold_edits:
  assumes "inv m" "distinct (map fst es)"
  shows "get (fold_edits ins rem f m es) k =
    (case map_of es k of
       None \<Rightarrow> get m k
     | Some u \<Rightarrow> (case f k u of None \<Rightarrow> get m k | Some y \<Rightarrow> y))"
  using assms
proof (induction es arbitrary: m)
  case (Cons e es)
  obtain k0 u where e: "e = (k0, u)" by (cases e)
  let ?m = "case f k0 u of None \<Rightarrow> m | Some None \<Rightarrow> rem k0 m | Some (Some v) \<Rightarrow> ins k0 v m"
  have "inv ?m" using Cons.prems by (auto simp: inv_ins inv_rem split: option.split)
  with Cons.IH [of ?m] Cons.prems e show ?case
    by (auto simp: get_ins get_rem dom_map_of_conv_image_fst [symmetric] split: option.split)
qed simp

end

interpretation jm: key_map map_of jmap_insert jmap_remove wf_jmap
  by unfold_locales (simp_all add: wf_jmap_ext)

end
