(* ===== verification/Models.thy ===== *)
theory Models
  imports Json
begin

text \<open>
  \<open>backend/src/db/models.rs\<close>: the rows of the tables and the enums stored in them. Integer
  columns are \<open>int\<close>; timestamps are instants; JSONB columns are \<open>json\<close>. A field keeps its
  Rust name behind a prefix for its struct.
\<close>

section \<open>Properties and their desired state\<close>

record property_latest =
  pl_product_id :: string
  pl_device_id :: string
  pl_properties :: json
  pl_updated_time :: instant

record property_desired =
  pd_product_id :: string
  pd_device_id :: string
  pd_desired :: json
  pd_updated_time :: instant

record property_history =
  ph_id :: int
  ph_product_id :: string
  ph_device_id :: string
  ph_properties :: json
  ph_reported_time :: "instant option"
  ph_created_time :: instant

record event_history =
  eh_id :: int
  eh_product_id :: string
  eh_device_id :: string
  eh_events :: json
  eh_reported_time :: "instant option"
  eh_created_time :: instant

section \<open>Commands\<close>

datatype command_status = Pending | Sent | Success | Failed | Deleted

datatype command_source = OneShot | DesiredDelta

record property_command =
  pc_id :: int
  pc_product_id :: string
  pc_device_id :: string
  pc_command :: json
  pc_status :: command_status
  pc_source :: command_source
  pc_created_time :: instant
  pc_updated_time :: instant

record action_invocation =
  ai_id :: int
  ai_product_id :: string
  ai_device_id :: string
  ai_service_type :: string
  ai_params :: json
  ai_status :: command_status
  ai_created_time :: instant
  ai_updated_time :: instant

section \<open>Devices\<close>

datatype device_connection_status = Offline | Online

datatype registration_source = Auto | Manual

record device =
  dv_id :: int
  dv_product_id :: string
  dv_device_id :: string
  dv_registration_source :: registration_source
  dv_created_at :: instant
  dv_updated_at :: instant

record device_status =
  ds_product_id :: string
  ds_device_id :: string
  ds_status :: device_connection_status
  ds_ip_address :: "string option"
  ds_last_online_at :: "instant option"
  ds_last_offline_at :: "instant option"
  ds_created_at :: instant
  ds_updated_at :: instant

record device_status_history =
  dh_id :: int
  dh_product_id :: string
  dh_device_id :: string
  dh_status :: device_connection_status
  dh_ip_address :: "string option"
  dh_reason :: "string option"
  dh_connected_at :: "instant option"
  dh_disconnected_at :: "instant option"
  dh_created_at :: instant

section \<open>Validation templates\<close>

datatype template_status = Draft | Active | Inactive

record event_valid_template =
  vt_id :: int
  vt_product_id :: string
  vt_event :: string
  vt_description :: "string option"
  vt_schema :: json
  vt_status :: template_status
  vt_created_at :: instant
  vt_updated_at :: instant

section \<open>Alarms\<close>

record alarm_rule =
  ar_id :: int
  ar_product_id :: string
  ar_name :: string
  ar_description :: "string option"
  ar_trigger_type :: string
  ar_trigger_config :: json
  ar_condition :: json
  ar_actions :: json
  ar_enabled :: bool
  ar_throttle_minutes :: int
  ar_duration_minutes :: int
  ar_clear_condition :: "json option"
  ar_created_at :: instant
  ar_updated_at :: instant

record alarm_record =
  al_id :: int
  al_rule_id :: int
  al_rule_name :: string
  al_product_id :: string
  al_device_id :: string
  al_level :: int
  al_message :: "string option"
  al_trigger_value :: "json option"
  al_acknowledged :: bool
  al_status :: string
  al_webhook_status :: "int option"
  al_trigger_type :: string
  al_webhook_retries_left :: int
  al_webhook_next_retry_at :: "instant option"
  al_created_at :: instant
  al_cleared_at :: "instant option"

section \<open>Products\<close>

datatype product_status = PsOnline | PsOffline

record product =
  pt_id :: int
  pt_name :: string
  pt_model_no :: string
  pt_description :: "string option"
  pt_status :: product_status
  pt_auto_provisioning :: bool
  pt_created_at :: instant
  pt_updated_at :: instant

section \<open>Firmware versions\<close>

record ota_version =
  ov_id :: int
  ov_product_id :: string
  ov_key :: string
  ov_version :: int
  ov_max_version :: "int option"
  ov_min_version :: int
  ov_file_key :: string
  ov_log :: "json option"
  ov_device_ids :: "string list option"
  ov_bin_length :: int
  ov_bin_md5 :: string
  ov_released_at :: instant
  ov_status :: int
  ov_created_at :: instant
  ov_updated_at :: instant

text \<open>The table \<open>device_versions\<close>.\<close>

record device_version =
  vr_product_id :: string
  vr_device_id :: string
  vr_key :: string
  vr_version :: int
  vr_last_updated_at :: "instant option"
  vr_updated_at :: instant

section \<open>Certificates\<close>

datatype cert_status = Normal | InValid | Revoked

record cert_issue =
  ci_id :: int
  ci_product_id :: string
  ci_device_id :: string
  ci_pub_cert :: string
  ci_start_at :: instant
  ci_end_at :: instant
  ci_status :: cert_status
  ci_created_at :: instant

section \<open>Factory metadata\<close>

record factory_device_metadata =
  fd_device_sn :: string
  fd_metadata :: json
  fd_file_attachments :: json
  fd_updated_at :: instant
  fd_created_at :: instant

record factory_component_metadata =
  fc_component_sn :: string
  fc_component_type :: string
  fc_metadata :: json
  fc_file_attachments :: json
  fc_updated_at :: instant
  fc_created_at :: instant

record factory_component_association =
  fa_device_sn :: string
  fa_component_sn :: string
  fa_component_type :: "string option"
  fa_updated_at :: instant

record factory_metadata_change_log =
  fl_id :: int
  fl_sn :: string
  fl_before :: "json option"
  fl_after :: json
  fl_actor :: string
  fl_created_at :: instant

end
