(* ===== verification/Api_Error.thy ===== *)
theory Api_Error
  imports Rust_Str
begin

text \<open>
  \<open>backend/src/api/error.rs\<close>: the HTTP error a handler returns, a status code and a message.
  \<open>anyhow::Error\<close> is \<open>io_error\<close>: which external system failed, or a message.
\<close>

record api_error =
  status :: nat
  message :: string

definition api_error_new :: "nat \<Rightarrow> string \<Rightarrow> api_error" where
  "api_error_new st m = \<lparr>status = st, message = m\<rparr>"

definition bad_request :: "string \<Rightarrow> api_error" where "bad_request m = api_error_new 400 m"
definition not_found :: "string \<Rightarrow> api_error" where "not_found m = api_error_new 404 m"
definition internal :: "string \<Rightarrow> api_error" where "internal m = api_error_new 500 m"
definition unauthorized :: api_error where "unauthorized = api_error_new 401 ''unauthorized''"
definition unauthorized_with :: "string \<Rightarrow> api_error" where
  "unauthorized_with m = api_error_new 401 m"
definition forbidden :: api_error where "forbidden = api_error_new 403 ''forbidden''"
definition forbidden_with :: "string \<Rightarrow> api_error" where "forbidden_with m = api_error_new 403 m"
definition conflict :: "string \<Rightarrow> api_error" where "conflict m = api_error_new 409 m"
definition service_unavailable :: "string \<Rightarrow> api_error" where
  "service_unavailable m = api_error_new 503 m"

text \<open>
  \<open>Panicked\<close> is an \<open>unwrap\<close> that fails: the task ends and no handler maps it. \<open>UniqueViolation\<close> is
  the database error with code 23505.
\<close>

datatype io_error = CallFailed | Bail string | Panicked | UniqueViolation

definition map_db_err :: "io_error \<Rightarrow> api_error" where
  "map_db_err e = internal ''Database operation failed''"

lemmas api_error_defs =
  bad_request_def not_found_def internal_def unauthorized_def unauthorized_with_def
  forbidden_def forbidden_with_def conflict_def service_unavailable_def api_error_new_def

lemma api_error_status [simp]:
  "status (bad_request m) = 400" "status (not_found m) = 404" "status (internal m) = 500"
  "status unauthorized = 401" "status (unauthorized_with m) = 401" "status forbidden = 403"
  "status (forbidden_with m) = 403" "status (conflict m) = 409"
  "status (service_unavailable m) = 503" "status (map_db_err e) = 500"
  by (simp_all add: api_error_defs map_db_err_def)

end
