(* ===== verification/Rule_State.thy ===== *)
theory Rule_State
  imports Rust_Str
begin

text \<open>
  \<open>backend/src/rule_engine/cache.rs\<close>, the trait \<open>RuleStateStore\<close> and its in-memory
  implementation. An instant is a count of nanoseconds (\<open>OffsetDateTime\<close> differences are exact
  at that resolution). The trait is the record \<open>store_ops\<close> of its methods over an abstract
  store state, which is how \<open>Arc<dyn RuleStateStore>\<close> reaches the rule engine; its contract is
  the locale \<open>rule_state_store\<close>, interpreted here on the in-memory store.
\<close>

text \<open>\<open>Duration::whole_minutes\<close>: both divisions truncate towards zero.\<close>

definition whole_minutes :: "int \<Rightarrow> int" where
  "whole_minutes d = (d sdiv ns_per_sec) sdiv 60"

datatype duration_check_result = Met | NotYetMet | JustStarted | NotStarted

datatype store_error = StoreError string

text \<open>The trait. Every method gets the instant at which it runs as its clock argument.\<close>

record 's store_ops =
  st_check_dedup :: "int \<Rightarrow> string \<Rightarrow> int \<Rightarrow> instant \<Rightarrow> 's \<Rightarrow> bool"
  st_mark_triggered :: "int \<Rightarrow> string \<Rightarrow> int \<Rightarrow> instant \<Rightarrow> 's \<Rightarrow> (store_error + unit) \<times> 's"
  st_check_duration ::
    "int \<Rightarrow> string \<Rightarrow> int \<Rightarrow> instant \<Rightarrow> 's \<Rightarrow> duration_check_result \<times> 's"
  st_reset_duration :: "int \<Rightarrow> string \<Rightarrow> 's \<Rightarrow> (store_error + unit) \<times> 's"
  st_invalidate_by_rule_ids :: "int list \<Rightarrow> 's \<Rightarrow> (store_error + unit) \<times> 's"

section \<open>The in-memory store\<close>

record in_memory_store =
  dedup :: "string \<rightharpoonup> instant"
  duration_tracking :: "string \<rightharpoonup> instant"

definition in_memory_new :: in_memory_store where
  "in_memory_new = \<lparr>dedup = Map.empty, duration_tracking = Map.empty\<rparr>"

definition store_key :: "int \<Rightarrow> string \<Rightarrow> string" where
  "store_key rule_id device_id = show_int rule_id @ '':'' @ device_id"

definition mem_check_dedup ::
  "int \<Rightarrow> string \<Rightarrow> int \<Rightarrow> instant \<Rightarrow> in_memory_store \<Rightarrow> bool" where
  "mem_check_dedup rule_id device_id throttle_minutes now s =
     (if throttle_minutes \<le> 0 then False
      else case dedup s (store_key rule_id device_id) of
             Some last_triggered \<Rightarrow> whole_minutes (now - last_triggered) < throttle_minutes
           | None \<Rightarrow> False)"

definition mem_mark_triggered ::
  "int \<Rightarrow> string \<Rightarrow> int \<Rightarrow> instant \<Rightarrow> in_memory_store
     \<Rightarrow> (store_error + unit) \<times> in_memory_store" where
  "mem_mark_triggered rule_id device_id throttle_minutes now_utc s =
     (Inr (), s\<lparr>dedup := (dedup s)(store_key rule_id device_id \<mapsto> now_utc)\<rparr>)"

definition mem_check_duration ::
  "int \<Rightarrow> string \<Rightarrow> int \<Rightarrow> instant \<Rightarrow> in_memory_store
     \<Rightarrow> duration_check_result \<times> in_memory_store" where
  "mem_check_duration rule_id device_id duration_minutes now s =
     (if duration_minutes \<le> 0 then (Met, s)
      else let key = store_key rule_id device_id
           in case duration_tracking s key of
                Some stored \<Rightarrow>
                  ((if whole_minutes (now - stored) \<ge> duration_minutes then Met else NotYetMet), s)
              | None \<Rightarrow>
                  (JustStarted, s\<lparr>duration_tracking := (duration_tracking s)(key \<mapsto> now)\<rparr>))"

definition mem_reset_duration ::
  "int \<Rightarrow> string \<Rightarrow> in_memory_store \<Rightarrow> (store_error + unit) \<times> in_memory_store" where
  "mem_reset_duration rule_id device_id s =
     (Inr (), s\<lparr>duration_tracking := (duration_tracking s)(store_key rule_id device_id := None)\<rparr>)"

text \<open>\<open>DashMap::retain\<close> on the keys.\<close>

definition retain_keys :: "(string \<Rightarrow> bool) \<Rightarrow> (string \<rightharpoonup> 'v) \<Rightarrow> (string \<rightharpoonup> 'v)" where
  "retain_keys P m = (\<lambda>k. if P k then m k else None)"

definition keep_key :: "int list \<Rightarrow> string \<Rightarrow> bool" where
  "keep_key rule_ids k =
     (case split_on CHR '':'' k of
        [] \<Rightarrow> True
      | part # _ \<Rightarrow> part \<notin> set (map show_int rule_ids))"

definition mem_invalidate_by_rule_ids ::
  "int list \<Rightarrow> in_memory_store \<Rightarrow> (store_error + unit) \<times> in_memory_store" where
  "mem_invalidate_by_rule_ids rule_ids s =
     (if rule_ids = [] then (Inr (), s)
      else (Inr (), s\<lparr>duration_tracking := retain_keys (keep_key rule_ids) (duration_tracking s),
                      dedup := retain_keys (keep_key rule_ids) (dedup s)\<rparr>))"

definition in_memory_ops :: "in_memory_store store_ops" where
  "in_memory_ops =
     \<lparr>st_check_dedup = mem_check_dedup,
      st_mark_triggered = mem_mark_triggered,
      st_check_duration = mem_check_duration,
      st_reset_duration = mem_reset_duration,
      st_invalidate_by_rule_ids = mem_invalidate_by_rule_ids\<rparr>"

section \<open>Minutes and keys\<close>

lemma whole_minutes_nonneg: "0 \<le> d \<Longrightarrow> whole_minutes d = d div ns_per_min"
  by (simp add: whole_minutes_def signed_divide_int_def ns_per_sec_def ns_per_min_def
      sgn_if zdiv_zmult2_eq [symmetric] div_int_pos_iff pos_imp_zdiv_nonneg_iff)

lemma whole_minutes_neg: "d < 0 \<Longrightarrow> whole_minutes d \<le> 0"
  by (auto simp: whole_minutes_def signed_divide_int_def ns_per_sec_def sgn_if
      pos_imp_zdiv_nonneg_iff split: if_splits)

lemma le_div_iff_int: "0 < (k::int) \<Longrightarrow> n \<le> d div k \<longleftrightarrow> n * k \<le> d"
proof
  assume k: "0 < k" and le: "n \<le> d div k"
  have "n * k \<le> d div k * k" using k le by simp
  also have "\<dots> \<le> d" using k by (metis div_mult_mod_eq le_add_same_cancel1 pos_mod_sign)
  finally show "n * k \<le> d" .
next
  assume k: "0 < k" and le: "n * k \<le> d"
  from zdiv_mono1 [OF le k] k show "n \<le> d div k" by simp
qed

lemma whole_minutes_ge_iff:
  assumes "0 < n"
  shows "n \<le> whole_minutes d \<longleftrightarrow> n * ns_per_min \<le> d"
proof (cases "0 \<le> d")
  case True
  have "0 < ns_per_min" by (simp add: ns_per_min_def ns_per_sec_def)
  with True show ?thesis by (simp add: whole_minutes_nonneg le_div_iff_int)
next
  case False
  have "0 < n * ns_per_min" using assms by (simp add: ns_per_min_def ns_per_sec_def)
  with False assms whole_minutes_neg [of d] show ?thesis by linarith
qed

lemma store_key_inject: "store_key r d = store_key r' d' \<longleftrightarrow> r = r' \<and> d = d'"
proof
  assume eq: "store_key r d = store_key r' d'"
  have "split_once CHR '':'' (store_key r d) = Some (show_int r, d)" for r d
    unfolding store_key_def using split_once_append [OF show_int_no_colon] by simp
  with eq show "r = r' \<and> d = d'" by (metis option.inject prod.inject show_int_inject)
qed simp

lemma keep_key_store_key: "keep_key rs (store_key r d) \<longleftrightarrow> r \<notin> set rs"
  unfolding keep_key_def store_key_def
  by (auto simp: split_on_append [OF show_int_no_colon] show_int_inject image_iff)

section \<open>The contract of a rule state store\<close>

text \<open>
  What throttling relies on, for a window of \<open>t\<close> minutes that starts at \<open>T\<close>: a mark made in the window for at
  least \<open>t\<close> minutes suppresses every later or earlier trigger of the window. The contract allows a store to
  suppress more than that (a store that cannot be reached) and to forget older marks (a store with expiring
  keys).
\<close>

locale throttle_store =
  fixes ops :: "'s store_ops"
    and T :: instant and t :: int
    and triggered_at :: "'s \<Rightarrow> int \<Rightarrow> string \<Rightarrow> instant option"
  assumes check_suppresses:
      "t \<le> t' \<Longrightarrow> triggered_at s r d = Some m \<Longrightarrow> m \<in> {T..<T + t * ns_per_min} \<Longrightarrow>
       now \<in> {T..<T + t * ns_per_min} \<Longrightarrow> st_check_dedup ops r d t' now s"
    and mark_own:
      "t \<le> t' \<Longrightarrow> now \<in> {T..<T + t * ns_per_min} \<Longrightarrow>
       triggered_at (snd (st_mark_triggered ops r d t' now s)) r d = Some now"
    and mark_other:
      "(r', d') \<noteq> (r, d) \<Longrightarrow>
       triggered_at (snd (st_mark_triggered ops r d t' now s)) r' d' = triggered_at s r' d'"
    and check_duration_other:
      "triggered_at (snd (st_check_duration ops r d n now s)) r' d' = triggered_at s r' d'"
    and reset_duration_other:
      "triggered_at (snd (st_reset_duration ops r d s)) r' d' = triggered_at s r' d'"

text \<open>
  What the rule engine relies on. \<open>triggered_at\<close> and \<open>tracking_since\<close> read the store's two
  pieces of state for a rule and a device: when the pair last fired, and since when its
  condition has been held.
\<close>

locale rule_state_store =
  fixes ops :: "'s store_ops"
    and triggered_at :: "'s \<Rightarrow> int \<Rightarrow> string \<Rightarrow> instant option"
    and tracking_since :: "'s \<Rightarrow> int \<Rightarrow> string \<Rightarrow> instant option"
  assumes check_dedup_spec:
      "st_check_dedup ops r d t now s \<longleftrightarrow>
         0 < t \<and> (\<exists>m. triggered_at s r d = Some m \<and> now - m < t * ns_per_min)"
    and mark_triggered_spec:
      "triggered_at (snd (st_mark_triggered ops r d t now s)) r' d' =
         (if r' = r \<and> d' = d then Some now else triggered_at s r' d')"
    and mark_triggered_frame:
      "tracking_since (snd (st_mark_triggered ops r d t now s)) r' d' = tracking_since s r' d'"
    and check_duration_result:
      "fst (st_check_duration ops r d n now s) =
         (if n \<le> 0 then Met
          else case tracking_since s r d of
                 None \<Rightarrow> JustStarted
               | Some m \<Rightarrow> if n * ns_per_min \<le> now - m then Met else NotYetMet)"
    and check_duration_tracks:
      "tracking_since (snd (st_check_duration ops r d n now s)) r' d' =
         (if 0 < n \<and> r' = r \<and> d' = d \<and> tracking_since s r d = None then Some now
          else tracking_since s r' d')"
    and check_duration_frame:
      "triggered_at (snd (st_check_duration ops r d n now s)) r' d' = triggered_at s r' d'"
    and reset_duration_spec:
      "tracking_since (snd (st_reset_duration ops r d s)) r' d' =
         (if r' = r \<and> d' = d then None else tracking_since s r' d')"
    and reset_duration_frame:
      "triggered_at (snd (st_reset_duration ops r d s)) r' d' = triggered_at s r' d'"
    and invalidate_tracking:
      "tracking_since (snd (st_invalidate_by_rule_ids ops rs s)) r d =
         (if r \<in> set rs then None else tracking_since s r d)"
    and invalidate_triggered:
      "triggered_at (snd (st_invalidate_by_rule_ids ops rs s)) r d =
         (if r \<in> set rs then None else triggered_at s r d)"
begin

lemmas store_specs =
  check_dedup_spec mark_triggered_spec mark_triggered_frame check_duration_result
  check_duration_tracks check_duration_frame reset_duration_spec reset_duration_frame
  invalidate_tracking invalidate_triggered

lemma dedup_window:
  "st_check_dedup ops r d t now (snd (st_mark_triggered ops r d t m s)) \<longleftrightarrow>
     0 < t \<and> now < m + t * ns_per_min"
  by (auto simp: store_specs)

lemma dedup_other_pair:
  "(r', d') \<noteq> (r, d) \<Longrightarrow>
   st_check_dedup ops r' d' t' now (snd (st_mark_triggered ops r d t m s)) =
     st_check_dedup ops r' d' t' now s"
  by (auto simp: store_specs)

lemma invalidated_never_suppresses:
  "r \<in> set rs \<Longrightarrow>
   \<not> st_check_dedup ops r d t now (snd (st_invalidate_by_rule_ids ops rs s)) \<and>
   (0 < n \<longrightarrow>
    fst (st_check_duration ops r d n now (snd (st_invalidate_by_rule_ids ops rs s))) = JustStarted)"
  by (simp add: store_specs)

end

lemma le_minutes: "(t::int) \<le> t' \<Longrightarrow> t * ns_per_min \<le> t' * ns_per_min"
  by (simp add: ns_per_min_def ns_per_sec_def)

lemma window_positive: "x \<in> {T..<T + t * ns_per_min} \<Longrightarrow> 0 < t"
  by (auto simp: ns_per_min_def ns_per_sec_def)

sublocale rule_state_store \<subseteq> throttle: throttle_store ops T t triggered_at for T t
proof unfold_locales
  fix T t t' s r d m now
  assume "t \<le> t'" "triggered_at s r d = Some m" "m \<in> {T..<T + t * ns_per_min}" "now \<in> {T..<T + t * ns_per_min}"
  then show "st_check_dedup ops r d t' now s"
    using le_minutes [of t t'] window_positive [of now T t] by (auto simp: check_dedup_spec)
qed (auto simp: store_specs)

definition mem_triggered_at :: "in_memory_store \<Rightarrow> int \<Rightarrow> string \<Rightarrow> instant option" where
  "mem_triggered_at s r d = dedup s (store_key r d)"

definition mem_tracking_since :: "in_memory_store \<Rightarrow> int \<Rightarrow> string \<Rightarrow> instant option" where
  "mem_tracking_since s r d = duration_tracking s (store_key r d)"

lemma whole_minutes_less_iff: "0 < n \<Longrightarrow> whole_minutes d < n \<longleftrightarrow> d < n * ns_per_min"
  using whole_minutes_ge_iff [of n d] by linarith

lemmas mem_store_defs =
  in_memory_ops_def mem_check_dedup_def mem_mark_triggered_def mem_check_duration_def
  mem_reset_duration_def mem_invalidate_by_rule_ids_def mem_triggered_at_def
  mem_tracking_since_def retain_keys_def

interpretation mem: rule_state_store in_memory_ops mem_triggered_at mem_tracking_since
  by unfold_locales
     (auto simp: mem_store_defs Let_def store_key_inject keep_key_store_key
       whole_minutes_less_iff whole_minutes_ge_iff split: option.splits)

section \<open>Properties of the in-memory store\<close>

text \<open>
  Throttling. After a rule fired for a device at instant \<open>m\<close>, \<open>check_dedup\<close> suppresses
  exactly the triggers of that rule and that device whose time is before \<open>m\<close> plus the throttle
  window, and it answers for every other rule and device what it answered before the mark.
\<close>

theorem throttle_window_exact:
  "mem_check_dedup r' d' t' now (snd (mem_mark_triggered r d t m s)) =
     (if r' = r \<and> d' = d then 0 < t' \<and> now < m + t' * ns_per_min
      else mem_check_dedup r' d' t' now s)"
proof -
  have "st_check_dedup in_memory_ops = mem_check_dedup"
    "st_mark_triggered in_memory_ops = mem_mark_triggered" by (simp_all add: in_memory_ops_def)
  then show ?thesis
    using mem.check_dedup_spec [of r' d' t' now] mem.mark_triggered_spec [of r d t m s r' d']
    by auto
qed

text \<open>
  Invalidation. After \<open>invalidate_by_rule_ids\<close> no trigger of a listed rule is throttled and
  the wait of its duration condition starts anew, and the store answers as before for every
  rule that is not listed.
\<close>

theorem invalidation_exact:
  "mem_check_dedup r d t now (snd (mem_invalidate_by_rule_ids rs s)) =
     (r \<notin> set rs \<and> mem_check_dedup r d t now s) \<and>
   fst (mem_check_duration r d n now (snd (mem_invalidate_by_rule_ids rs s))) =
     (if r \<in> set rs \<and> 0 < n then JustStarted else fst (mem_check_duration r d n now s))"
proof -
  have ops: "st_check_dedup in_memory_ops = mem_check_dedup"
    "st_check_duration in_memory_ops = mem_check_duration"
    "st_invalidate_by_rule_ids in_memory_ops = mem_invalidate_by_rule_ids"
    by (simp_all add: in_memory_ops_def)
  show ?thesis
    using mem.check_dedup_spec [of r d t now] mem.invalidate_triggered [of rs s r d]
      mem.check_duration_result [of r d n now] mem.invalidate_tracking [of rs s r d]
    by (auto simp: ops)
qed

end
