(* ===== verification/Evaluator.thy ===== *)
theory Evaluator
  imports Json
begin

text \<open>
  \<open>backend/src/rule_engine/evaluator.rs\<close>: trigger types and the condition evaluator of the
  alarm rule engine. Closures passed to the comparison helpers are HOL functions.
\<close>

datatype trigger_type = Property | Event | DeviceOnline | DeviceOffline

definition trigger_type_from_str :: "string \<Rightarrow> trigger_type option" where
  "trigger_type_from_str s =
     (if s = ''property'' then Some Property
      else if s = ''event'' then Some Event
      else if s = ''device_online'' then Some DeviceOnline
      else if s = ''device_offline'' then Some DeviceOffline
      else None)"

fun trigger_type_as_str :: "trigger_type \<Rightarrow> string" where
  "trigger_type_as_str Property = ''property''"
| "trigger_type_as_str Event = ''event''"
| "trigger_type_as_str DeviceOnline = ''device_online''"
| "trigger_type_as_str DeviceOffline = ''device_offline''"

definition SUPPORTED_OPERATORS :: "string list" where
  "SUPPORTED_OPERATORS =
     [''>'', ''>='', ''<'', ''<='', ''=='', ''!='', ''between'', ''contains'', ''always'']"

definition is_supported_operator :: "string \<Rightarrow> bool" where
  "is_supported_operator op \<longleftrightarrow> op \<in> set SUPPORTED_OPERATORS"

fun json_to_f64 :: "json \<Rightarrow> f64 option" where
  "json_to_f64 (JNumber n) = Some (number_as_f64 n)"
| "json_to_f64 (JString s) = parse_f64 s"
| "json_to_f64 _ = None"

definition compare_f64 :: "json \<Rightarrow> json \<Rightarrow> (f64 \<Rightarrow> f64 \<Rightarrow> bool) \<Rightarrow> bool option" where
  "compare_f64 a b op =
     Option.bind (json_to_f64 a) (\<lambda>a_f64.
     Option.bind (json_to_f64 b) (\<lambda>b_f64. Some (op a_f64 b_f64)))"

definition compare_str :: "json \<Rightarrow> json \<Rightarrow> (string \<Rightarrow> string \<Rightarrow> bool) \<Rightarrow> bool option" where
  "compare_str a b op =
     Option.bind (as_str a) (\<lambda>a_str.
     Option.bind (as_str b) (\<lambda>b_str. Some (op a_str b_str)))"

definition compare_ordered ::
  "json \<Rightarrow> json \<Rightarrow> (f64 \<Rightarrow> f64 \<Rightarrow> bool) \<Rightarrow> (string \<Rightarrow> string \<Rightarrow> bool) \<Rightarrow> bool" where
  "compare_ordered condition actual num_op str_op =
     (case json_get condition ''value'' of
        None \<Rightarrow> False
      | Some threshold \<Rightarrow>
          (case compare_f64 actual threshold num_op of
             Some r \<Rightarrow> r
           | None \<Rightarrow> (case compare_str actual threshold str_op of Some r \<Rightarrow> r | None \<Rightarrow> False)))"

definition evaluate :: "json \<Rightarrow> json \<Rightarrow> bool" where
  "evaluate condition actual_value =
     (case Option.bind (json_get condition ''operator'') as_str of
        None \<Rightarrow> False
      | Some operator \<Rightarrow>
          if operator = ''>'' then
            compare_ordered condition actual_value (\<lambda>a b. f64_lt b a) (\<lambda>a b. a > b)
          else if operator = ''>='' then
            compare_ordered condition actual_value (\<lambda>a b. f64_le b a) (\<lambda>a b. a \<ge> b)
          else if operator = ''<'' then
            compare_ordered condition actual_value f64_lt (\<lambda>a b. a < b)
          else if operator = ''<='' then
            compare_ordered condition actual_value f64_le (\<lambda>a b. a \<le> b)
          else if operator = ''=='' then
            (case json_get condition ''value'' of
               None \<Rightarrow> False
             | Some expected \<Rightarrow>
                 (case compare_f64 actual_value expected
                         (\<lambda>a b. f64_lt (f64_abs (f64_sub a b)) F64_EPSILON) of
                    Some result \<Rightarrow> result
                  | None \<Rightarrow>
                      (case compare_str actual_value expected (\<lambda>a b. a = b) of
                         Some result \<Rightarrow> result
                       | None \<Rightarrow> actual_value = expected)))
          else if operator = ''!='' then
            (case json_get condition ''value'' of
               None \<Rightarrow> False
             | Some expected \<Rightarrow>
                 (case compare_f64 actual_value expected
                         (\<lambda>a b. f64_le F64_EPSILON (f64_abs (f64_sub a b))) of
                    Some result \<Rightarrow> result
                  | None \<Rightarrow>
                      (case compare_str actual_value expected (\<lambda>a b. a \<noteq> b) of
                         Some result \<Rightarrow> result
                       | None \<Rightarrow> actual_value \<noteq> expected)))
          else if operator = ''between'' then
            (case Option.bind (json_get condition ''min'') json_to_f64 of
               None \<Rightarrow> False
             | Some mn \<Rightarrow>
                 (case Option.bind (json_get condition ''max'') json_to_f64 of
                    None \<Rightarrow> False
                  | Some mx \<Rightarrow>
                      (case json_to_f64 actual_value of
                         None \<Rightarrow> False
                       | Some actual_f64 \<Rightarrow> f64_le mn actual_f64 \<and> f64_le actual_f64 mx)))
          else if operator = ''contains'' then
            (case Option.bind (json_get condition ''value'') as_str of
               None \<Rightarrow> False
             | Some pattern \<Rightarrow>
                 (case map_option (\<lambda>s. str_contains s pattern) (as_str actual_value) of
                    Some r \<Rightarrow> r
                  | None \<Rightarrow> False))
          else if operator = ''always'' then True
          else False)"

section \<open>Conditions by shape\<close>

text \<open>The condition documents the API accepts, and how \<open>evaluate\<close> reads them.\<close>

definition cond_value :: "string \<Rightarrow> json \<Rightarrow> json" where
  "cond_value op v = json_obj [(''operator'', JString op), (''value'', v)]"

definition cond_between :: "json \<Rightarrow> json \<Rightarrow> json" where
  "cond_between mn mx = json_obj [(''operator'', JString ''between''), (''min'', mn), (''max'', mx)]"

lemma cond_value_get [simp]:
  "json_get (cond_value op v) ''operator'' = Some (JString op)"
  "json_get (cond_value op v) ''value'' = Some v"
  by (simp_all add: cond_value_def json_obj_def less_char_def)

lemma cond_between_get [simp]:
  "json_get (cond_between mn mx) ''operator'' = Some (JString ''between'')"
  "json_get (cond_between mn mx) ''min'' = Some mn"
  "json_get (cond_between mn mx) ''max'' = Some mx"
  by (simp_all add: cond_between_def json_obj_def less_char_def)

text \<open>One equation per operator, for any condition that carries it.\<close>

lemma evaluate_no_operator:
  "Option.bind (json_get c ''operator'') as_str = None \<Longrightarrow> \<not> evaluate c a"
  by (simp add: evaluate_def)

lemma evaluate_by_operator:
  assumes "json_get c ''operator'' = Some (JString op)"
  shows "op = ''>'' \<Longrightarrow> evaluate c a = compare_ordered c a (\<lambda>a b. f64_lt b a) (\<lambda>a b. a > b)"
    and "op = ''>='' \<Longrightarrow> evaluate c a = compare_ordered c a (\<lambda>a b. f64_le b a) (\<lambda>a b. a \<ge> b)"
    and "op = ''<'' \<Longrightarrow> evaluate c a = compare_ordered c a f64_lt (\<lambda>a b. a < b)"
    and "op = ''<='' \<Longrightarrow> evaluate c a = compare_ordered c a f64_le (\<lambda>a b. a \<le> b)"
    and "op = ''always'' \<Longrightarrow> evaluate c a"
    and "\<not> is_supported_operator op \<Longrightarrow> \<not> evaluate c a"
  using assms by (simp_all add: evaluate_def is_supported_operator_def SUPPORTED_OPERATORS_def)

lemma evaluate_eq:
  assumes "json_get c ''operator'' = Some (JString ''=='')" "json_get c ''value'' = Some e"
  shows "evaluate c a =
     (case (json_to_f64 a, json_to_f64 e) of
        (Some x, Some y) \<Rightarrow> f64_lt (f64_abs (f64_sub x y)) F64_EPSILON
      | _ \<Rightarrow> a = e)"
  using assms
  by (cases a; cases e)
     (auto simp: evaluate_def compare_f64_def compare_str_def as_str_def split: option.splits)

lemma evaluate_ne:
  assumes "json_get c ''operator'' = Some (JString ''!='')" "json_get c ''value'' = Some e"
  shows "evaluate c a =
     (case (json_to_f64 a, json_to_f64 e) of
        (Some x, Some y) \<Rightarrow> f64_le F64_EPSILON (f64_abs (f64_sub x y))
      | _ \<Rightarrow> a \<noteq> e)"
  using assms
  by (cases a; cases e)
     (auto simp: evaluate_def compare_f64_def compare_str_def as_str_def split: option.splits)

lemma evaluate_between:
  "evaluate (cond_between mn mx) a =
     (case (json_to_f64 mn, json_to_f64 mx, json_to_f64 a) of
        (Some l, Some h, Some x) \<Rightarrow> f64_le l x \<and> f64_le x h
      | _ \<Rightarrow> False)"
  by (auto simp: evaluate_def split: option.splits)

lemma evaluate_contains:
  "evaluate (cond_value ''contains'' p) a =
     (case (p, a) of (JString pat, JString s) \<Rightarrow> str_contains s pat | _ \<Rightarrow> False)"
  by (cases p; cases a) (auto simp: evaluate_def)

lemma compare_ordered_numeric:
  assumes "json_get c ''value'' = Some t" "json_to_f64 t = Some y" "json_to_f64 a = Some x"
  shows "compare_ordered c a num_op str_op = num_op x y"
  using assms by (simp add: compare_ordered_def compare_f64_def)

text \<open>On integers a double represents exactly, the order of the numbers.\<close>

lemma evaluate_nat_order:
  assumes "m < 2 ^ 53" "n < 2 ^ 53" and "json_get c ''value'' = Some (JNumber (PosInt n))"
  shows "json_get c ''operator'' = Some (JString ''>'') \<Longrightarrow> evaluate c (JNumber (PosInt m)) = (n < m)"
    and "json_get c ''operator'' = Some (JString ''<'') \<Longrightarrow> evaluate c (JNumber (PosInt m)) = (m < n)"
  using assms
  by (simp_all add: evaluate_by_operator compare_ordered_numeric [OF assms(3)] round_f64_of_nat)

lemma f64_abs_NaN_iff: "f64_abs x = F64_NaN \<longleftrightarrow> x = F64_NaN"
  by (cases x) auto

lemma epsilon_test_total:
  "d \<noteq> F64_NaN \<Longrightarrow> f64_le F64_EPSILON (f64_abs d) \<longleftrightarrow> \<not> f64_lt (f64_abs d) F64_EPSILON"
  by (cases d) (auto simp: F64_EPSILON_def)

definition live_operator :: "string \<Rightarrow> bool" where
  "live_operator op \<longleftrightarrow>
     (\<exists>c a. json_get c ''operator'' = Some (JString op) \<and> evaluate c a)"

lemma live_operatorI: "evaluate (cond_value op v) a \<Longrightarrow> live_operator op"
  unfolding live_operator_def by (metis cond_value_get(1))

lemma live_operators:
  "live_operator ''>''" "live_operator ''>=''" "live_operator ''<''" "live_operator ''<=''"
  "live_operator ''==''" "live_operator ''!=''" "live_operator ''between''"
  "live_operator ''contains''" "live_operator ''always''"
proof -
  let ?n = "\<lambda>x. JNumber (Float x)"
  show "live_operator ''>''"
    by (rule live_operatorI [of _ "?n 0" "?n 1"])
       (simp add: evaluate_by_operator(1) [OF cond_value_get(1)] compare_ordered_numeric)
  show "live_operator ''>=''"
    by (rule live_operatorI [of _ "?n 0" "?n 0"])
       (simp add: evaluate_by_operator(2) [OF cond_value_get(1)] compare_ordered_numeric)
  show "live_operator ''<''"
    by (rule live_operatorI [of _ "?n 1" "?n 0"])
       (simp add: evaluate_by_operator(3) [OF cond_value_get(1)] compare_ordered_numeric)
  show "live_operator ''<=''"
    by (rule live_operatorI [of _ "?n 0" "?n 0"])
       (simp add: evaluate_by_operator(4) [OF cond_value_get(1)] compare_ordered_numeric)
  show "live_operator ''==''"
    by (rule live_operatorI [of _ JNull JNull]) (simp add: evaluate_eq [OF cond_value_get])
  show "live_operator ''!=''"
    by (rule live_operatorI [of _ JNull "JBool True"]) (simp add: evaluate_ne [OF cond_value_get])
  show "live_operator ''contains''"
    by (rule live_operatorI [of _ "JString []" "JString []"]) (simp add: evaluate_contains)
  show "live_operator ''always''"
    by (rule live_operatorI [of _ JNull JNull])
       (simp add: evaluate_by_operator(5) [OF cond_value_get(1)])
  have "evaluate (cond_between (?n 0) (?n 0)) (?n 0)" by (simp add: evaluate_between)
  then show "live_operator ''between''"
    unfolding live_operator_def by (metis cond_between_get(1))
qed

section \<open>Properties\<close>

text \<open>Parsing a trigger type inverts printing it, and only the four printed names parse.\<close>

theorem trigger_type_roundtrip:
  "trigger_type_from_str s = Some t \<longleftrightarrow> s = trigger_type_as_str t"
  by (cases t) (auto simp: trigger_type_from_str_def)

text \<open>
  The operator list the API validates against is exactly the set of operators the
  evaluator can satisfy: an operator is supported if and only if some condition that carries
  it holds of some value. So no accepted operator is dead, and no live one is refused.
\<close>

theorem supported_operators_live:
  "is_supported_operator op \<longleftrightarrow>
     (\<exists>c a. json_get c ''operator'' = Some (JString op) \<and> evaluate c a)"
proof -
  have "list_all live_operator SUPPORTED_OPERATORS"
    by (simp only: SUPPORTED_OPERATORS_def list.pred_inject live_operators simp_thms)
  then have "is_supported_operator op \<Longrightarrow> live_operator op"
    by (simp add: list_all_iff is_supported_operator_def)
  then show ?thesis
    unfolding live_operator_def using evaluate_by_operator(6) by metis
qed

text \<open>
  On the same operand, \<open>!=\<close> is the negation of \<open>==\<close> precisely when the two operands are
  not both numeric with a difference that is not a number. (For numeric text such as \<open>nan\<close>,
  or \<open>inf\<close> against \<open>inf\<close>, both operators are false.)
\<close>

theorem eq_ne_complement:
  "(evaluate (cond_value ''!='' e) a \<longleftrightarrow> \<not> evaluate (cond_value ''=='' e) a) \<longleftrightarrow>
     \<not> (\<exists>x y. json_to_f64 a = Some x \<and> json_to_f64 e = Some y \<and> f64_sub x y = F64_NaN)"
proof (cases "\<exists>x y. json_to_f64 a = Some x \<and> json_to_f64 e = Some y")
  case True
  then obtain x y where xy: "json_to_f64 a = Some x" "json_to_f64 e = Some y" by blast
  show ?thesis
    using xy epsilon_test_total [of "f64_sub x y"]
    by (cases "f64_sub x y = F64_NaN")
       (simp_all add: evaluate_eq [OF cond_value_get] evaluate_ne [OF cond_value_get])
next
  case False
  then show ?thesis
    by (auto simp: evaluate_eq [OF cond_value_get] evaluate_ne [OF cond_value_get]
        split: option.splits)
qed

text \<open>
  \<open>between\<close> is the conjunction of \<open>>=\<close> on its minimum and \<open><=\<close> on its maximum, whenever
  both bounds are numeric and the reported value is numeric; it is never satisfied otherwise.
\<close>

theorem between_is_ge_and_le:
  "evaluate (cond_between mn mx) a \<longleftrightarrow>
     json_to_f64 mn \<noteq> None \<and> json_to_f64 mx \<noteq> None \<and> json_to_f64 a \<noteq> None \<and>
     evaluate (cond_value ''>='' mn) a \<and> evaluate (cond_value ''<='' mx) a"
  unfolding evaluate_between
    evaluate_by_operator(2) [OF cond_value_get(1) refl]
    evaluate_by_operator(4) [OF cond_value_get(1) refl]
  by (auto simp: compare_ordered_numeric split: option.splits)

end
