(* ===== verification/World.thy ===== *)
theory World
  imports Models Api_Error Rule_State Evaluator
begin

text \<open>
  The world the backend acts on, and programs over it. \<open>database\<close> is the PostgreSQL schema of
  \<open>backend/migrations\<close>, a list of rows per table with the next value of each id sequence; SQL
  statements are functions on it. \<open>world\<close> adds the rule cache, the rule state store and logs
  of what left the process (webhook posts, MQTT publishes).

  Every external call (a query, a post, a publish, a clock read) is numbered by \<open>tick\<close>. The
  environment \<open>env\<close>, a parameter of every program, says for each number what the clock shows
  and how the call ends: \<open>Done\<close>, \<open>Refused\<close> (no answer and no effect), \<open>Rejected\<close> (the peer
  answered with an error, no effect) or \<open>Unacked\<close> (the effect happened but the caller sees an
  error, as when a response is lost); database calls and calls
  over HTTP (webhooks, the MQTT broker's API) have their own outcomes. \<open>subscriptions_at\<close> is
  what the broker lists as the subscriptions of the client a call asks about. Theorems quantify over
  the environment, so they hold for every pattern of faults.
\<close>

datatype outcome = Done | Refused | Rejected | Unacked

definition no_effect :: "outcome \<Rightarrow> bool" where
  "no_effect oc \<longleftrightarrow> oc = Refused \<or> oc = Rejected"

record env =
  now_at :: "nat \<Rightarrow> instant"
  outcome_at :: "nat \<Rightarrow> outcome"
  net_outcome_at :: "nat \<Rightarrow> outcome"
  subscriptions_at :: "nat \<Rightarrow> string list"

record publish_request =
  pr_topic :: string
  pr_clientid :: string
  pr_payload :: string
  pr_encoding :: "string option"
  pr_qos :: "nat option"
  pr_retain :: "bool option"

record database =
  alarm_rules :: "alarm_rule list"
  next_rule_id :: int
  alarms :: "alarm_record list"
  next_alarm_id :: int
  property_latests :: "property_latest list"
  property_desireds :: "property_desired list"
  property_histories :: "property_history list"
  next_property_history_id :: int
  event_histories :: "event_history list"
  next_event_history_id :: int
  property_commands :: "property_command list"
  next_property_command_id :: int
  action_invocations :: "action_invocation list"
  next_action_invocation_id :: int
  devices :: "device list"
  next_device_id :: int
  device_statuses :: "device_status list"
  device_status_histories :: "device_status_history list"
  next_device_status_history_id :: int
  event_valid_templates :: "event_valid_template list"
  next_template_id :: int
  products :: "product list"
  next_product_id :: int
  ota_versions :: "ota_version list"
  next_ota_version_id :: int
  device_versions :: "device_version list"
  cert_issues :: "cert_issue list"
  next_cert_issue_id :: int
  factory_devices :: "factory_device_metadata list"
  factory_components :: "factory_component_metadata list"
  factory_associations :: "factory_component_association list"
  factory_change_logs :: "factory_metadata_change_log list"
  next_change_log_id :: int

definition empty_db :: database where
  "empty_db =
     \<lparr>alarm_rules = [], next_rule_id = 1, alarms = [], next_alarm_id = 1,
      property_latests = [], property_desireds = [],
      property_histories = [], next_property_history_id = 1,
      event_histories = [], next_event_history_id = 1,
      property_commands = [], next_property_command_id = 1,
      action_invocations = [], next_action_invocation_id = 1,
      devices = [], next_device_id = 1, device_statuses = [],
      device_status_histories = [], next_device_status_history_id = 1,
      event_valid_templates = [], next_template_id = 1,
      products = [], next_product_id = 1, ota_versions = [], next_ota_version_id = 1,
      device_versions = [], cert_issues = [], next_cert_issue_id = 1,
      factory_devices = [], factory_components = [], factory_associations = [],
      factory_change_logs = [], next_change_log_id = 1\<rparr>"

text \<open>
  What a rule evaluation is about (\<open>rule_engine/actions.rs\<close>), and the work a handler leaves to a
  spawned task: it runs at some later moment, so a handler only records it.
\<close>

record trigger_context =
  ctx_product_id :: string
  ctx_device_id :: string
  ctx_trigger_type :: trigger_type
  ctx_trigger_value :: json

datatype task = EvaluateRules trigger_context | CacheSchema string json

record 's world =
  tick :: nat
  db :: database
  cached_rules :: "string \<rightharpoonup> alarm_rule list"
  state_store :: 's
  schema_cache :: "string \<rightharpoonup> json"
  webhooks_posted :: "(string \<times> json) list"
  published :: "publish_request list"
  spawned :: "task list"

type_synonym ('s, 'e, 'a) io = "env \<Rightarrow> 's world \<Rightarrow> ('e + 'a) \<times> 's world"

section \<open>Programs\<close>

definition ret :: "'a \<Rightarrow> ('s, 'e, 'a) io" where
  "ret x env w = (Inr x, w)"

definition throw :: "'e \<Rightarrow> ('s, 'e, 'a) io" where
  "throw e env w = (Inl e, w)"

text \<open>\<open>m?\<close> followed by the rest of the body.\<close>

definition bindE :: "('s, 'e, 'a) io \<Rightarrow> ('a \<Rightarrow> ('s, 'e, 'b) io) \<Rightarrow> ('s, 'e, 'b) io" where
  "bindE m f env w = (case m env w of (Inl e, w') \<Rightarrow> (Inl e, w') | (Inr x, w') \<Rightarrow> f x env w')"

text \<open>\<open>match m { Ok(x) => f x, Err(e) => h e }\<close>.\<close>

definition matchE ::
  "('s, 'e, 'a) io \<Rightarrow> ('a \<Rightarrow> ('s, 'd, 'b) io) \<Rightarrow> ('e \<Rightarrow> ('s, 'd, 'b) io) \<Rightarrow> ('s, 'd, 'b) io" where
  "matchE m f h env w = (case m env w of (Inl e, w') \<Rightarrow> h e env w' | (Inr x, w') \<Rightarrow> f x env w')"

definition map_err :: "('e \<Rightarrow> 'd) \<Rightarrow> ('s, 'e, 'a) io \<Rightarrow> ('s, 'd, 'a) io" where
  "map_err g m = matchE m ret (\<lambda>e. throw (g e))"

text \<open>\<open>let _ = m\<close> and \<open>if let Err(e) = m { log }\<close>: the result is dropped.\<close>

definition ignoreE :: "('s, 'e, 'a) io \<Rightarrow> ('s, 'd, unit) io" where
  "ignoreE m = matchE m (\<lambda>_. ret ()) (\<lambda>_. ret ())"

definition ok_or :: "'e \<Rightarrow> 'a option \<Rightarrow> ('s, 'e, 'a) io" where
  "ok_or e x = (case x of None \<Rightarrow> throw e | Some y \<Rightarrow> ret y)"

definition lift_res :: "'e + 'a \<Rightarrow> ('s, 'e, 'a) io" where
  "lift_res r = (case r of Inl e \<Rightarrow> throw e | Inr x \<Rightarrow> ret x)"

fun forE :: "'a list \<Rightarrow> ('a \<Rightarrow> ('s, 'e, unit) io) \<Rightarrow> ('s, 'e, unit) io" where
  "forE [] f = ret ()"
| "forE (x # xs) f = bindE (f x) (\<lambda>_. forE xs f)"

section \<open>External calls\<close>

definition now_utc :: "('s, 'e, instant) io" where
  "now_utc env w = (Inr (now_at env (tick w)), w\<lparr>tick := Suc (tick w)\<rparr>)"

definition ext_call ::
  "(env \<Rightarrow> nat \<Rightarrow> outcome) \<Rightarrow> (instant \<Rightarrow> 's world \<Rightarrow> 'a \<times> 's world) \<Rightarrow> ('s, io_error, 'a) io" where
  "ext_call outcome f env w =
     (let n = tick w; w1 = w\<lparr>tick := Suc n\<rparr>
      in case outcome env n of
           Refused \<Rightarrow> (Inl CallFailed, w1)
         | Rejected \<Rightarrow> (Inl CallFailed, w1)
         | Unacked \<Rightarrow> (Inl CallFailed, snd (f (now_at env n) w1))
         | Done \<Rightarrow> (case f (now_at env n) w1 of (x, w2) \<Rightarrow> (Inr x, w2)))"

text \<open>One call over HTTP.\<close>

definition net_call :: "(instant \<Rightarrow> 's world \<Rightarrow> 'a \<times> 's world) \<Rightarrow> ('s, io_error, 'a) io" where
  "net_call f = ext_call net_outcome_at f"

text \<open>One SQL statement, or one transaction, run against the database.\<close>

definition db_exec :: "(instant \<Rightarrow> database \<Rightarrow> 'a \<times> database) \<Rightarrow> ('s, io_error, 'a) io" where
  "db_exec q = ext_call outcome_at (\<lambda>now w. case q now (db w) of (x, d) \<Rightarrow> (x, w\<lparr>db := d\<rparr>))"

definition db_query :: "(instant \<Rightarrow> database \<Rightarrow> 'a) \<Rightarrow> ('s, io_error, 'a) io" where
  "db_query q = db_exec (\<lambda>now d. (q now d, d))"

definition all_done :: env where
  "all_done = \<lparr>now_at = (\<lambda>n. 0), outcome_at = (\<lambda>n. Done), net_outcome_at = (\<lambda>n. Done),
     subscriptions_at = (\<lambda>n. [])\<rparr>"

definition empty_world :: "unit world" where
  "empty_world = \<lparr>tick = 0, db = empty_db, cached_rules = (\<lambda>_. None), state_store = (),
     schema_cache = (\<lambda>_. None), webhooks_posted = [], published = [], spawned = []\<rparr>"

section \<open>Arithmetic on 64 bits\<close>

text \<open>Arithmetic on \<open>i64\<close> as in a release build: results are taken modulo \<open>2 ^ 64\<close>.\<close>

definition wrap_i64 :: "int \<Rightarrow> int" where
  "wrap_i64 x = sint (word_of_int x :: 64 word)"

lemma wrap_i64_id: "i64_min \<le> x \<Longrightarrow> x \<le> i64_max \<Longrightarrow> wrap_i64 x = x"
  unfolding wrap_i64_def i64_min_def i64_max_def by (simp add: sint_sbintrunc' signed_take_bit_int_eq_self)

section \<open>Pages of a table\<close>

text \<open>
  \<open>LIMIT page_size OFFSET (page - 1) * page_size\<close>. The offset is an \<open>i64\<close> and wraps, as in a
  release build. PostgreSQL rejects a negative limit or offset, so the query fails.
\<close>

definition paginate :: "int \<Rightarrow> int \<Rightarrow> 'r list \<Rightarrow> 'r list option" where
  "paginate page page_size rows =
     (let offset = wrap_i64 ((page - 1) * page_size)
      in if page_size < 0 \<or> offset < 0 then None
         else Some (take (nat page_size) (drop (nat offset) rows)))"

definition query_page :: "(database \<Rightarrow> 'r list) \<Rightarrow> int \<Rightarrow> int \<Rightarrow> ('s, io_error, 'r list) io" where
  "query_page rows page page_size =
     bindE (db_query (\<lambda>now d. paginate page page_size (rows d))) (\<lambda>r. ok_or CallFailed r)"

definition query_count :: "(database \<Rightarrow> 'r list) \<Rightarrow> ('s, io_error, int) io" where
  "query_count rows = db_query (\<lambda>now d. int (length (rows d)))"

text \<open>\<open>AND column = value\<close> for an optional argument.\<close>

definition opt_eq :: "'a option \<Rightarrow> 'a \<Rightarrow> bool" where
  "opt_eq x y \<longleftrightarrow> (case x of None \<Rightarrow> True | Some z \<Rightarrow> y = z)"

definition spawn :: "task \<Rightarrow> ('s, 'e, unit) io" where
  "spawn t env w = (Inr (), w\<lparr>spawned := spawned w @ [t]\<rparr>)"

section \<open>Running programs\<close>

lemmas prog_defs [prog_simps] =
  ret_def throw_def bindE_def matchE_def map_err_def ignoreE_def ok_or_def lift_res_def

text \<open>
  A program writes the database only by steps of \<open>R\<close>, whatever the environment does: between
  any two of its external calls the database moves along \<open>R\<close>. Such a program keeps every
  invariant of \<open>R\<close> and every relation \<open>R\<close> preserves.
\<close>

definition steps_by :: "(database \<Rightarrow> database \<Rightarrow> bool) \<Rightarrow> ('s, 'e, 'a) io \<Rightarrow> bool" where
  "steps_by R m \<longleftrightarrow> (\<forall>env w. R\<^sup>*\<^sup>* (db w) (db (snd (m env w))))"

named_theorems steps_intros \<open>a program writes the database by steps if its parts do\<close>

lemma steps_byD: "steps_by R m \<Longrightarrow> m env w = (r, w') \<Longrightarrow> R\<^sup>*\<^sup>* (db w) (db w')"
  unfolding steps_by_def by (metis snd_conv)

lemma steps_ret [steps_intros]: "steps_by R (ret x)"
  by (simp add: steps_by_def ret_def)

lemma steps_throw [steps_intros]: "steps_by R (throw e)"
  by (simp add: steps_by_def throw_def)

lemma steps_matchE [steps_intros]:
  assumes "steps_by R m" "\<And>x. steps_by R (f x)" "\<And>e. steps_by R (h e)"
  shows "steps_by R (matchE m f h)"
  unfolding steps_by_def
proof (intro allI)
  fix env w
  obtain r w' where m: "m env w = (r, w')" by (cases "m env w")
  have "R\<^sup>*\<^sup>* (db w) (db w')" using assms(1) m by (rule steps_byD)
  moreover have "R\<^sup>*\<^sup>* (db w') (db (snd (matchE m f h env w)))"
    using assms(2,3) m by (cases r) (simp_all add: matchE_def steps_by_def)
  ultimately show "R\<^sup>*\<^sup>* (db w) (db (snd (matchE m f h env w)))" by (rule rtranclp_trans)
qed

lemma bindE_matchE: "bindE m f = matchE m f throw"
  by (intro ext) (auto simp: bindE_def matchE_def throw_def split: prod.split sum.split)

lemma steps_bindE [steps_intros]:
  "steps_by R m \<Longrightarrow> (\<And>x. steps_by R (f x)) \<Longrightarrow> steps_by R (bindE m f)"
  unfolding bindE_matchE by (intro steps_intros)

lemma steps_map_err [steps_intros]: "steps_by R m \<Longrightarrow> steps_by R (map_err g m)"
  unfolding map_err_def by (intro steps_intros)

lemma steps_ignoreE [steps_intros]: "steps_by R m \<Longrightarrow> steps_by R (ignoreE m)"
  unfolding ignoreE_def by (intro steps_intros)

lemma steps_ok_or [steps_intros]: "steps_by R (ok_or e x)"
  by (simp add: ok_or_def steps_intros split: option.split)

lemma steps_lift_res [steps_intros]: "steps_by R (lift_res r)"
  by (simp add: lift_res_def steps_intros split: sum.split)

lemma steps_now_utc [steps_intros]: "steps_by R now_utc"
  by (simp add: steps_by_def now_utc_def)

lemma steps_forE [steps_intros]:
  "(\<And>x. x \<in> set xs \<Longrightarrow> steps_by R (f x)) \<Longrightarrow> steps_by R (forE xs f)"
  by (induction xs) (auto intro!: steps_intros)

lemma steps_if [steps_intros]:
  "(b \<Longrightarrow> steps_by R m) \<Longrightarrow> (\<not> b \<Longrightarrow> steps_by R n) \<Longrightarrow> steps_by R (if b then m else n)"
  by simp

lemma steps_case_option [steps_intros]:
  "(x = None \<Longrightarrow> steps_by R m) \<Longrightarrow> (\<And>y. x = Some y \<Longrightarrow> steps_by R (f y)) \<Longrightarrow>
   steps_by R (case x of None \<Rightarrow> m | Some y \<Rightarrow> f y)"
  by (cases x) auto

lemma steps_case_prod [steps_intros]:
  "(\<And>a b. p = (a, b) \<Longrightarrow> steps_by R (f a b)) \<Longrightarrow> steps_by R (case p of (a, b) \<Rightarrow> f a b)"
  by (cases p) auto

lemma steps_Let [steps_intros]: "steps_by R (f x) \<Longrightarrow> steps_by R (Let x f)"
  by simp

lemma steps_ext_call:
  fixes f :: "instant \<Rightarrow> 's world \<Rightarrow> 'a \<times> 's world"
  assumes "\<And>now w. R\<^sup>*\<^sup>* (db w) (db (snd (f now w)))"
  shows "steps_by R (ext_call outcome f)"
proof -
  have "R\<^sup>*\<^sup>* (db w) (db (snd (f now (w\<lparr>tick := n\<rparr>))))" for now n and w :: "'s world"
    using assms [of "w\<lparr>tick := n\<rparr>" now] by simp
  then show ?thesis
    by (simp add: steps_by_def ext_call_def Let_def case_prod_beta split: outcome.split)
qed

lemma steps_db_exec:
  assumes "\<And>now d. R\<^sup>*\<^sup>* d (snd (q now d))"
  shows "steps_by R (db_exec q)"
  unfolding db_exec_def using assms by (intro steps_ext_call) (simp add: case_prod_beta)

lemma steps_db_query [steps_intros]: "steps_by R (db_query q)"
  unfolding db_query_def by (rule steps_db_exec) simp

lemma steps_query_page [steps_intros]: "steps_by R (query_page rows page page_size)"
  unfolding query_page_def by (intro steps_intros)

lemma steps_query_count [steps_intros]: "steps_by R (query_count rows)"
  unfolding query_count_def by (intro steps_intros)

lemma steps_spawn [steps_intros]: "steps_by R (spawn t)"
  by (simp add: steps_by_def spawn_def)

text \<open>Calls that touch the state store or the logs leave the database alone.\<close>

definition store_call :: "('s \<Rightarrow> 'a \<times> 's) \<Rightarrow> ('s, 'e, 'a) io" where
  "store_call f env w = (case f (state_store w) of (x, s) \<Rightarrow> (Inr x, w\<lparr>state_store := s\<rparr>))"

lemma steps_store_call [steps_intros]: "steps_by R (store_call f)"
  by (simp add: steps_by_def store_call_def split: prod.split)

end
