(* ===== verification/Alarm_Repo.thy ===== *)
theory Alarm_Repo
  imports World
begin

text \<open>
  \<open>backend/src/db/alarm.rs\<close>: the alarm rule and alarm tables. Each repository method is a
  program that runs one SQL statement; the statement itself is the function ending in \<open>_sql\<close>,
  so that statements can be interleaved freely in a step relation. The second half states the
  life cycle of an alarm row and shows that every statement that writes the table follows it.
\<close>

record alarm_repo =
  webhook_max_retries :: int
  webhook_retry_interval_seconds :: int

record create_alarm_rule_request =
  cr_product_id :: string
  cr_name :: string
  cr_description :: "string option"
  cr_trigger_type :: string
  cr_trigger_config :: json
  cr_condition :: json
  cr_actions :: json
  cr_throttle_minutes :: int
  cr_duration_minutes :: int
  cr_clear_condition :: "json option"

section \<open>Rules\<close>

definition create_rule_sql ::
  "create_alarm_rule_request \<Rightarrow> instant \<Rightarrow> database \<Rightarrow> int \<times> database" where
  "create_rule_sql req now d =
     (let i = next_rule_id d;
          row = \<lparr>ar_id = i, ar_product_id = cr_product_id req, ar_name = cr_name req,
                 ar_description = cr_description req, ar_trigger_type = cr_trigger_type req,
                 ar_trigger_config = cr_trigger_config req, ar_condition = cr_condition req,
                 ar_actions = cr_actions req, ar_enabled = True,
                 ar_throttle_minutes = cr_throttle_minutes req,
                 ar_duration_minutes = cr_duration_minutes req,
                 ar_clear_condition = cr_clear_condition req,
                 ar_created_at = now, ar_updated_at = now\<rparr>
      in (i, d\<lparr>alarm_rules := alarm_rules d @ [row], next_rule_id := i + 1\<rparr>))"

definition create_rule :: "create_alarm_rule_request \<Rightarrow> ('s, io_error, int) io" where
  "create_rule req = db_exec (create_rule_sql req)"

definition get_rule_by_id :: "int \<Rightarrow> ('s, io_error, alarm_rule option) io" where
  "get_rule_by_id i = db_query (\<lambda>now d. find (\<lambda>r. ar_id r = i) (alarm_rules d))"

text \<open>The \<open>SET\<close> clause: \<open>updated_at\<close> and the columns whose argument is given.\<close>

definition set_rule_fields ::
  "string option \<Rightarrow> string option \<Rightarrow> json option \<Rightarrow> json option \<Rightarrow> json option \<Rightarrow>
   int option \<Rightarrow> int option \<Rightarrow> json option option \<Rightarrow> instant \<Rightarrow> alarm_rule \<Rightarrow> alarm_rule" where
  "set_rule_fields name description trigger_config condition actions throttle duration clear now r =
     (let r = r\<lparr>ar_updated_at := now\<rparr>;
          r = (case name of None \<Rightarrow> r | Some v \<Rightarrow> r\<lparr>ar_name := v\<rparr>);
          r = (if description \<noteq> None then r\<lparr>ar_description := description\<rparr> else r);
          r = (case trigger_config of None \<Rightarrow> r | Some v \<Rightarrow> r\<lparr>ar_trigger_config := v\<rparr>);
          r = (case condition of None \<Rightarrow> r | Some v \<Rightarrow> r\<lparr>ar_condition := v\<rparr>);
          r = (case actions of None \<Rightarrow> r | Some v \<Rightarrow> r\<lparr>ar_actions := v\<rparr>);
          r = (case throttle of None \<Rightarrow> r | Some v \<Rightarrow> r\<lparr>ar_throttle_minutes := v\<rparr>);
          r = (case duration of None \<Rightarrow> r | Some v \<Rightarrow> r\<lparr>ar_duration_minutes := v\<rparr>)
      in case clear of None \<Rightarrow> r | Some v \<Rightarrow> r\<lparr>ar_clear_condition := v\<rparr>)"

definition update_rule_sql ::
  "int \<Rightarrow> string option \<Rightarrow> string option \<Rightarrow> json option \<Rightarrow> json option \<Rightarrow> json option \<Rightarrow>
   int option \<Rightarrow> int option \<Rightarrow> json option option \<Rightarrow> instant \<Rightarrow> database \<Rightarrow> nat \<times> database" where
  "update_rule_sql i name description trigger_config condition actions throttle duration clear now d =
     (count_where (\<lambda>r. ar_id r = i) (alarm_rules d),
      d\<lparr>alarm_rules := update_where (\<lambda>r. ar_id r = i)
         (set_rule_fields name description trigger_config condition actions throttle duration clear now)
         (alarm_rules d)\<rparr>)"

lemma set_rule_fields_keep:
  "ar_id (set_rule_fields nm ds tc c a t du cl now r) = ar_id r"
  "ar_product_id (set_rule_fields nm ds tc c a t du cl now r) = ar_product_id r"
  by (simp_all add: set_rule_fields_def Let_def split: option.split)

definition update_rule ::
  "int \<Rightarrow> string option \<Rightarrow> string option \<Rightarrow> json option \<Rightarrow> json option \<Rightarrow> json option \<Rightarrow>
   int option \<Rightarrow> int option \<Rightarrow> json option option \<Rightarrow> ('s, io_error, nat) io" where
  "update_rule i name description trigger_config condition actions throttle duration clear =
     db_exec (update_rule_sql i name description trigger_config condition actions throttle duration clear)"

definition update_rule_status :: "int \<Rightarrow> bool \<Rightarrow> ('s, io_error, nat) io" where
  "update_rule_status i enabled =
     db_exec (\<lambda>now d.
       let P = (\<lambda>r. ar_id r = i)
       in (count_where P (alarm_rules d),
           d\<lparr>alarm_rules := update_where P (\<lambda>r. r\<lparr>ar_enabled := enabled, ar_updated_at := now\<rparr>)
                              (alarm_rules d)\<rparr>))"

definition delete_rule :: "int \<Rightarrow> ('s, io_error, nat) io" where
  "delete_rule i =
     db_exec (\<lambda>now d.
       (count_where (\<lambda>r. ar_id r = i) (alarm_rules d),
        d\<lparr>alarm_rules := filter (\<lambda>r. ar_id r \<noteq> i) (alarm_rules d)\<rparr>))"

definition rule_filter :: "string option \<Rightarrow> bool option \<Rightarrow> alarm_rule \<Rightarrow> bool" where
  "rule_filter product_id enabled r \<longleftrightarrow>
     (case product_id of None \<Rightarrow> True | Some p \<Rightarrow> ar_product_id r = p) \<and>
     (case enabled of None \<Rightarrow> True | Some b \<Rightarrow> ar_enabled r = b)"

text \<open>\<open>ORDER BY updated_at DESC\<close>: a sort on the negated instant, ties in table order.\<close>

definition query_rules ::
  "string option \<Rightarrow> bool option \<Rightarrow> int \<Rightarrow> int \<Rightarrow> ('s, io_error, alarm_rule list \<times> int) io" where
  "query_rules product_id enabled page page_size =
     bindE (db_query (\<lambda>now d. paginate page page_size
              (sort_key (\<lambda>r. - ar_updated_at r)
                (filter (rule_filter product_id enabled) (alarm_rules d))))) (\<lambda>rules.
     bindE (ok_or CallFailed rules) (\<lambda>rules.
     bindE (db_query (\<lambda>now d. int (count_where (rule_filter product_id enabled) (alarm_rules d))))
       (\<lambda>total. ret (rules, total))))"

definition enabled_rules :: "string \<Rightarrow> database \<Rightarrow> alarm_rule list" where
  "enabled_rules product_id d =
     sort_key ar_id (filter (\<lambda>r. ar_product_id r = product_id \<and> ar_enabled r) (alarm_rules d))"

definition query_enabled_rules_by_product :: "string \<Rightarrow> ('s, io_error, alarm_rule list) io" where
  "query_enabled_rules_by_product product_id = db_query (\<lambda>now d. enabled_rules product_id d)"

definition get_rule_actions :: "int \<Rightarrow> ('s, io_error, json option) io" where
  "get_rule_actions rule_id =
     db_query (\<lambda>now d. map_option ar_actions (find (\<lambda>r. ar_id r = rule_id) (alarm_rules d)))"

section \<open>Alarms\<close>

definition insert_alarm_sql ::
  "int \<Rightarrow> string \<Rightarrow> string \<Rightarrow> string \<Rightarrow> int \<Rightarrow> string option \<Rightarrow> json option \<Rightarrow> string \<Rightarrow>
   instant \<Rightarrow> database \<Rightarrow> int \<times> database" where
  "insert_alarm_sql rule_id rule_name product_id device_id level msg trigger_value trigger_type now d =
     (let i = next_alarm_id d;
          row = \<lparr>al_id = i, al_rule_id = rule_id, al_rule_name = rule_name,
                 al_product_id = product_id, al_device_id = device_id, al_level = level,
                 al_message = msg, al_trigger_value = trigger_value, al_acknowledged = False,
                 al_status = ''active'', al_webhook_status = None, al_trigger_type = trigger_type,
                 al_webhook_retries_left = 0, al_webhook_next_retry_at = None,
                 al_created_at = now, al_cleared_at = None\<rparr>
      in (i, d\<lparr>alarms := alarms d @ [row], next_alarm_id := i + 1\<rparr>))"

definition insert_alarm ::
  "int \<Rightarrow> string \<Rightarrow> string \<Rightarrow> string \<Rightarrow> int \<Rightarrow> string option \<Rightarrow> json option \<Rightarrow> string \<Rightarrow>
   ('s, io_error, int) io" where
  "insert_alarm rule_id rule_name product_id device_id level msg trigger_value trigger_type =
     db_exec (insert_alarm_sql rule_id rule_name product_id device_id level msg trigger_value trigger_type)"

text \<open>An \<open>UPDATE alarm SET ... WHERE ...\<close>; the result is the number of rows it changed.\<close>

definition update_alarms ::
  "(alarm_record \<Rightarrow> bool) \<Rightarrow> (alarm_record \<Rightarrow> alarm_record) \<Rightarrow> database \<Rightarrow> nat \<times> database" where
  "update_alarms P f d =
     (count_where P (alarms d), d\<lparr>alarms := update_where P f (alarms d)\<rparr>)"

definition update_alarm_webhook_status_sql ::
  "int \<Rightarrow> int \<Rightarrow> instant \<Rightarrow> database \<Rightarrow> nat \<times> database" where
  "update_alarm_webhook_status_sql i ws now =
     update_alarms (\<lambda>a. al_id a = i) (\<lambda>a. a\<lparr>al_webhook_status := Some ws\<rparr>)"

definition update_alarm_webhook_status :: "int \<Rightarrow> int \<Rightarrow> ('s, io_error, unit) io" where
  "update_alarm_webhook_status i ws =
     bindE (db_exec (update_alarm_webhook_status_sql i ws)) (\<lambda>_. ret ())"

definition alarm_filter ::
  "string option \<Rightarrow> string option \<Rightarrow> int option \<Rightarrow> bool option \<Rightarrow> string option \<Rightarrow>
   alarm_record \<Rightarrow> bool" where
  "alarm_filter product_id device_id level acknowledged st a \<longleftrightarrow>
     (case product_id of None \<Rightarrow> True | Some p \<Rightarrow> al_product_id a = p) \<and>
     (case device_id of None \<Rightarrow> True | Some v \<Rightarrow> al_device_id a = v) \<and>
     (case level of None \<Rightarrow> True | Some l \<Rightarrow> al_level a = l) \<and>
     (case st of
        Some v \<Rightarrow> al_status a = v
      | None \<Rightarrow> (case acknowledged of
                   None \<Rightarrow> True
                 | Some True \<Rightarrow> al_status a \<noteq> ''active''
                 | Some False \<Rightarrow> al_status a = ''active''))"

definition query_alarms ::
  "string option \<Rightarrow> string option \<Rightarrow> int option \<Rightarrow> bool option \<Rightarrow> string option \<Rightarrow> int \<Rightarrow> int \<Rightarrow>
   ('s, io_error, alarm_record list \<times> int) io" where
  "query_alarms product_id device_id level acknowledged st page page_size =
     (let P = alarm_filter product_id device_id level acknowledged st
      in bindE (db_query (\<lambda>now d. paginate page page_size
                (sort_key (\<lambda>a. - al_created_at a) (filter P (alarms d))))) (\<lambda>rows.
         bindE (ok_or CallFailed rows) (\<lambda>rows.
         bindE (db_query (\<lambda>now d. int (count_where P (alarms d)))) (\<lambda>total.
         ret (rows, total)))))"

definition get_alarm_by_id :: "int \<Rightarrow> ('s, io_error, alarm_record option) io" where
  "get_alarm_by_id i = db_query (\<lambda>now d. find (\<lambda>a. al_id a = i) (alarms d))"

definition ack_alarm_sql :: "int \<Rightarrow> instant \<Rightarrow> database \<Rightarrow> nat \<times> database" where
  "ack_alarm_sql i now =
     update_alarms (\<lambda>a. al_id a = i \<and> al_status a = ''active'')
       (\<lambda>a. a\<lparr>al_acknowledged := True, al_status := ''acknowledged''\<rparr>)"

definition ack_alarm :: "int \<Rightarrow> ('s, io_error, nat) io" where
  "ack_alarm i = db_exec (ack_alarm_sql i)"

definition active_alarms_for_clear :: "int \<Rightarrow> string \<Rightarrow> database \<Rightarrow> alarm_record list" where
  "active_alarms_for_clear rule_id device_id d =
     filter (\<lambda>a. al_rule_id a = rule_id \<and> al_device_id a = device_id \<and>
                 (al_status a = ''active'' \<or> al_status a = ''acknowledged'')) (alarms d)"

definition query_active_alarms_for_clear ::
  "int \<Rightarrow> string \<Rightarrow> ('s, io_error, alarm_record list) io" where
  "query_active_alarms_for_clear rule_id device_id =
     db_query (\<lambda>now d. active_alarms_for_clear rule_id device_id d)"

definition clear_alarm_sql :: "int \<Rightarrow> instant \<Rightarrow> database \<Rightarrow> nat \<times> database" where
  "clear_alarm_sql i now =
     update_alarms (\<lambda>a. al_id a = i \<and> al_status a \<noteq> ''cleared'')
       (\<lambda>a. a\<lparr>al_status := ''cleared'', al_cleared_at := Some now, al_acknowledged := True\<rparr>)"

definition clear_alarm :: "int \<Rightarrow> ('s, io_error, nat) io" where
  "clear_alarm i = db_exec (clear_alarm_sql i)"

section \<open>Webhook retries\<close>

definition retry_due :: "instant \<Rightarrow> alarm_record \<Rightarrow> bool" where
  "retry_due now a \<longleftrightarrow>
     al_webhook_status a = Some 1 \<and> 0 < al_webhook_retries_left a \<and>
     (case al_webhook_next_retry_at a of None \<Rightarrow> False | Some t \<Rightarrow> t \<le> now)"

definition query_pending_retries :: "('s, io_error, alarm_record list) io" where
  "query_pending_retries = db_query (\<lambda>now d. filter (retry_due now) (alarms d))"

definition decrement_retry_sql ::
  "int \<Rightarrow> int \<Rightarrow> instant \<Rightarrow> database \<Rightarrow> int option \<times> database" where
  "decrement_retry_sql interval i now d =
     (let P = (\<lambda>a. al_id a = i \<and> 0 < al_webhook_retries_left a);
          f = (\<lambda>a. a\<lparr>al_webhook_retries_left := al_webhook_retries_left a - 1,
                     al_webhook_next_retry_at := Some (now + interval * ns_per_sec)\<rparr>)
      in (map_option (\<lambda>a. al_webhook_retries_left (f a)) (find P (alarms d)),
          d\<lparr>alarms := update_where P f (alarms d)\<rparr>))"

definition decrement_retry_and_schedule_next ::
  "alarm_repo \<Rightarrow> int \<Rightarrow> ('s, io_error, int option) io" where
  "decrement_retry_and_schedule_next repo i =
     db_exec (decrement_retry_sql (webhook_retry_interval_seconds repo) i)"

definition mark_webhook_final_failure_sql :: "int \<Rightarrow> instant \<Rightarrow> database \<Rightarrow> nat \<times> database" where
  "mark_webhook_final_failure_sql i now =
     update_alarms (\<lambda>a. al_id a = i)
       (\<lambda>a. a\<lparr>al_webhook_status := Some 2, al_webhook_retries_left := 0,
              al_webhook_next_retry_at := None\<rparr>)"

definition mark_webhook_final_failure :: "int \<Rightarrow> ('s, io_error, unit) io" where
  "mark_webhook_final_failure i =
     bindE (db_exec (mark_webhook_final_failure_sql i)) (\<lambda>_. ret ())"

definition mark_webhook_success_sql :: "int \<Rightarrow> instant \<Rightarrow> database \<Rightarrow> nat \<times> database" where
  "mark_webhook_success_sql i now =
     update_alarms (\<lambda>a. al_id a = i)
       (\<lambda>a. a\<lparr>al_webhook_status := Some 0, al_webhook_retries_left := 0,
              al_webhook_next_retry_at := None\<rparr>)"

definition mark_webhook_success :: "int \<Rightarrow> ('s, io_error, unit) io" where
  "mark_webhook_success i = bindE (db_exec (mark_webhook_success_sql i)) (\<lambda>_. ret ())"

definition update_alarm_webhook_status_with_retry_sql ::
  "int \<Rightarrow> int \<Rightarrow> int \<Rightarrow> instant option \<Rightarrow> instant \<Rightarrow> database \<Rightarrow> nat \<times> database" where
  "update_alarm_webhook_status_with_retry_sql i ws retries_left next_retry_at now =
     update_alarms (\<lambda>a. al_id a = i)
       (\<lambda>a. a\<lparr>al_webhook_status := Some ws, al_webhook_retries_left := retries_left,
              al_webhook_next_retry_at := next_retry_at\<rparr>)"

definition update_alarm_webhook_status_with_retry ::
  "int \<Rightarrow> int \<Rightarrow> int \<Rightarrow> instant option \<Rightarrow> ('s, io_error, unit) io" where
  "update_alarm_webhook_status_with_retry i ws retries_left next_retry_at =
     bindE (db_exec (update_alarm_webhook_status_with_retry_sql i ws retries_left next_retry_at))
       (\<lambda>_. ret ())"

section \<open>The life cycle of an alarm\<close>

text \<open>
  Every statement of the backend that writes the \<open>alarm\<close> table, as one step, in any order and
  from any number of concurrent tasks. \<open>update_alarm_webhook_status\<close> is only called with
  status 0 and \<open>update_alarm_webhook_status_with_retry\<close> only with status 1 and the configured
  number of retries (\<open>rule_engine/actions.rs\<close>).
\<close>

inductive alarm_step :: "alarm_repo \<Rightarrow> database \<Rightarrow> database \<Rightarrow> bool" for repo where
  step_insert: "alarm_step repo d (snd (insert_alarm_sql ri rn p dv l m tv tt now d))"
| step_ws_success: "alarm_step repo d (snd (update_alarm_webhook_status_sql i 0 now d))"
| step_ws_retry: "alarm_step repo d (snd (update_alarm_webhook_status_with_retry_sql i 1
      (webhook_max_retries repo) nxt now d))"
| step_ack: "alarm_step repo d (snd (ack_alarm_sql i now d))"
| step_clear: "alarm_step repo d (snd (clear_alarm_sql i now d))"
| step_decrement: "alarm_step repo d
      (snd (decrement_retry_sql (webhook_retry_interval_seconds repo) i now d))"
| step_final: "alarm_step repo d (snd (mark_webhook_final_failure_sql i now d))"
| step_success: "alarm_step repo d (snd (mark_webhook_success_sql i now d))"

definition wf_alarm :: "alarm_repo \<Rightarrow> alarm_record \<Rightarrow> bool" where
  "wf_alarm repo a \<longleftrightarrow>
     al_status a \<in> {''active'', ''acknowledged'', ''cleared''} \<and>
     (al_acknowledged a \<longleftrightarrow> al_status a \<noteq> ''active'') \<and>
     (al_cleared_at a = None \<longleftrightarrow> al_status a \<noteq> ''cleared'') \<and>
     al_webhook_status a \<in> {None, Some 0, Some 1, Some 2} \<and>
     0 \<le> al_webhook_retries_left a \<and> al_webhook_retries_left a \<le> webhook_max_retries repo"

definition wf_alarms :: "alarm_repo \<Rightarrow> database \<Rightarrow> bool" where
  "wf_alarms repo d \<longleftrightarrow>
     (\<forall>a\<in>set (alarms d). wf_alarm repo a \<and> al_id a < next_alarm_id d) \<and>
     distinct (map al_id (alarms d))"

definition status_rank :: "string \<Rightarrow> nat" where
  "status_rank s = (if s = ''active'' then 0 else if s = ''acknowledged'' then 1 else 2)"

text \<open>How a row may change: its identity stays, its status only advances, and a cleared row
  keeps its status and the time it was cleared.\<close>

definition alarm_advances :: "alarm_record \<Rightarrow> alarm_record \<Rightarrow> bool" where
  "alarm_advances a b \<longleftrightarrow>
     al_id b = al_id a \<and> al_rule_id b = al_rule_id a \<and> al_rule_name b = al_rule_name a \<and>
     al_product_id b = al_product_id a \<and> al_device_id b = al_device_id a \<and>
     al_level b = al_level a \<and> al_message b = al_message a \<and>
     al_trigger_value b = al_trigger_value a \<and> al_trigger_type b = al_trigger_type a \<and>
     al_created_at b = al_created_at a \<and>
     status_rank (al_status a) \<le> status_rank (al_status b) \<and>
     (al_status a = ''cleared'' \<longrightarrow> al_status b = ''cleared'' \<and> al_cleared_at b = al_cleared_at a)"

lemmas alarm_sql_defs =
  update_alarm_webhook_status_sql_def update_alarm_webhook_status_with_retry_sql_def
  ack_alarm_sql_def clear_alarm_sql_def mark_webhook_final_failure_sql_def
  mark_webhook_success_sql_def

text \<open>Every step but the insert is an \<open>UPDATE\<close> whose row function keeps the row well formed
  and advances it.\<close>

definition alarm_update :: "alarm_repo \<Rightarrow> database \<Rightarrow> database \<Rightarrow> bool" where
  "alarm_update repo d d' \<longleftrightarrow>
     (\<exists>P f. d' = d\<lparr>alarms := update_where P f (alarms d)\<rparr> \<and>
       (\<forall>a. P a \<longrightarrow> alarm_advances a (f a) \<and> (wf_alarm repo a \<longrightarrow> wf_alarm repo (f a))))"

lemma alarm_updateI:
  assumes "\<And>a. P a \<Longrightarrow> alarm_advances a (f a)"
    and "\<And>a. P a \<Longrightarrow> wf_alarm repo a \<Longrightarrow> wf_alarm repo (f a)"
  shows "alarm_update repo d (snd (update_alarms P f d))"
  using assms unfolding alarm_update_def update_alarms_def by auto

lemma decrement_as_update:
  "snd (decrement_retry_sql iv i now d) =
     snd (update_alarms (\<lambda>a. al_id a = i \<and> 0 < al_webhook_retries_left a)
       (\<lambda>a. a\<lparr>al_webhook_retries_left := al_webhook_retries_left a - 1,
              al_webhook_next_retry_at := Some (now + iv * ns_per_sec)\<rparr>) d)"
  by (simp add: decrement_retry_sql_def update_alarms_def Let_def)

lemma alarm_step_update:
  assumes "alarm_step repo d d'" and "0 \<le> webhook_max_retries repo"
  shows "(\<exists>ri rn p dv l m tv tt now. d' = snd (insert_alarm_sql ri rn p dv l m tv tt now d)) \<or>
    alarm_update repo d d'"
  using assms(1)
proof cases
  case step_insert
  then show ?thesis by blast
next
  case step_decrement
  then show ?thesis unfolding decrement_as_update
    by (auto intro!: disjI2 alarm_updateI simp: wf_alarm_def alarm_advances_def)
qed (use assms(2) in \<open>auto simp: alarm_sql_defs wf_alarm_def alarm_advances_def status_rank_def
      intro!: alarm_updateI\<close>)

lemma wf_alarms_insert:
  "0 \<le> webhook_max_retries repo \<Longrightarrow> wf_alarms repo d \<Longrightarrow>
   wf_alarms repo (snd (insert_alarm_sql ri rn p dv l m tv tt now d))"
  by (fastforce simp: wf_alarms_def insert_alarm_sql_def Let_def wf_alarm_def)

lemma wf_alarms_update:
  assumes "wf_alarms repo d"
    and "\<And>a. P a \<Longrightarrow> wf_alarm repo a \<Longrightarrow> wf_alarm repo (f a)"
    and "\<And>a. P a \<Longrightarrow> al_id (f a) = al_id a"
  shows "wf_alarms repo (d\<lparr>alarms := update_where P f (alarms d)\<rparr>)"
  using assms by (auto simp: wf_alarms_def set_update_where map_update_where)

lemma alarm_advances_refl: "alarm_advances a a"
  by (simp add: alarm_advances_def)

lemma alarm_advances_trans: "alarm_advances a b \<Longrightarrow> alarm_advances b c \<Longrightarrow> alarm_advances a c"
  by (auto simp: alarm_advances_def)

lemma alarm_step_wf:
  assumes "alarm_step repo d d'" "0 \<le> webhook_max_retries repo" "wf_alarms repo d"
  shows "wf_alarms repo d'"
  using alarm_step_update [OF assms(1,2)]
proof
  assume "alarm_update repo d d'"
  with assms(3) show ?thesis
    by (auto simp: alarm_update_def alarm_advances_def intro!: wf_alarms_update)
qed (use assms in \<open>auto simp: wf_alarms_insert\<close>)

lemma alarm_step_advances:
  assumes "alarm_step repo d d'" "0 \<le> webhook_max_retries repo" "a \<in> set (alarms d)"
  shows "\<exists>b\<in>set (alarms d'). alarm_advances a b"
  using alarm_step_update [OF assms(1,2)]
proof
  assume "alarm_update repo d d'"
  then obtain P f where d': "d' = d\<lparr>alarms := update_where P f (alarms d)\<rparr>"
    and adv: "\<And>a. P a \<Longrightarrow> alarm_advances a (f a)"
    by (auto simp: alarm_update_def)
  have "(if P a then f a else a) \<in> set (alarms d')"
    using assms(3) by (auto simp: d' set_update_where)
  moreover have "alarm_advances a (if P a then f a else a)"
    using adv by (simp add: alarm_advances_refl)
  ultimately show ?thesis by blast
qed (use assms(3) in \<open>auto simp: insert_alarm_sql_def Let_def intro: alarm_advances_refl\<close>)

text \<open>
  C15: in every state the backend can reach from the empty alarm table, by any interleaving of
  its writes, each alarm row is well formed: its status is one of the three of the database
  check, \<open>acknowledged\<close> agrees with it, \<open>cleared_at\<close> is set exactly for cleared rows, the
  webhook status is one of the four the code assigns, the retries left stay between 0 and the
  configured maximum, and row ids are unique.
\<close>

theorem alarm_table_invariant:
  assumes "0 \<le> webhook_max_retries repo" and "(alarm_step repo)\<^sup>*\<^sup>* empty_db d"
  shows "wf_alarms repo d"
  using assms(2)
proof (induction rule: rtranclp_induct)
  case base
  show ?case by (simp add: wf_alarms_def empty_db_def)
next
  case (step y z)
  with assms(1) show ?case by (blast intro: alarm_step_wf)
qed

theorem alarm_table_invariant_witness:
  "wf_alarms \<lparr>webhook_max_retries = 3, webhook_retry_interval_seconds = 60\<rparr>
     (snd (clear_alarm_sql 1 5 (snd (insert_alarm_sql 7 ''r'' ''p'' ''d'' 1 None None ''event'' 2 empty_db))))"
proof (rule alarm_table_invariant)
  show "(alarm_step \<lparr>webhook_max_retries = 3, webhook_retry_interval_seconds = 60\<rparr>)\<^sup>*\<^sup>* empty_db
     (snd (clear_alarm_sql 1 5 (snd (insert_alarm_sql 7 ''r'' ''p'' ''d'' 1 None None ''event'' 2 empty_db))))"
    by (rule rtranclp.rtrancl_into_rtrancl, rule r_into_rtranclp, rule step_insert, rule step_clear)
qed simp

text \<open>
  C16: a row is never lost and its life only advances: from active to acknowledged to cleared,
  never back; a cleared alarm keeps its status and its clearing time whatever happens later, and
  the fields that say which rule fired for which device never change.
\<close>

theorem alarm_status_only_advances:
  assumes "0 \<le> webhook_max_retries repo" and "(alarm_step repo)\<^sup>*\<^sup>* d d'"
    and "a \<in> set (alarms d)"
  shows "\<exists>b\<in>set (alarms d'). alarm_advances a b"
  using assms(2,3)
proof (induction rule: rtranclp_induct)
  case base
  then show ?case using alarm_advances_refl by blast
next
  case (step y z)
  with assms(1) show ?case using alarm_step_advances alarm_advances_trans by meson
qed

theorem alarm_status_only_advances_witness:
  "\<exists>b\<in>set (alarms (snd (ack_alarm_sql 1 9 (snd (insert_alarm_sql 7 ''r'' ''p'' ''d'' 1 None None ''event'' 2 empty_db))))).
     alarm_advances (last (alarms (snd (insert_alarm_sql 7 ''r'' ''p'' ''d'' 1 None None ''event'' 2 empty_db)))) b"
  by (rule alarm_status_only_advances
        [of "\<lparr>webhook_max_retries = 3, webhook_retry_interval_seconds = 60\<rparr>"])
     (simp, rule r_into_rtranclp, rule step_ack, simp add: insert_alarm_sql_def Let_def)

end
