(* ===== verification/Actions.thy ===== *)
theory Actions
  imports Alarm_Repo Evaluator
begin

text \<open>
  \<open>backend/src/rule_engine/actions.rs\<close>: parsing the actions of a matched rule and executing
  them. A webhook post is an external call that appends to \<open>webhooks_posted\<close>; a non-2xx answer
  or a timeout after delivery is the outcome \<open>Unacked\<close>.
\<close>

datatype alarm_action = Alarm (alarm_level: int) (alarm_message: string) | Webhook string

definition parse_level :: "json option \<Rightarrow> int" where
  "parse_level v =
     (case v of
        Some (JString s) \<Rightarrow>
          if s = ''info'' then 0 else if s = ''warning'' then 1
          else if s = ''critical'' then 2 else 0
      | Some (JNumber n) \<Rightarrow>
          as_i16 (case as_i64 (JNumber n) of Some i \<Rightarrow> i | None \<Rightarrow> 0)
      | _ \<Rightarrow> 0)"

definition parse_action :: "json \<Rightarrow> alarm_action option" where
  "parse_action action_val =
     Option.bind (as_object action_val) (\<lambda>obj.
       case Option.bind (jmap_get obj ''type'') as_str of
         None \<Rightarrow> None
       | Some ty \<Rightarrow>
           if ty = ''alarm'' then
             Some (Alarm (parse_level (jmap_get obj ''level''))
               (case Option.bind (jmap_get obj ''message'') as_str of Some m \<Rightarrow> m | None \<Rightarrow> []))
           else if ty = ''webhook'' then
             map_option Webhook (Option.bind (jmap_get obj ''url'') as_str)
           else None)"

definition parse_actions :: "json list \<Rightarrow> alarm_action list" where
  "parse_actions actions_json = List.map_filter parse_action actions_json"

definition send_webhook :: "string \<Rightarrow> json \<Rightarrow> ('s, io_error, unit) io" where
  "send_webhook url payload =
     net_call (\<lambda>now w. ((), w\<lparr>webhooks_posted := webhooks_posted w @ [(url, payload)]\<rparr>))"

definition webhook_payload ::
  "string \<Rightarrow> string \<Rightarrow> string \<Rightarrow> string \<Rightarrow> json \<Rightarrow> json" where
  "webhook_payload rule_name product_id device_id trigger_type trigger_value =
     json_obj [(''rule_name'', JString rule_name), (''product_id'', JString product_id),
               (''device_id'', JString device_id), (''trigger_type'', JString trigger_type),
               (''trigger_value'', trigger_value)]"

definition webhook_url :: "alarm_action \<Rightarrow> string option" where
  "webhook_url a = (case a of Webhook url \<Rightarrow> Some url | Alarm _ _ \<Rightarrow> None)"

text \<open>The loop over the webhook actions: every one is tried, and whether any failed is kept.\<close>

fun send_all_webhooks :: "string list \<Rightarrow> json \<Rightarrow> bool \<Rightarrow> ('s, 'e, bool) io" where
  "send_all_webhooks [] payload any_failed = ret any_failed"
| "send_all_webhooks (url # urls) payload any_failed =
     matchE (send_webhook url payload)
       (\<lambda>_. send_all_webhooks urls payload any_failed)
       (\<lambda>_. send_all_webhooks urls payload True)"

definition find_alarm_action :: "alarm_action list \<Rightarrow> (int \<times> string) option" where
  "find_alarm_action parsed =
     find_map (\<lambda>a. case a of Alarm level msg \<Rightarrow> Some (level, msg) | Webhook _ \<Rightarrow> None) parsed"

definition execute_actions ::
  "alarm_repo \<Rightarrow> json list \<Rightarrow> trigger_context \<Rightarrow> int \<Rightarrow> string \<Rightarrow> ('s, io_error, unit) io" where
  "execute_actions repo actions ctx rule_id rule_name =
     (let parsed = parse_actions actions;
          (level, msg) = (case find_alarm_action parsed of Some lm \<Rightarrow> lm | None \<Rightarrow> (0, []));
          webhook_urls = List.map_filter webhook_url parsed
      in bindE (insert_alarm rule_id rule_name (ctx_product_id ctx) (ctx_device_id ctx) level
                  (if msg = [] then None else Some msg) (Some (ctx_trigger_value ctx))
                  (trigger_type_as_str (ctx_trigger_type ctx))) (\<lambda>alarm_id.
         if webhook_urls \<noteq> [] then
           bindE (send_all_webhooks webhook_urls
                    (webhook_payload rule_name (ctx_product_id ctx) (ctx_device_id ctx)
                      (trigger_type_as_str (ctx_trigger_type ctx)) (ctx_trigger_value ctx)) False)
             (\<lambda>any_webhook_failed.
              if any_webhook_failed then
                bindE now_utc (\<lambda>n.
                  ignoreE (update_alarm_webhook_status_with_retry alarm_id 1
                    (webhook_max_retries repo)
                    (Some (n + webhook_retry_interval_seconds repo * ns_per_sec))))
              else ignoreE (update_alarm_webhook_status alarm_id 0))
         else ret ()))"

section \<open>Database effect\<close>

lemma steps_send_webhook [steps_intros]: "steps_by R (send_webhook url payload)"
  unfolding send_webhook_def net_call_def by (rule steps_ext_call) simp

lemma steps_send_all_webhooks [steps_intros]: "steps_by R (send_all_webhooks urls payload b)"
  by (induction urls arbitrary: b) (auto intro!: steps_intros)

lemma steps_alarm_exec:
  "(\<And>now d. alarm_step repo d (snd (q now d))) \<Longrightarrow> steps_by (alarm_step repo) (db_exec q)"
  by (intro steps_db_exec r_into_rtranclp)

lemmas alarm_writes =
  insert_alarm_def update_alarm_webhook_status_def update_alarm_webhook_status_with_retry_def
  ack_alarm_def clear_alarm_def decrement_retry_and_schedule_next_def
  mark_webhook_final_failure_def mark_webhook_success_def

lemma steps_alarm_writes [steps_intros]:
  "steps_by (alarm_step repo) (insert_alarm ri rn p dv l m tv tt)"
  "steps_by (alarm_step repo) (update_alarm_webhook_status i 0)"
  "steps_by (alarm_step repo)
     (update_alarm_webhook_status_with_retry i 1 (webhook_max_retries repo) nxt)"
  "steps_by (alarm_step repo) (ack_alarm i)"
  "steps_by (alarm_step repo) (clear_alarm i)"
  "steps_by (alarm_step repo) (decrement_retry_and_schedule_next repo i)"
  "steps_by (alarm_step repo) (mark_webhook_final_failure i)"
  "steps_by (alarm_step repo) (mark_webhook_success i)"
  unfolding alarm_writes
  by (intro steps_intros steps_alarm_exec alarm_step.intros)+

lemma steps_execute_actions [steps_intros]:
  "steps_by (alarm_step repo) (execute_actions repo actions ctx rule_id rule_name)"
  unfolding execute_actions_def by (intro steps_intros)

end
