(* ===== verification/Rule_Engine.thy ===== *)
theory Rule_Engine
  imports Actions
begin

text \<open>
  \<open>backend/src/rule_engine/mod.rs\<close> and the rule cache of \<open>cache.rs\<close>: evaluating the rules of
  a product on a trigger, firing the matching ones, and clearing alarms whose clear condition
  holds. \<open>continue\<close> in a loop body is \<open>ret ()\<close>. The engine is parametric in the state store,
  as the code is in \<open>Arc<dyn RuleStateStore>\<close>.
\<close>

section \<open>The rule cache\<close>

definition get_rules :: "string \<Rightarrow> ('s, 'e, alarm_rule list option) io" where
  "get_rules product_id env w = (Inr (cached_rules w product_id), w)"

definition set_rules :: "string \<Rightarrow> alarm_rule list \<Rightarrow> ('s, 'e, unit) io" where
  "set_rules product_id rules env w =
     (Inr (), w\<lparr>cached_rules := (cached_rules w)(product_id \<mapsto> rules)\<rparr>)"

definition invalidate_product :: "'s store_ops \<Rightarrow> string \<Rightarrow> ('s, 'e, unit) io" where
  "invalidate_product ops product_id env w =
     (let rule_ids = (case cached_rules w product_id of
                        Some rules \<Rightarrow> map ar_id rules
                      | None \<Rightarrow> []);
          w1 = w\<lparr>cached_rules := (cached_rules w)(product_id := None)\<rparr>
      in if rule_ids \<noteq> []
         then bindE (store_call (st_invalidate_by_rule_ids ops rule_ids)) (\<lambda>_. ret ()) env w1
         else (Inr (), w1))"

definition check_dedup :: "'s store_ops \<Rightarrow> int \<Rightarrow> string \<Rightarrow> int \<Rightarrow> instant \<Rightarrow> ('s, 'e, bool) io" where
  "check_dedup ops rule_id device_id throttle_minutes now =
     store_call (\<lambda>s. (st_check_dedup ops rule_id device_id throttle_minutes now s, s))"

definition mark_triggered ::
  "'s store_ops \<Rightarrow> int \<Rightarrow> string \<Rightarrow> int \<Rightarrow> ('s, 'e, store_error + unit) io" where
  "mark_triggered ops rule_id device_id throttle_minutes =
     bindE now_utc (\<lambda>n. store_call (st_mark_triggered ops rule_id device_id throttle_minutes n))"

definition check_duration ::
  "'s store_ops \<Rightarrow> int \<Rightarrow> string \<Rightarrow> int \<Rightarrow> instant \<Rightarrow> ('s, 'e, duration_check_result) io" where
  "check_duration ops rule_id device_id duration_minutes now =
     store_call (st_check_duration ops rule_id device_id duration_minutes now)"

definition reset_duration ::
  "'s store_ops \<Rightarrow> int \<Rightarrow> string \<Rightarrow> ('s, 'e, store_error + unit) io" where
  "reset_duration ops rule_id device_id = store_call (st_reset_duration ops rule_id device_id)"

section \<open>Reading the trigger\<close>

definition extract_property_value :: "json \<Rightarrow> string \<Rightarrow> json option" where
  "extract_property_value trigger_value property_name =
     Option.bind (json_get trigger_value property_name) (\<lambda>prop.
       case json_get prop ''value'' of
         Some inner_value \<Rightarrow> Some inner_value
       | None \<Rightarrow> Some prop)"

definition rule_actual_value :: "trigger_type \<Rightarrow> alarm_rule \<Rightarrow> trigger_context \<Rightarrow> json option" where
  "rule_actual_value tt rule ctx =
     (case tt of
        Property \<Rightarrow>
          Option.bind (Option.bind (json_get (ar_trigger_config rule) ''property_name'') as_str)
            (extract_property_value (ctx_trigger_value ctx))
      | Event \<Rightarrow>
          Option.bind (Option.bind (json_get (ar_trigger_config rule) ''event_identifier'') as_str)
            (json_get (ctx_trigger_value ctx))
      | DeviceOnline \<Rightarrow> Some JNull
      | DeviceOffline \<Rightarrow> Some JNull)"

section \<open>Firing rules\<close>

definition duration_gate ::
  "'s store_ops \<Rightarrow> trigger_type \<Rightarrow> alarm_rule \<Rightarrow> trigger_context \<Rightarrow> ('s, 'e, bool) io" where
  "duration_gate ops tt rule ctx =
     (if tt = Property \<and> 0 < ar_duration_minutes rule then
        bindE now_utc (\<lambda>n.
        bindE (check_duration ops (ar_id rule) (ctx_device_id ctx) (ar_duration_minutes rule) n)
          (\<lambda>r. ret (case r of Met \<Rightarrow> True | NotYetMet \<Rightarrow> False | JustStarted \<Rightarrow> False
                     | NotStarted \<Rightarrow> False)))
      else ret True)"

definition fire_rule ::
  "'s store_ops \<Rightarrow> alarm_repo \<Rightarrow> alarm_rule \<Rightarrow> trigger_context \<Rightarrow> ('s, 'e, unit) io" where
  "fire_rule ops repo rule ctx =
     bindE (mark_triggered ops (ar_id rule) (ctx_device_id ctx) (ar_throttle_minutes rule)) (\<lambda>_.
     ignoreE (execute_actions repo
       (case as_array (ar_actions rule) of Some xs \<Rightarrow> xs | None \<Rightarrow> [])
       ctx (ar_id rule) (ar_name rule)))"

definition process_rule ::
  "'s store_ops \<Rightarrow> alarm_repo \<Rightarrow> trigger_context \<Rightarrow> alarm_rule \<Rightarrow> ('s, 'e, unit) io" where
  "process_rule ops repo ctx rule =
     (case trigger_type_from_str (ar_trigger_type rule) of
        None \<Rightarrow> ret ()
      | Some tt \<Rightarrow>
          if tt \<noteq> ctx_trigger_type ctx then ret ()
          else case rule_actual_value tt rule ctx of
            None \<Rightarrow> ret ()
          | Some actual_value \<Rightarrow>
              if \<not> evaluate (ar_condition rule) actual_value then
                (if tt = Property \<and> 0 < ar_duration_minutes rule
                 then bindE (reset_duration ops (ar_id rule) (ctx_device_id ctx)) (\<lambda>_. ret ())
                 else ret ())
              else
                bindE (duration_gate ops tt rule ctx) (\<lambda>met.
                if \<not> met then ret ()
                else bindE now_utc (\<lambda>n.
                bindE (check_dedup ops (ar_id rule) (ctx_device_id ctx)
                         (ar_throttle_minutes rule) n) (\<lambda>dup.
                if dup then ret () else fire_rule ops repo rule ctx))))"

section \<open>Clearing alarms\<close>

definition clear_rule ::
  "'s store_ops \<Rightarrow> trigger_context \<Rightarrow> alarm_rule \<Rightarrow> ('s, 'e, unit) io" where
  "clear_rule ops ctx rule =
     (if ar_trigger_type rule \<noteq> ''property'' then ret ()
      else case ar_clear_condition rule of
        None \<Rightarrow> ret ()
      | Some clear_condition \<Rightarrow>
          matchE (query_active_alarms_for_clear (ar_id rule) (ctx_device_id ctx))
            (\<lambda>active_alarms.
               if active_alarms = [] then ret ()
               else case Option.bind (json_get (ar_trigger_config rule) ''property_name'') as_str of
                 None \<Rightarrow> ret ()
               | Some property_name \<Rightarrow>
                   (case extract_property_value (ctx_trigger_value ctx) property_name of
                      None \<Rightarrow> ret ()
                    | Some actual_value \<Rightarrow>
                        if evaluate clear_condition actual_value then
                          bindE (forE active_alarms (\<lambda>a. ignoreE (clear_alarm (al_id a)))) (\<lambda>_.
                          bindE (reset_duration ops (ar_id rule) (ctx_device_id ctx)) (\<lambda>_. ret ()))
                        else ret ()))
            (\<lambda>_. ret ()))"

definition evaluate_and_trigger ::
  "'s store_ops \<Rightarrow> alarm_repo \<Rightarrow> trigger_context \<Rightarrow> ('s, 'e, unit) io" where
  "evaluate_and_trigger ops repo ctx =
     bindE (get_rules (ctx_product_id ctx)) (\<lambda>cached.
     bindE (case cached of
              Some rules \<Rightarrow> ret (Some rules)
            | None \<Rightarrow>
                matchE (query_enabled_rules_by_product (ctx_product_id ctx))
                  (\<lambda>rules. bindE (set_rules (ctx_product_id ctx) rules) (\<lambda>_. ret (Some rules)))
                  (\<lambda>_. ret None)) (\<lambda>loaded.
     case loaded of
       None \<Rightarrow> ret ()
     | Some rules \<Rightarrow>
         bindE (forE rules (process_rule ops repo ctx)) (\<lambda>_.
         if ctx_trigger_type ctx = Property
         then forE rules (clear_rule ops ctx)
         else ret ())))"

section \<open>Database effect\<close>

lemma steps_cache [steps_intros]:
  "steps_by R (get_rules p)" "steps_by R (set_rules p rs)" "steps_by R (invalidate_product ops p)"
  "steps_by R (check_dedup ops r d t n)" "steps_by R (mark_triggered ops r d t)"
  "steps_by R (check_duration ops r d m n)" "steps_by R (reset_duration ops r d)"
proof -
  show "steps_by R (get_rules p)" "steps_by R (set_rules p rs)"
    by (simp_all add: steps_by_def get_rules_def set_rules_def)
  show "steps_by R (invalidate_product ops p)"
    by (simp add: steps_by_def invalidate_product_def Let_def bindE_def ret_def
        store_call_def split: prod.split)
  show "steps_by R (check_dedup ops r d t n)" "steps_by R (mark_triggered ops r d t)"
    "steps_by R (check_duration ops r d m n)" "steps_by R (reset_duration ops r d)"
    unfolding check_dedup_def mark_triggered_def check_duration_def reset_duration_def
    by (intro steps_intros)+
qed

lemma steps_process_rule [steps_intros]:
  "steps_by (alarm_step repo) (process_rule ops repo ctx rule)"
  unfolding process_rule_def duration_gate_def fire_rule_def by (intro steps_intros)

lemma steps_clear_rule [steps_intros]: "steps_by (alarm_step repo) (clear_rule ops ctx rule)"
  unfolding clear_rule_def query_active_alarms_for_clear_def by (intro steps_intros)

lemma steps_evaluate_and_trigger [steps_intros]:
  "steps_by (alarm_step repo) (evaluate_and_trigger ops repo ctx)"
  unfolding evaluate_and_trigger_def query_enabled_rules_by_product_def by (intro steps_intros)

end
