(* ===== verification/Hoare.thy ===== *)
theory Hoare
  imports World
begin

text \<open>
  Reasoning about programs. \<open>frame v m\<close> says that \<open>m\<close> leaves the view \<open>v\<close> of the world alone
  in every environment; \<open>triple E P m Q\<close> is partial correctness in the environments of \<open>E\<close>
  (programs are total functions, so it is total correctness too), with a postcondition on the
  result, errors included. The rules of both are collected in \<open>frame_intros\<close> and
  \<open>triple_intros\<close>.
\<close>

section \<open>Frames\<close>

definition frame :: "('s world \<Rightarrow> 'v) \<Rightarrow> ('s, 'e, 'a) io \<Rightarrow> bool" where
  "frame v m \<longleftrightarrow> (\<forall>env w. v (snd (m env w)) = v w)"

named_theorems frame_intros \<open>a program leaves a view alone if its parts do\<close>

lemma frameD: "frame v m \<Longrightarrow> m env w = (r, w') \<Longrightarrow> v w' = v w"
  unfolding frame_def by (metis snd_conv)

lemma frame_ret [frame_intros]: "frame v (ret x)"
  and frame_throw [frame_intros]: "frame v (throw e)"
  by (simp_all add: frame_def ret_def throw_def)

lemma frame_matchE [frame_intros]:
  "frame v m \<Longrightarrow> (\<And>x. frame v (f x)) \<Longrightarrow> (\<And>e. frame v (h e)) \<Longrightarrow> frame v (matchE m f h)"
  unfolding frame_def matchE_def by (auto split: prod.split sum.split) (metis snd_conv)+

lemma frame_bindE [frame_intros]:
  "frame v m \<Longrightarrow> (\<And>x. frame v (f x)) \<Longrightarrow> frame v (bindE m f)"
  unfolding bindE_matchE by (intro frame_intros)

lemma frame_map_err [frame_intros]: "frame v m \<Longrightarrow> frame v (map_err g m)"
  unfolding map_err_def by (intro frame_intros)

lemma frame_ignoreE [frame_intros]: "frame v m \<Longrightarrow> frame v (ignoreE m)"
  unfolding ignoreE_def by (intro frame_intros)

lemma frame_ok_or [frame_intros]: "frame v (ok_or e x)"
  and frame_lift_res [frame_intros]: "frame v (lift_res r)"
  by (simp_all add: ok_or_def lift_res_def frame_intros split: option.split sum.split)

lemma frame_forE [frame_intros]:
  "(\<And>x. x \<in> set xs \<Longrightarrow> frame v (f x)) \<Longrightarrow> frame v (forE xs f)"
  by (induction xs) (auto intro!: frame_intros)

lemma frame_if [frame_intros]:
  "(b \<Longrightarrow> frame v m) \<Longrightarrow> (\<not> b \<Longrightarrow> frame v n) \<Longrightarrow> frame v (if b then m else n)"
  by simp

lemma frame_case_option [frame_intros]:
  "(x = None \<Longrightarrow> frame v m) \<Longrightarrow> (\<And>y. x = Some y \<Longrightarrow> frame v (f y)) \<Longrightarrow>
   frame v (case x of None \<Rightarrow> m | Some y \<Rightarrow> f y)"
  by (cases x) auto

lemma frame_case_prod [frame_intros]:
  "(\<And>a b. p = (a, b) \<Longrightarrow> frame v (f a b)) \<Longrightarrow> frame v (case p of (a, b) \<Rightarrow> f a b)"
  by (cases p) auto

lemma frame_Let [frame_intros]: "frame v (f x) \<Longrightarrow> frame v (Let x f)"
  by simp

lemma frame_ext_call:
  "(\<And>now w. v (snd (f now w)) = v w) \<Longrightarrow> (\<And>n w. v (w\<lparr>tick := n\<rparr>) = v w) \<Longrightarrow>
   frame v (ext_call outcome f)"
  by (simp add: frame_def ext_call_def Let_def case_prod_beta split: outcome.split)

lemma frame_now_utc: "(\<And>n w. v (w\<lparr>tick := n\<rparr>) = v w) \<Longrightarrow> frame v now_utc"
  by (simp add: frame_def now_utc_def)

lemma frame_db_exec:
  "(\<And>now d (w :: 's world). v (w\<lparr>db := snd (q now (db w))\<rparr>) = v w) \<Longrightarrow>
   (\<And>n w. v (w\<lparr>tick := n\<rparr>) = v w) \<Longrightarrow> frame v (db_exec q)"
  unfolding db_exec_def by (rule frame_ext_call) (simp_all add: case_prod_beta)

lemma frame_db_query: "(\<And>n w. v (w\<lparr>tick := n\<rparr>) = v w) \<Longrightarrow> frame v (db_query q)"
  unfolding db_query_def by (rule frame_db_exec) simp_all

lemma frame_store_call:
  "(\<And>s (w :: 's world). v (w\<lparr>state_store := s\<rparr>) = v w) \<Longrightarrow> frame v (store_call f)"
  by (simp add: frame_def store_call_def split: prod.split)

section \<open>Triples\<close>

definition triple ::
  "(env \<Rightarrow> bool) \<Rightarrow> ('s world \<Rightarrow> bool) \<Rightarrow> ('s, 'e, 'a) io \<Rightarrow> ('e + 'a \<Rightarrow> 's world \<Rightarrow> bool) \<Rightarrow> bool" where
  "triple E P m Q \<longleftrightarrow> (\<forall>env w. E env \<longrightarrow> P w \<longrightarrow> (case m env w of (r, w') \<Rightarrow> Q r w'))"

named_theorems triple_intros \<open>a program keeps an invariant if its parts do\<close>

abbreviation keeps :: "(env \<Rightarrow> bool) \<Rightarrow> ('s world \<Rightarrow> bool) \<Rightarrow> ('s, 'e, 'a) io \<Rightarrow> bool" where
  "keeps E I m \<equiv> triple E I m (\<lambda>_. I)"

lemma tripleD: "triple E P m Q \<Longrightarrow> E env \<Longrightarrow> P w \<Longrightarrow> m env w = (r, w') \<Longrightarrow> Q r w'"
  unfolding triple_def by fastforce

lemma triple_ret: "(\<And>w. P w \<Longrightarrow> Q (Inr x) w) \<Longrightarrow> triple E P (ret x) Q"
  and triple_throw: "(\<And>w. P w \<Longrightarrow> Q (Inl e) w) \<Longrightarrow> triple E P (throw e) Q"
  by (simp_all add: triple_def ret_def throw_def)

lemma triple_matchE:
  assumes "triple E P m Q" "\<And>x. triple E (Q (Inr x)) (f x) R" "\<And>e. triple E (Q (Inl e)) (h e) R"
  shows "triple E P (matchE m f h) R"
  unfolding triple_def
proof (intro allI impI)
  fix env w assume E: "E env" and P: "P w"
  obtain r w' where m: "m env w = (r, w')" by (cases "m env w")
  have Q: "Q r w'" using assms(1) E P m by (rule tripleD)
  show "case matchE m f h env w of (r, w') \<Rightarrow> R r w'"
    using Q assms(2,3) E m by (cases r) (simp_all add: matchE_def triple_def)
qed

lemma triple_bindE:
  assumes "triple E P m Q" "\<And>x. triple E (Q (Inr x)) (f x) R" "\<And>e w. Q (Inl e) w \<Longrightarrow> R (Inl e) w"
  shows "triple E P (bindE m f) R"
  unfolding bindE_matchE using assms by (blast intro: triple_matchE triple_throw)

lemma triple_conseq:
  "triple E P m Q \<Longrightarrow> (\<And>w. P' w \<Longrightarrow> P w) \<Longrightarrow> (\<And>r w. Q r w \<Longrightarrow> Q' r w) \<Longrightarrow> triple E P' m Q'"
  unfolding triple_def by fastforce

lemma triple_pure: "(b \<Longrightarrow> triple E P m Q) \<Longrightarrow> triple E (\<lambda>w. P w \<and> b) m Q"
  unfolding triple_def by auto

lemma keeps_frame:
  assumes "frame v m" and "\<And>w w'. v w' = v w \<Longrightarrow> I w \<Longrightarrow> I w'"
  shows "keeps E I m"
  unfolding triple_def
proof (intro allI impI)
  fix env w assume "I w"
  obtain r w' where m: "m env w = (r, w')" by (cases "m env w")
  have "v w' = v w" using assms(1) m by (rule frameD)
  with \<open>I w\<close> have "I w'" using assms(2) by blast
  then show "case m env w of (r, w') \<Rightarrow> I w'" by (simp add: m)
qed

lemma keeps_ret [triple_intros]: "keeps E I (ret x)"
  and keeps_throw [triple_intros]: "keeps E I (throw e)"
  by (simp_all add: triple_ret triple_throw)

lemma keeps_matchE [triple_intros]:
  "keeps E I m \<Longrightarrow> (\<And>x. keeps E I (f x)) \<Longrightarrow> (\<And>e. keeps E I (h e)) \<Longrightarrow> keeps E I (matchE m f h)"
  by (rule triple_matchE)

lemma keeps_bindE [triple_intros]:
  "keeps E I m \<Longrightarrow> (\<And>x. keeps E I (f x)) \<Longrightarrow> keeps E I (bindE m f)"
  by (rule triple_bindE)

lemma keeps_ignoreE [triple_intros]: "keeps E I m \<Longrightarrow> keeps E I (ignoreE m)"
  unfolding ignoreE_def by (intro triple_intros)

lemma keeps_forE [triple_intros]:
  "(\<And>x. x \<in> set xs \<Longrightarrow> keeps E I (f x)) \<Longrightarrow> keeps E I (forE xs f)"
  by (induction xs) (auto intro!: triple_intros)

lemma keeps_if [triple_intros]:
  "(b \<Longrightarrow> keeps E I m) \<Longrightarrow> (\<not> b \<Longrightarrow> keeps E I n) \<Longrightarrow> keeps E I (if b then m else n)"
  by simp

lemma keeps_case_option [triple_intros]:
  "(x = None \<Longrightarrow> keeps E I m) \<Longrightarrow> (\<And>y. x = Some y \<Longrightarrow> keeps E I (f y)) \<Longrightarrow>
   keeps E I (case x of None \<Rightarrow> m | Some y \<Rightarrow> f y)"
  by (cases x) auto

lemma keeps_case_prod [triple_intros]:
  "(\<And>a b. p = (a, b) \<Longrightarrow> keeps E I (f a b)) \<Longrightarrow> keeps E I (case p of (a, b) \<Rightarrow> f a b)"
  by (cases p) auto

lemma keeps_disj: "keeps E I m \<Longrightarrow> keeps E J m \<Longrightarrow> keeps E (\<lambda>w. I w \<or> J w) m"
  unfolding triple_def by (auto split: prod.splits)

text \<open>Environments in which every database call succeeds.\<close>

definition reliable :: "env \<Rightarrow> bool" where
  "reliable env \<longleftrightarrow> (\<forall>n. outcome_at env n = Done)"

lemma reliable_all_done: "reliable all_done"
  by (simp add: reliable_def all_done_def)

lemma db_exec_reliable:
  "reliable env \<Longrightarrow>
   db_exec q env w =
     (case q (now_at env (tick w)) (db w) of (x, d) \<Rightarrow> (Inr x, w\<lparr>tick := Suc (tick w), db := d\<rparr>))"
  by (simp add: reliable_def db_exec_def ext_call_def Let_def split: prod.split)

lemma db_query_reliable:
  "reliable env \<Longrightarrow>
   db_query q env w = (Inr (q (now_at env (tick w)) (db w)), w\<lparr>tick := Suc (tick w)\<rparr>)"
  by (simp add: db_query_def db_exec_reliable)

lemmas reliable_simps = db_exec_reliable db_query_reliable

section \<open>Successful runs\<close>

text \<open>A program that returns a value ran each of its parts to a value.\<close>

lemma bindE_InrE:
  assumes "bindE m f env w = (Inr y, w')"
  obtains x w1 where "m env w = (Inr x, w1)" "f x env w1 = (Inr y, w')"
  using assms by (auto simp: bindE_def split: prod.splits sum.splits)

lemma lift_res_Inr: "lift_res r env w = (Inr x, w') \<longleftrightarrow> r = Inr x \<and> w' = w"
  by (auto simp: lift_res_def ret_def throw_def split: sum.splits)

lemma ok_or_Inr: "ok_or e r env w = (Inr x, w') \<longleftrightarrow> r = Some x \<and> w' = w"
  by (auto simp: ok_or_def ret_def throw_def split: option.splits)

lemma map_err_Inr: "map_err g m env w = (Inr x, w') \<longleftrightarrow> m env w = (Inr x, w')"
  by (auto simp: map_err_def matchE_def ret_def throw_def split: prod.splits sum.splits)

lemma ret_Inr: "ret x env w = (Inr y, w') \<longleftrightarrow> y = x \<and> w' = w"
  by (auto simp: ret_def)

lemma throw_Inr: "throw e env w = (Inr y, w') \<longleftrightarrow> False"
  by (simp add: throw_def)

lemmas Inr_simps = lift_res_Inr ok_or_Inr map_err_Inr ret_Inr throw_Inr

lemma db_exec_Inr:
  "db_exec q env w = (Inr x, w') \<Longrightarrow>
   (\<exists>now. q now (db w) = (x, db w')) \<and> cached_rules w' = cached_rules w \<and> schema_cache w' = schema_cache w"
  by (auto simp: db_exec_def ext_call_def Let_def split: outcome.splits prod.splits)

lemma db_exec_Inr_snd:
  "db_exec q env w = (Inr x, w') \<Longrightarrow> 
   \<exists>now. db w' = snd (q now (db w)) \<and> cached_rules w' = cached_rules w \<and> schema_cache w' = schema_cache w"
  by (auto dest!: db_exec_Inr) (metis snd_conv)

lemma db_query_Inr:
  "db_query q env w = (Inr x, w') \<Longrightarrow>
   (\<exists>now. q now (db w) = x) \<and> db w' = db w \<and> cached_rules w' = cached_rules w \<and> schema_cache w' = schema_cache w"
  unfolding db_query_def by (auto dest: db_exec_Inr)

end
