(* ===== verification/Engine_Throttle.thy ===== *)
theory Engine_Throttle
  imports Rule_Engine Hoare
begin

text \<open>
  Throttling of the whole rule engine: over any sequence of triggers that fit in one throttle
  window, a rule raises at most one alarm per device, whatever calls fail. Proved from the
  contract of the state store alone, in the locale \<open>throttle_store\<close>.
\<close>

definition alarm_count :: "int \<Rightarrow> string \<Rightarrow> database \<Rightarrow> nat" where
  "alarm_count r d D = count_where (\<lambda>a. al_rule_id a = r \<and> al_device_id a = d) (alarms D)"

text \<open>What the argument looks at: the rules, the cache, the store and the number of alarms.\<close>

definition engine_view ::
  "int \<Rightarrow> string \<Rightarrow> 's world \<Rightarrow> alarm_rule list \<times> (string \<rightharpoonup> alarm_rule list) \<times> 's \<times> nat" where
  "engine_view r d w = (alarm_rules (db w), cached_rules w, state_store w, alarm_count r d (db w))"

lemma engine_view_tick [simp]: "engine_view r d (w\<lparr>tick := n\<rparr>) = engine_view r d w"
  and engine_view_webhooks [simp]: "engine_view r d (w\<lparr>webhooks_posted := ps\<rparr>) = engine_view r d w"
  by (simp_all add: engine_view_def)

lemma count_where_update_where:
  "(\<And>a. Q (f a) = Q a) \<Longrightarrow> count_where Q (update_where P f xs) = count_where Q xs"
  by (induction xs) (auto simp: update_where_def count_where_def)

lemma alarm_count_update:
  "(\<And>a. al_rule_id (f a) = al_rule_id a) \<Longrightarrow> (\<And>a. al_device_id (f a) = al_device_id a) \<Longrightarrow>
   alarm_count r d (snd (update_alarms P f D)) = alarm_count r d D \<and>
   alarm_rules (snd (update_alarms P f D)) = alarm_rules D"
  by (simp add: alarm_count_def update_alarms_def count_where_update_where)

lemma alarm_count_insert:
  "alarm_count r d (snd (insert_alarm_sql ri rn p dv l m tv tt now D)) =
     (if ri = r \<and> dv = d then Suc (alarm_count r d D) else alarm_count r d D)"
  by (simp add: alarm_count_def insert_alarm_sql_def Let_def count_where_def)

lemma frame_view_db_exec:
  assumes "\<And>now D. alarm_count r d (snd (q now D)) = alarm_count r d D \<and>
    alarm_rules (snd (q now D)) = alarm_rules D"
  shows "frame (engine_view r d) (db_exec q)"
  using assms by (intro frame_db_exec) (simp_all add: engine_view_def)

lemma frame_view_writes [frame_intros]:
  "frame (engine_view r d) (update_alarm_webhook_status i ws)"
  "frame (engine_view r d) (update_alarm_webhook_status_with_retry i ws n nxt)"
  "frame (engine_view r d) (clear_alarm i)"
  "frame (engine_view r d) now_utc"
  "frame (engine_view r d) (db_query q)"
  "frame (engine_view r d) (send_webhook url payload)"
  unfolding alarm_writes alarm_sql_defs send_webhook_def net_call_def
  by (intro frame_intros frame_view_db_exec frame_ext_call frame_now_utc frame_db_query
      alarm_count_update; simp add: alarm_count_update)+

lemma frame_view_send_all [frame_intros]:
  "frame (engine_view r d) (send_all_webhooks urls payload b)"
  by (induction urls arbitrary: b) (auto intro!: frame_intros)

lemma alarm_rules_insert [simp]:
  "alarm_rules (snd (insert_alarm_sql ri rn p dv l m tv tt now D)) = alarm_rules D"
  by (simp add: insert_alarm_sql_def Let_def)

lemma frame_view_insert:
  "(ri, dv) \<noteq> (r, d) \<Longrightarrow> frame (engine_view r d) (insert_alarm ri rn p dv l m tv tt)"
  unfolding insert_alarm_def
  by (rule frame_view_db_exec) (auto simp: alarm_count_insert)

lemma frame_view_execute_other [frame_intros]:
  "(rule_id, ctx_device_id ctx) \<noteq> (r, d) \<Longrightarrow>
   frame (engine_view r d) (execute_actions repo actions ctx rule_id rule_name)"
  unfolding execute_actions_def by (intro frame_intros frame_view_insert)

section \<open>The quota of a rule and a device\<close>

definition in_window :: "instant \<Rightarrow> int \<Rightarrow> env \<Rightarrow> bool" where
  "in_window T t env \<longleftrightarrow> (\<forall>n. T \<le> now_at env n \<and> now_at env n < T + t * ns_per_min)"

definition throttled :: "int \<Rightarrow> int \<Rightarrow> alarm_rule \<Rightarrow> bool" where
  "throttled r t x \<longleftrightarrow> (ar_id x = r \<longrightarrow> t \<le> ar_throttle_minutes x)"

definition rules_throttled :: "int \<Rightarrow> int \<Rightarrow> 's world \<Rightarrow> bool" where
  "rules_throttled r t w \<longleftrightarrow>
     (\<forall>x\<in>set (alarm_rules (db w)). throttled r t x) \<and>
     (\<forall>p rs. cached_rules w p = Some rs \<longrightarrow> (\<forall>x\<in>set rs. throttled r t x))"

text \<open>Within a window that starts at \<open>T\<close>: either no alarm was added to the first \<open>k\<close>, or one
  was and the store knows that the pair fired in the window.\<close>

definition quota ::
  "('s \<Rightarrow> int \<Rightarrow> string \<Rightarrow> instant option) \<Rightarrow> int \<Rightarrow> string \<Rightarrow> instant \<Rightarrow> int \<Rightarrow> nat \<Rightarrow> 's world \<Rightarrow> bool" where
  "quota triggered_at r d T t k w \<longleftrightarrow>
     alarm_count r d (db w) \<le> k \<or>
     alarm_count r d (db w) \<le> Suc k \<and> (\<exists>m\<ge>T. m < T + t * ns_per_min \<and> triggered_at (state_store w) r d = Some m)"

definition quota_inv ::
  "('s \<Rightarrow> int \<Rightarrow> string \<Rightarrow> instant option) \<Rightarrow> int \<Rightarrow> string \<Rightarrow> instant \<Rightarrow> int \<Rightarrow> nat \<Rightarrow> 's world \<Rightarrow> bool" where
  "quota_inv triggered_at r d T t k w \<longleftrightarrow> rules_throttled r t w \<and> quota triggered_at r d T t k w"

text \<open>The window is unused: no alarm yet. The window is spent: the pair is marked.\<close>

definition unused :: "int \<Rightarrow> string \<Rightarrow> int \<Rightarrow> nat \<Rightarrow> 's world \<Rightarrow> bool" where
  "unused r d t k w \<longleftrightarrow> rules_throttled r t w \<and> alarm_count r d (db w) \<le> k"

definition spent ::
  "('s \<Rightarrow> int \<Rightarrow> string \<Rightarrow> instant option) \<Rightarrow> int \<Rightarrow> string \<Rightarrow> instant \<Rightarrow> int \<Rightarrow> nat \<Rightarrow> 's world \<Rightarrow> bool" where
  "spent triggered_at r d T t k w \<longleftrightarrow>
     rules_throttled r t w \<and> alarm_count r d (db w) \<le> k \<and>
     (\<exists>m\<ge>T. m < T + t * ns_per_min \<and> triggered_at (state_store w) r d = Some m)"

lemmas quota_defs = quota_inv_def quota_def unused_def spent_def rules_throttled_def

lemma keeps_view:
  assumes "frame (engine_view r d) m"
  shows "keeps E (quota_inv tr r d T t k) m" and "keeps E (spent tr r d T t k) m"
    and "keeps E (unused r d t k) m"
  by (rule keeps_frame [OF assms], simp add: engine_view_def quota_defs)+

lemma triple_insert_spent:
  "triple E (spent tr r d T t k) (insert_alarm ri rn p dv l m tv tt)
     (\<lambda>_. spent tr r d T t (Suc k))"
  by (auto simp: triple_def insert_alarm_def db_exec_def ext_call_def Let_def quota_defs
      alarm_count_insert split: prod.splits outcome.splits dest!: arg_cong [where f = snd])

lemma triple_execute_spent:
  "triple E (spent tr r d T t k) (execute_actions repo actions ctx rule_id rule_name)
     (\<lambda>_. quota_inv tr r d T t k)"
proof -
  have "triple E (spent tr r d T t k) (execute_actions repo actions ctx rule_id rule_name)
     (\<lambda>_. spent tr r d T t (Suc k))"
    unfolding execute_actions_def Let_def case_prod_beta
    by (rule triple_bindE, rule triple_insert_spent) (intro keeps_view frame_intros, assumption)
  then show ?thesis by (rule triple_conseq) (auto simp: quota_defs)
qed

lemma triple_now_window:
  "(\<And>w n. P (w\<lparr>tick := n\<rparr>) = P w) \<Longrightarrow>
   triple (in_window T t) P now_utc
     (\<lambda>res w. P w \<and> (\<exists>n. res = Inr n \<and> T \<le> n \<and> n < T + t * ns_per_min))"
  by (simp add: triple_def now_utc_def in_window_def)

lemma quota_tick [simp]:
  "quota_inv tr r d T t k (w\<lparr>tick := n\<rparr>) = quota_inv tr r d T t k w"
  "unused r d t k (w\<lparr>tick := n\<rparr>) = unused r d t k w"
  by (simp_all add: quota_defs)

lemma load_rules_throttled:
  "triple E (quota_inv tr r d T t k) (get_rules p) (\<lambda>res w. quota_inv tr r d T t k w \<and>
     (\<forall>rs. res = Inr (Some rs) \<longrightarrow> (\<forall>x\<in>set rs. throttled r t x)))"
  "triple E (quota_inv tr r d T t k) (query_enabled_rules_by_product p) (\<lambda>res w. quota_inv tr r d T t k w \<and>
     (\<forall>rs. res = Inr rs \<longrightarrow> (\<forall>x\<in>set rs. throttled r t x)))"
  "\<forall>x\<in>set rs. throttled r t x \<Longrightarrow> keeps E (quota_inv tr r d T t k) (set_rules p rs)"
  by (auto simp: triple_def get_rules_def set_rules_def query_enabled_rules_by_product_def
      db_query_def db_exec_def ext_call_def Let_def enabled_rules_def quota_defs split: outcome.split)

lemma load_or_query_throttled:
  assumes "\<forall>rs. cached = Some rs \<longrightarrow> (\<forall>x\<in>set rs. throttled r t x)"
  shows "triple E (quota_inv tr r d T t k)
    (case cached of
       Some rules \<Rightarrow> ret (Some rules)
     | None \<Rightarrow> matchE (query_enabled_rules_by_product p)
                 (\<lambda>rules. bindE (set_rules p rules) (\<lambda>_. ret (Some rules))) (\<lambda>_. ret None))
    (\<lambda>res w. quota_inv tr r d T t k w \<and>
       (\<forall>rs. res = Inr (Some rs) \<longrightarrow> (\<forall>x\<in>set rs. throttled r t x)))"
proof (cases cached)
  case None
  have "triple E (quota_inv tr r d T t k)
      (matchE (query_enabled_rules_by_product p)
         (\<lambda>rules. bindE (set_rules p rules) (\<lambda>_. ret (Some rules))) (\<lambda>_. ret None))
      (\<lambda>res w. quota_inv tr r d T t k w \<and>
         (\<forall>rs. res = Inr (Some rs) \<longrightarrow> (\<forall>x\<in>set rs. throttled r t x)))"
    by (rule triple_matchE, rule load_rules_throttled(2), rule triple_pure, rule triple_bindE,
        rule load_rules_throttled(3)) (auto intro: triple_ret)
  then show ?thesis using None by simp
qed (use assms in \<open>auto intro: triple_ret\<close>)

lemma keeps_engine:
  assumes "\<And>rule. throttled r t rule \<Longrightarrow> keeps E (quota_inv tr r d T t k) (process_rule ops repo ctx rule :: ('s, 'e, unit) io)"
    and "\<And>rule. keeps E (quota_inv tr r d T t k) (clear_rule ops ctx rule :: ('s, 'e, unit) io)"
  shows "keeps E (quota_inv tr r d T t k) (evaluate_and_trigger ops repo ctx :: ('s, 'e, unit) io)"
  unfolding evaluate_and_trigger_def
proof (rule triple_bindE [OF load_rules_throttled(1)], rule triple_pure,
    rule triple_bindE [OF load_or_query_throttled])
  fix loaded :: "alarm_rule list option"
  show "triple E
    (\<lambda>w. quota_inv tr r d T t k w \<and> (\<forall>rs. Inr loaded = Inr (Some rs) \<longrightarrow> (\<forall>x\<in>set rs. throttled r t x)))
    (case loaded of None \<Rightarrow> ret ()
     | Some rules \<Rightarrow> bindE (forE rules (process_rule ops repo ctx) :: ('s, 'e, unit) io) (\<lambda>_.
         if ctx_trigger_type ctx = Property then forE rules (clear_rule ops ctx) else ret ()))
    (\<lambda>_. quota_inv tr r d T t k)"
    by (rule triple_pure) (intro triple_intros assms, simp)
qed auto

context throttle_store
begin

abbreviation qinv where "qinv \<equiv> quota_inv triggered_at"

lemma dedup_frees_window:
  assumes "t \<le> t'" and n: "T \<le> n" "n < T + t * ns_per_min"
  shows "triple E (qinv r d T t k) (check_dedup ops r d t' n)
     (\<lambda>res w. qinv r d T t k w \<and> (res = Inr False \<longrightarrow> unused r d t k w))"
proof -
  have "st_check_dedup ops r d t' n s"
    if "T \<le> m" "m < T + t * ns_per_min" "triggered_at s r d = Some m" for s m
    using that n by (intro check_suppresses [OF \<open>t \<le> t'\<close>]) auto
  then show ?thesis
    by (auto simp: triple_def check_dedup_def store_call_def quota_defs)
qed

lemma mark_spends_window:
  assumes "ri = r" "dv = d" and thr: "t \<le> thr"
  shows "triple (in_window T t) (unused r d t k) (mark_triggered ops ri dv thr)
    (\<lambda>_. spent triggered_at r d T t k)"
  unfolding mark_triggered_def
proof (rule triple_bindE, rule triple_now_window)
  show "triple (in_window T t)
     (\<lambda>w. unused r d t k w \<and> (\<exists>n. Inr x = Inr n \<and> T \<le> n \<and> n < T + t * ns_per_min))
     (store_call (st_mark_triggered ops ri dv thr x)) (\<lambda>_. spent triggered_at r d T t k)" for x
    using assms(1, 2) mark_own [OF thr, of _ r d]
    by (auto simp: triple_def store_call_def quota_defs split: prod.splits)
      (metis snd_conv)
qed simp_all

lemma keeps_fire:
  assumes "ar_id rule = r" "ctx_device_id ctx = d" "t \<le> ar_throttle_minutes rule"
  shows "triple (in_window T t) (unused r d t k) (fire_rule ops repo rule ctx)
    (\<lambda>_. qinv r d T t k)"
  unfolding fire_rule_def ignoreE_def
  by (rule triple_bindE, rule mark_spends_window [OF assms], rule triple_matchE,
      rule triple_execute_spent, intro triple_ret, assumption, intro triple_ret, assumption)
    (auto simp: quota_defs)

lemma keeps_store_frame:
  assumes "\<And>s. triggered_at (snd (f s)) r d = triggered_at s r d"
  shows "keeps E (qinv r d T t k) (store_call f)"
  using assms by (auto simp: triple_def store_call_def quota_defs split: prod.splits)
    (metis snd_conv)+

lemma keeps_other_mark:
  "(ri, dv) \<noteq> (r, d) \<Longrightarrow> keeps E (qinv r d T t k) (mark_triggered ops ri dv thr)"
  unfolding mark_triggered_def
  by (intro triple_intros keeps_store_frame keeps_view frame_intros)
    (auto simp: mark_other)

lemma keeps_reset: "keeps E (qinv r d T t k) (reset_duration ops ri dv)"
  unfolding reset_duration_def by (rule keeps_store_frame) (simp add: reset_duration_other)

lemma keeps_gate: "keeps E (qinv r d T t k) (duration_gate ops tt rule ctx)"
  unfolding duration_gate_def check_duration_def
  by (intro triple_intros keeps_store_frame keeps_view frame_intros)
    (simp add: check_duration_other)

lemma keeps_dedup_fire:
  assumes "throttled r t rule"
  shows "keeps (in_window T t) (qinv r d T t k)
    (bindE now_utc (\<lambda>n. bindE (check_dedup ops (ar_id rule) (ctx_device_id ctx)
       (ar_throttle_minutes rule) n) (\<lambda>dup. if dup then ret () else fire_rule ops repo rule ctx)))"
proof (cases "(ar_id rule, ctx_device_id ctx) = (r, d)")
  case True
  with assms have thr: "t \<le> ar_throttle_minutes rule" by (simp add: throttled_def)
  have "triple (in_window T t) (\<lambda>w. qinv r d T t k w \<and>
      (\<exists>m. (Inr n :: 'z + instant) = Inr m \<and> T \<le> m \<and> m < T + t * ns_per_min))
    (bindE (check_dedup ops r d (ar_throttle_minutes rule) n)
       (\<lambda>dup. if dup then ret () else fire_rule ops repo rule ctx)) (\<lambda>_. qinv r d T t k)" for n
  proof (rule triple_pure, elim exE conjE)
    fix m assume "(Inr n :: 'z + instant) = Inr m" "T \<le> m" "m < T + t * ns_per_min"
    then have n: "T \<le> n" "n < T + t * ns_per_min" by simp_all
    show "triple (in_window T t) (qinv r d T t k)
      (bindE (check_dedup ops r d (ar_throttle_minutes rule) n)
         (\<lambda>dup. if dup then ret () else fire_rule ops repo rule ctx)) (\<lambda>_. qinv r d T t k)"
      using True thr keeps_fire [of rule r ctx d k repo]
      by (intro triple_bindE [OF dedup_frees_window [OF thr n]])
        (auto intro: triple_ret triple_conseq)
  qed
  then show ?thesis using True
    by (intro triple_bindE [OF triple_now_window]) simp_all
next
  case False
  then show ?thesis unfolding check_dedup_def fire_rule_def
    by (intro triple_intros keeps_store_frame keeps_other_mark keeps_view frame_intros) simp_all
qed

lemma keeps_process_rule:
  "throttled r t rule \<Longrightarrow> keeps (in_window T t) (qinv r d T t k) (process_rule ops repo ctx rule)"
  unfolding process_rule_def
  by (intro triple_intros keeps_reset keeps_gate keeps_dedup_fire)

lemma keeps_clear_rule: "keeps E (qinv r d T t k) (clear_rule ops ctx rule)"
  unfolding clear_rule_def query_active_alarms_for_clear_def
  by (intro triple_intros keeps_reset keeps_view frame_intros)

lemma keeps_evaluate_and_trigger:
  "keeps (in_window T t) (qinv r d T t k) (evaluate_and_trigger ops repo ctx)"
  by (rule keeps_engine) (intro keeps_process_rule keeps_clear_rule, assumption?)+

lemma at_most_one_alarm:
  fixes w :: "'s world" and res :: "'e + unit"
  assumes "rules_throttled r t w" and "in_window T t env"
    and run: "forE ctxs (evaluate_and_trigger ops repo) env w = (res, w')"
  shows "alarm_count r d (db w') \<le> Suc (alarm_count r d (db w))"
proof -
  have tr: "triple (in_window T t) (qinv r d T t (alarm_count r d (db w)))
      (forE ctxs (evaluate_and_trigger ops repo) :: ('s, 'e, unit) io)
      (\<lambda>_. qinv r d T t (alarm_count r d (db w)))"
    by (intro triple_intros keeps_evaluate_and_trigger)
  have pre: "qinv r d T t (alarm_count r d (db w)) w"
    using assms(1) by (simp add: quota_inv_def quota_def)
  from tripleD [OF tr assms(2) pre run] show ?thesis
    unfolding quota_inv_def quota_def by linarith
qed

end

section \<open>Properties\<close>

text \<open>
  C1. Throttling of the engine. Let every stored and cached version of rule \<open>r\<close> have a throttle
  of at least \<open>t\<close> minutes. Then any sequence of triggers (of any devices, products and types,
  with any rules loaded beside \<open>r\<close>) that runs within \<open>t\<close> minutes adds at most one alarm of
  rule \<open>r\<close> for a device, whatever database, webhook and cache calls fail on the way.
\<close>

theorem at_most_one_alarm_per_window:
  assumes "rules_throttled r t w" and "in_window T t env"
    and "forE ctxs (evaluate_and_trigger in_memory_ops repo) env w = (res, w')"
  shows "alarm_count r d (db w') \<le> Suc (alarm_count r d (db w))"
  using assms by (rule mem.throttle.at_most_one_alarm)

text \<open>A sample: one rule that watches a temperature, one report that matches it.\<close>

definition sample_rule :: alarm_rule where
  "sample_rule =
     \<lparr>ar_id = 1, ar_product_id = ''p'', ar_name = ''hot'', ar_description = None,
      ar_trigger_type = ''property'',
      ar_trigger_config = JObject [(''property_name'', JString ''temp'')],
      ar_condition = JObject [(''operator'', JString ''>''), (''value'', JNumber (PosInt 80))],
      ar_actions = JArray [JObject [(''type'', JString ''alarm''), (''level'', JString ''critical'')]],
      ar_enabled = True, ar_throttle_minutes = 5, ar_duration_minutes = 0,
      ar_clear_condition = Some (JObject [(''operator'', JString ''<''), (''value'', JNumber (PosInt 70))]),
      ar_created_at = 0, ar_updated_at = 0\<rparr>"

definition sample_ctx :: "nat \<Rightarrow> trigger_context" where
  "sample_ctx temp =
     \<lparr>ctx_product_id = ''p'', ctx_device_id = ''dev'', ctx_trigger_type = Property,
      ctx_trigger_value = JObject [(''temp'', JNumber (PosInt temp))]\<rparr>"

definition sample_repo :: alarm_repo where
  "sample_repo = \<lparr>webhook_max_retries = 3, webhook_retry_interval_seconds = 60\<rparr>"

definition sample_world :: "in_memory_store world" where
  "sample_world =
     \<lparr>tick = 0, db = empty_db\<lparr>alarm_rules := [sample_rule]\<rparr>, cached_rules = Map.empty,
      state_store = in_memory_new, schema_cache = Map.empty, webhooks_posted = [], published = [], spawned = []\<rparr>"

theorem at_most_one_alarm_per_window_witness:
  "alarm_count 1 ''dev'' (db (snd
     ((forE [sample_ctx 90, sample_ctx 95] (evaluate_and_trigger in_memory_ops sample_repo)
        :: (_, unit, _) io) all_done sample_world))) \<le> Suc (alarm_count 1 ''dev'' (db sample_world))"
  by (rule at_most_one_alarm_per_window [where t = 5 and T = 0 and env = all_done, OF _ _ prod.collapse [symmetric]])
    (simp_all add: rules_throttled_def throttled_def sample_world_def sample_rule_def
      in_window_def all_done_def ns_per_min_def ns_per_sec_def)

end
