(* ===== verification/Engine_Behaviour.thy ===== *)
theory Engine_Behaviour
  imports Engine_Throttle
begin

text \<open>
  What the rule engine does to the alarm table, call by call: the row an execution of actions
  leaves for every pattern of failing calls, when a rule fires, what a clear condition clears,
  and that the engine as a whole keeps the alarm table's invariant.
\<close>

section \<open>Executing actions\<close>

definition new_alarm ::
  "json list \<Rightarrow> trigger_context \<Rightarrow> int \<Rightarrow> string \<Rightarrow> int \<Rightarrow> instant \<Rightarrow> alarm_record" where
  "new_alarm actions ctx rule_id rule_name i now =
     (let (level, msg) = (case find_alarm_action (parse_actions actions) of
                            Some lm \<Rightarrow> lm | None \<Rightarrow> (0, []))
      in \<lparr>al_id = i, al_rule_id = rule_id, al_rule_name = rule_name,
          al_product_id = ctx_product_id ctx, al_device_id = ctx_device_id ctx,
          al_level = level, al_message = (if msg = [] then None else Some msg),
          al_trigger_value = Some (ctx_trigger_value ctx), al_acknowledged = False,
          al_status = ''active'', al_webhook_status = None,
          al_trigger_type = trigger_type_as_str (ctx_trigger_type ctx),
          al_webhook_retries_left = 0, al_webhook_next_retry_at = None,
          al_created_at = now, al_cleared_at = None\<rparr>)"

abbreviation webhook_urls :: "json list \<Rightarrow> string list" where
  "webhook_urls actions \<equiv> List.map_filter webhook_url (parse_actions actions)"

definition any_failed :: "env \<Rightarrow> nat \<Rightarrow> nat \<Rightarrow> bool" where
  "any_failed env n k \<longleftrightarrow> (\<exists>i<k. net_outcome_at env (n + i) \<noteq> Done)"

lemma any_failed_0 [simp]: "\<not> any_failed env n 0"
  by (simp add: any_failed_def)

lemma any_failed_Suc:
  "any_failed env n (Suc k) \<longleftrightarrow> net_outcome_at env n \<noteq> Done \<or> any_failed env (Suc n) k"
  by (auto simp: any_failed_def less_Suc_eq_0_disj)

lemma send_all_webhooks_run:
  "\<exists>ps. send_all_webhooks urls payload b env w =
     (Inr (b \<or> any_failed env (tick w) (length urls)),
      w\<lparr>tick := tick w + length urls, webhooks_posted := ps\<rparr>)"
proof (induction urls arbitrary: b w)
  case Nil
  have "w\<lparr>tick := tick w, webhooks_posted := webhooks_posted w\<rparr> = w" by simp
  then show ?case by (auto simp: ret_def intro!: exI [of _ "webhooks_posted w"])
next
  case (Cons url urls)
  define w1 where "w1 = snd (send_webhook url payload env w)"
  have w1: "\<exists>ps. w1 = w\<lparr>tick := Suc (tick w), webhooks_posted := ps\<rparr>"
    unfolding w1_def send_webhook_def net_call_def ext_call_def Let_def
    by (cases "net_outcome_at env (tick w)")
      (auto intro: exI [of _ "webhooks_posted w"])
  have "send_webhook url payload env w =
      (if net_outcome_at env (tick w) = Done then Inr () else Inl CallFailed, w1)"
    unfolding w1_def send_webhook_def net_call_def ext_call_def Let_def
    by (cases "net_outcome_at env (tick w)") auto
  with w1 Cons [of b w1] Cons [of True w1] show ?case
    by (cases "net_outcome_at env (tick w)")
      (auto simp: matchE_def any_failed_Suc)
qed

definition set_webhook ::
  "int option \<Rightarrow> int \<Rightarrow> instant option \<Rightarrow> alarm_record \<Rightarrow> alarm_record" where
  "set_webhook ws retries nxt a =
     a\<lparr>al_webhook_status := ws, al_webhook_retries_left := retries, al_webhook_next_retry_at := nxt\<rparr>"

text \<open>
  The row after the actions ran, from the number of the insert call: the webhooks are the next
  calls, then (only after a failure) a clock read, then the status update, which may be lost.
\<close>

definition recorded_alarm ::
  "alarm_repo \<Rightarrow> env \<Rightarrow> nat \<Rightarrow> nat \<Rightarrow> alarm_record \<Rightarrow> alarm_record" where
  "recorded_alarm repo env n k a =
     (if k = 0 then a
      else if any_failed env (Suc n) k then
        (if no_effect (outcome_at env (n + k + 2)) then a
         else set_webhook (Some 1) (webhook_max_retries repo)
           (Some (now_at env (n + k + 1) + webhook_retry_interval_seconds repo * ns_per_sec)) a)
      else if no_effect (outcome_at env (n + k + 1)) then a
      else set_webhook (Some 0) 0 None a)"

lemma update_where_last:
  "(\<And>a. a \<in> set xs \<Longrightarrow> \<not> P a) \<Longrightarrow> P x \<Longrightarrow> update_where P f (xs @ [x]) = xs @ [f x]"
  by (induction xs) (auto simp: update_where_def)

definition executed_alarms ::
  "alarm_repo \<Rightarrow> env \<Rightarrow> nat \<Rightarrow> nat \<Rightarrow> alarm_record \<Rightarrow> alarm_record list" where
  "executed_alarms repo env n k a =
     (case outcome_at env n of
        Done \<Rightarrow> [recorded_alarm repo env n k a]
      | Unacked \<Rightarrow> [a]
      | _ \<Rightarrow> [])"

definition fresh_alarm_ids :: "database \<Rightarrow> bool" where
  "fresh_alarm_ids d \<longleftrightarrow> (\<forall>a\<in>set (alarms d). al_id a < next_alarm_id d)"

lemma wf_alarms_fresh: "wf_alarms repo d \<Longrightarrow> fresh_alarm_ids d"
  by (simp add: wf_alarms_def fresh_alarm_ids_def)

lemma insert_alarm_run:
  "insert_alarm ri rn p dv l m tv tt env w =
     (let (i, D) = insert_alarm_sql ri rn p dv l m tv tt (now_at env (tick w)) (db w);
          w1 = w\<lparr>tick := Suc (tick w)\<rparr>
      in case outcome_at env (tick w) of
           Done \<Rightarrow> (Inr i, w1\<lparr>db := D\<rparr>)
         | Unacked \<Rightarrow> (Inl CallFailed, w1\<lparr>db := D\<rparr>)
         | _ \<Rightarrow> (Inl CallFailed, w1))"
  by (simp add: insert_alarm_def db_exec_def ext_call_def Let_def split: prod.split outcome.split)

lemma update_status_run:
  "snd (ignoreE (update_alarm_webhook_status i ws) env w) =
     (let w1 = w\<lparr>tick := Suc (tick w)\<rparr>
      in if no_effect (outcome_at env (tick w)) then w1
         else w1\<lparr>db := snd (update_alarm_webhook_status_sql i ws 0 (db w))\<rparr>)"
  "snd (ignoreE (update_alarm_webhook_status_with_retry i ws n nxt) env w) =
     (let w1 = w\<lparr>tick := Suc (tick w)\<rparr>
      in if no_effect (outcome_at env (tick w)) then w1
         else w1\<lparr>db := snd (update_alarm_webhook_status_with_retry_sql i ws n nxt 0 (db w))\<rparr>)"
  by (cases "outcome_at env (tick w)";
      simp add: update_alarm_webhook_status_def update_alarm_webhook_status_with_retry_def
        db_exec_def ext_call_def alarm_sql_defs update_alarms_def prog_simps Let_def no_effect_def)+

lemma alarms_update_last:
  assumes "fresh_alarm_ids d" "al_id a = next_alarm_id d"
  shows "alarms (snd (update_alarms (\<lambda>a. al_id a = next_alarm_id d) f
      (d\<lparr>alarms := alarms d @ [a], next_alarm_id := n\<rparr>))) = alarms d @ [f a]"
  using assms by (auto simp: update_alarms_def fresh_alarm_ids_def intro!: update_where_last)

text \<open>The second half of \<open>execute_actions\<close>, after the insert.\<close>

definition report_webhooks ::
  "alarm_repo \<Rightarrow> string list \<Rightarrow> json \<Rightarrow> int \<Rightarrow> ('s, io_error, unit) io" where
  "report_webhooks repo urls payload alarm_id =
     (if urls \<noteq> [] then
        bindE (send_all_webhooks urls payload False) (\<lambda>any_webhook_failed.
          if any_webhook_failed then
            bindE now_utc (\<lambda>n.
              ignoreE (update_alarm_webhook_status_with_retry alarm_id 1 (webhook_max_retries repo)
                (Some (n + webhook_retry_interval_seconds repo * ns_per_sec))))
          else ignoreE (update_alarm_webhook_status alarm_id 0))
      else ret ())"

lemma report_webhooks_alarms:
  assumes "fresh_alarm_ids D" and id: "al_id a = next_alarm_id D"
    and blank: "al_webhook_retries_left a = 0" "al_webhook_next_retry_at a = None"
    and w: "db w = D\<lparr>alarms := alarms D @ [a], next_alarm_id := j\<rparr>" and n: "tick w = Suc n"
  shows "alarms (db (snd (report_webhooks repo urls payload (al_id a) env w))) =
    alarms D @ [recorded_alarm repo env n (length urls) a]"
proof -
  obtain ps where send: "(send_all_webhooks urls payload False :: (_, io_error, _) io) env w =
      (Inr (any_failed env (Suc n) (length urls)),
       w\<lparr>tick := Suc n + length urls, webhooks_posted := ps\<rparr>)"
    using send_all_webhooks_run [of urls payload False env w] n by auto
  have same: "a\<lparr>al_webhook_status := ws, al_webhook_retries_left := 0,
      al_webhook_next_retry_at := None\<rparr> = a\<lparr>al_webhook_status := ws\<rparr>" for ws
    using blank by simp
  show ?thesis
    using alarms_update_last [OF assms(1) id, of _ j]
    by (simp add: report_webhooks_def bindE_def send w id recorded_alarm_def now_utc_def ret_def
        update_status_run alarm_sql_defs Let_def same set_webhook_def)
qed

lemma insert_new_alarm:
  assumes "(case find_alarm_action (parse_actions actions) of Some lm \<Rightarrow> lm | None \<Rightarrow> (0, [])) = (level, msg)"
  shows "snd (insert_alarm_sql ri rn (ctx_product_id ctx) (ctx_device_id ctx) level
      (if msg = [] then None else Some msg) (Some (ctx_trigger_value ctx))
      (trigger_type_as_str (ctx_trigger_type ctx)) now D) =
    D\<lparr>alarms := alarms D @ [new_alarm actions ctx ri rn (next_alarm_id D) now],
      next_alarm_id := next_alarm_id D + 1\<rparr>"
  using assms by (simp add: insert_alarm_sql_def new_alarm_def Let_def)

lemma execute_actions_alarms:
  assumes "fresh_alarm_ids (db w)"
  shows "alarms (db (snd (execute_actions repo actions ctx ri rn env w))) = alarms (db w) @
    executed_alarms repo env (tick w) (length (webhook_urls actions))
      (new_alarm actions ctx ri rn (next_alarm_id (db w)) (now_at env (tick w)))"
proof -
  let ?row = "new_alarm actions ctx ri rn (next_alarm_id (db w)) (now_at env (tick w))"
  obtain level msg where lm: "(case find_alarm_action (parse_actions actions) of
      Some lm \<Rightarrow> lm | None \<Rightarrow> (0, [])) = (level, msg)" by (rule prod.exhaust)
  let ?ins = "insert_alarm ri rn (ctx_product_id ctx) (ctx_device_id ctx) level
      (if msg = [] then None else Some msg) (Some (ctx_trigger_value ctx))
      (trigger_type_as_str (ctx_trigger_type ctx))"
  let ?w1 = "w\<lparr>tick := Suc (tick w)\<rparr>"
  let ?D = "(db w)\<lparr>alarms := alarms (db w) @ [?row], next_alarm_id := next_alarm_id (db w) + 1\<rparr>"
  have run: "execute_actions repo actions ctx ri rn = bindE ?ins
      (report_webhooks repo (webhook_urls actions)
        (webhook_payload rn (ctx_product_id ctx) (ctx_device_id ctx)
          (trigger_type_as_str (ctx_trigger_type ctx)) (ctx_trigger_value ctx)))"
    unfolding execute_actions_def report_webhooks_def [abs_def] Let_def lm by simp
  have row: "al_id ?row = next_alarm_id (db w)" "al_webhook_retries_left ?row = 0"
    "al_webhook_next_retry_at ?row = None"
    by (simp_all add: new_alarm_def split: prod.split)
  have ins: "?ins env w = (case outcome_at env (tick w) of
      Done \<Rightarrow> (Inr (al_id ?row), ?w1\<lparr>db := ?D\<rparr>)
    | Unacked \<Rightarrow> (Inl CallFailed, ?w1\<lparr>db := ?D\<rparr>) | _ \<Rightarrow> (Inl CallFailed, ?w1))"
    using insert_new_alarm [OF lm, of ri rn ctx "now_at env (tick w)" "db w"]
    by (simp add: insert_alarm_run row Let_def case_prod_beta insert_alarm_sql_def split: outcome.split)
  show ?thesis
    using report_webhooks_alarms [OF assms row, of "?w1\<lparr>db := ?D\<rparr>"]
    by (cases "outcome_at env (tick w)") (simp_all add: run bindE_def ins executed_alarms_def)
qed

section \<open>When a rule fires\<close>

definition rule_matches :: "trigger_context \<Rightarrow> alarm_rule \<Rightarrow> bool" where
  "rule_matches ctx rule \<longleftrightarrow>
     trigger_type_from_str (ar_trigger_type rule) = Some (ctx_trigger_type ctx) \<and>
     (case rule_actual_value (ctx_trigger_type ctx) rule ctx of
        None \<Rightarrow> False
      | Some v \<Rightarrow> evaluate (ar_condition rule) v)"

definition gated :: "trigger_context \<Rightarrow> alarm_rule \<Rightarrow> bool" where
  "gated ctx rule \<longleftrightarrow> ctx_trigger_type ctx = Property \<and> 0 < ar_duration_minutes rule"

definition gate_ticks :: "trigger_context \<Rightarrow> alarm_rule \<Rightarrow> nat" where
  "gate_ticks ctx rule = (if gated ctx rule then 1 else 0)"

definition sustained ::
  "('s \<Rightarrow> int \<Rightarrow> string \<Rightarrow> instant option) \<Rightarrow> instant \<Rightarrow> trigger_context \<Rightarrow> alarm_rule \<Rightarrow> 's \<Rightarrow> bool" where
  "sustained tracking_since now ctx rule s \<longleftrightarrow>
     (gated ctx rule \<longrightarrow>
        (case tracking_since s (ar_id rule) (ctx_device_id ctx) of
           None \<Rightarrow> False
         | Some m \<Rightarrow> m + ar_duration_minutes rule * ns_per_min \<le> now))"

definition in_throttle_window ::
  "('s \<Rightarrow> int \<Rightarrow> string \<Rightarrow> instant option) \<Rightarrow> instant \<Rightarrow> trigger_context \<Rightarrow> alarm_rule \<Rightarrow> 's \<Rightarrow> bool" where
  "in_throttle_window triggered_at now ctx rule s \<longleftrightarrow>
     0 < ar_throttle_minutes rule \<and>
     (case triggered_at s (ar_id rule) (ctx_device_id ctx) of
        None \<Rightarrow> False
      | Some m \<Rightarrow> now < m + ar_throttle_minutes rule * ns_per_min)"

text \<open>
  The specification: the rule matches the trigger, its condition has held for the configured
  duration, and it did not fire for the device within the throttle window.
\<close>

definition rule_due ::
  "('s \<Rightarrow> int \<Rightarrow> string \<Rightarrow> instant option) \<Rightarrow> ('s \<Rightarrow> int \<Rightarrow> string \<Rightarrow> instant option) \<Rightarrow>
   env \<Rightarrow> trigger_context \<Rightarrow> alarm_rule \<Rightarrow> 's world \<Rightarrow> bool" where
  "rule_due triggered_at tracking_since env ctx rule w \<longleftrightarrow>
     rule_matches ctx rule \<and>
     sustained tracking_since (now_at env (tick w)) ctx rule (state_store w) \<and>
     \<not> in_throttle_window triggered_at (now_at env (tick w + gate_ticks ctx rule)) ctx rule
         (state_store w)"

abbreviation rule_action_list :: "alarm_rule \<Rightarrow> json list" where
  "rule_action_list rule \<equiv> (case as_array (ar_actions rule) of Some xs \<Rightarrow> xs | None \<Rightarrow> [])"

text \<open>The alarms a rule adds when it fires; \<open>n\<close> is the number of the insert call.\<close>

definition fired_alarms ::
  "alarm_repo \<Rightarrow> env \<Rightarrow> trigger_context \<Rightarrow> alarm_rule \<Rightarrow> nat \<Rightarrow> int \<Rightarrow> alarm_record list" where
  "fired_alarms repo env ctx rule n i =
     executed_alarms repo env n (length (webhook_urls (rule_action_list rule)))
       (new_alarm (rule_action_list rule) ctx (ar_id rule) (ar_name rule) i (now_at env n))"

lemma snd_ignoreE: "snd (ignoreE m env w) = snd (m env w)"
  by (simp add: ignoreE_def matchE_def ret_def split: prod.split sum.split)

lemma store_call_run:
  "store_call f env w = (Inr (fst (f (state_store w))), w\<lparr>state_store := snd (f (state_store w))\<rparr>)"
  by (simp add: store_call_def split: prod.split)

lemma fire_rule_alarms:
  assumes "fresh_alarm_ids (db w)"
  shows "alarms (db (snd (fire_rule ops repo rule ctx env w))) =
    alarms (db w) @ fired_alarms repo env ctx rule (Suc (tick w)) (next_alarm_id (db w))"
  using assms
  by (simp add: fire_rule_def mark_triggered_def bindE_def now_utc_def store_call_run snd_ignoreE
      execute_actions_alarms fired_alarms_def)

context rule_state_store
begin

lemma duration_gate_run:
  "\<exists>s. (duration_gate ops (ctx_trigger_type ctx) rule ctx :: ('s, 'e, bool) io) env w =
     (Inr (sustained tracking_since (now_at env (tick w)) ctx rule (state_store w)),
      w\<lparr>tick := tick w + gate_ticks ctx rule, state_store := s\<rparr>) \<and>
     triggered_at s = triggered_at (state_store w)"
proof (cases "gated ctx rule")
  case True
  let ?n = "now_at env (tick w)"
  let ?res = "st_check_duration ops (ar_id rule) (ctx_device_id ctx) (ar_duration_minutes rule) ?n
    (state_store w)"
  have "triggered_at (snd ?res) = triggered_at (state_store w)"
    by (intro ext) (simp add: check_duration_frame)
  with True show ?thesis
    by (intro exI [of _ "snd ?res"])
      (auto simp: duration_gate_def gated_def gate_ticks_def bindE_def now_utc_def ret_def
        sustained_def check_duration_def store_call_run check_duration_result split: option.split)
next
  case False
  then show ?thesis
    by (intro exI [of _ "state_store w"])
      (auto simp: duration_gate_def sustained_def gated_def gate_ticks_def ret_def)
qed

lemma dedup_is_window:
  "st_check_dedup ops (ar_id rule) (ctx_device_id ctx) (ar_throttle_minutes rule) now s =
     in_throttle_window triggered_at now ctx rule s"
  by (auto simp: check_dedup_spec in_throttle_window_def split: option.split)

lemma in_window_cong:
  "triggered_at s = triggered_at s' \<Longrightarrow>
   in_throttle_window triggered_at now ctx rule s = in_throttle_window triggered_at now ctx rule s'"
  by (simp add: in_throttle_window_def)

lemma process_rule_alarms:
  fixes w :: "'s world"
  assumes fresh: "fresh_alarm_ids (db w)"
  shows "alarms (db (snd ((process_rule ops repo ctx rule :: ('s, 'e, unit) io) env w))) =
    alarms (db w) @
    (if rule_due triggered_at tracking_since env ctx rule w
     then fired_alarms repo env ctx rule (tick w + gate_ticks ctx rule + 2) (next_alarm_id (db w))
     else [])"
proof (cases "rule_matches ctx rule")
  case False
  then have "\<not> rule_due triggered_at tracking_since env ctx rule w" by (simp add: rule_due_def)
  with False show ?thesis
    by (auto simp: process_rule_def rule_matches_def ret_def bindE_def reset_duration_def
        store_call_run split: option.splits)
next
  case True
  obtain s where gate: "(duration_gate ops (ctx_trigger_type ctx) rule ctx :: ('s, 'e, bool) io) env w =
     (Inr (sustained tracking_since (now_at env (tick w)) ctx rule (state_store w)),
      w\<lparr>tick := tick w + gate_ticks ctx rule, state_store := s\<rparr>)"
    and s: "triggered_at s = triggered_at (state_store w)"
    using duration_gate_run by metis
  from True obtain v where v: "rule_actual_value (ctx_trigger_type ctx) rule ctx = Some v"
    "evaluate (ar_condition rule) v"
    "trigger_type_from_str (ar_trigger_type rule) = Some (ctx_trigger_type ctx)"
    by (auto simp: rule_matches_def split: option.splits)
  show ?thesis
    by (simp add: process_rule_def v bindE_def gate rule_due_def True ret_def now_utc_def
        check_dedup_def store_call_run dedup_is_window in_window_cong [OF s] fire_rule_alarms fresh)
qed

end

section \<open>Clearing\<close>

definition clear_due :: "trigger_context \<Rightarrow> alarm_rule \<Rightarrow> bool" where
  "clear_due ctx rule \<longleftrightarrow>
     ar_trigger_type rule = ''property'' \<and>
     (case (ar_clear_condition rule,
            Option.bind (Option.bind (json_get (ar_trigger_config rule) ''property_name'') as_str)
              (extract_property_value (ctx_trigger_value ctx))) of
        (Some cc, Some v) \<Rightarrow> evaluate cc v
      | _ \<Rightarrow> False)"

lemma clear_due_iff:
  "clear_due ctx rule \<longleftrightarrow>
     ar_trigger_type rule = ''property'' \<and>
     (\<exists>cc pn v. ar_clear_condition rule = Some cc \<and>
       Option.bind (json_get (ar_trigger_config rule) ''property_name'') as_str = Some pn \<and>
       extract_property_value (ctx_trigger_value ctx) pn = Some v \<and> evaluate cc v)"
  unfolding clear_due_def
  by (cases "ar_clear_condition rule";
      cases "Option.bind (json_get (ar_trigger_config rule) ''property_name'') as_str")
    (auto split: option.split)

text \<open>A cleared row, and what clearing the rows with the given ids does to one row.\<close>

definition cleared_row :: "instant \<Rightarrow> alarm_record \<Rightarrow> alarm_record" where
  "cleared_row now a = a\<lparr>al_status := ''cleared'', al_cleared_at := Some now, al_acknowledged := True\<rparr>"

definition clears_rows :: "env \<Rightarrow> int set \<Rightarrow> (alarm_record \<Rightarrow> alarm_record) \<Rightarrow> bool" where
  "clears_rows env ids g \<longleftrightarrow>
     (\<forall>a. if al_id a \<in> ids \<and> al_status a \<noteq> ''cleared'' then \<exists>n. g a = cleared_row (now_at env n) a else g a = a)"

lemma clears_rows_Cons:
  assumes "clears_rows env ids g"
    and "h = (\<lambda>a. if al_id a = i \<and> al_status a \<noteq> ''cleared'' then cleared_row (now_at env n) a else a)"
  shows "clears_rows env (insert i ids) (g \<circ> h)"
  unfolding clears_rows_def
proof
  fix a
  have cleared: "g (cleared_row t a) = cleared_row t a" for t
    using assms(1) [unfolded clears_rows_def, rule_format, of "cleared_row t a"] by (simp add: cleared_row_def)
  show "if al_id a \<in> insert i ids \<and> al_status a \<noteq> ''cleared'' then \<exists>n. (g \<circ> h) a = cleared_row (now_at env n) a
      else (g \<circ> h) a = a"
    using assms(1) [unfolded clears_rows_def, rule_format, of a] cleared by (auto simp: assms(2))
qed

lemma clear_alarms_run:
  fixes w :: "'s world"
  assumes "reliable env"
  shows "\<exists>n g. (forE xs (\<lambda>a. ignoreE (clear_alarm (al_id a))) :: ('s, 'e, unit) io) env w =
      (Inr (), w\<lparr>tick := n, db := (db w)\<lparr>alarms := map g (alarms (db w))\<rparr>\<rparr>) \<and> clears_rows env (al_id ` set xs) g"
proof (induction xs arbitrary: w)
  case Nil
  have "w = w\<lparr>tick := tick w, db := (db w)\<lparr>alarms := map (\<lambda>a. a) (alarms (db w))\<rparr>\<rparr>" by simp
  then show ?case
    by (intro exI [of _ "tick w"] exI [of _ "\<lambda>a. a"]) (simp add: ret_def clears_rows_def)
next
  case (Cons x xs)
  define h :: "alarm_record \<Rightarrow> alarm_record" where
    "h = (\<lambda>a. if al_id a = al_id x \<and> al_status a \<noteq> ''cleared'' then cleared_row (now_at env (tick w)) a else a)"
  let ?w1 = "w\<lparr>tick := Suc (tick w), db := (db w)\<lparr>alarms := map h (alarms (db w))\<rparr>\<rparr>"
  have "snd (clear_alarm_sql (al_id x) (now_at env (tick w)) (db w)) = (db w)\<lparr>alarms := map h (alarms (db w))\<rparr>"
    by (simp add: clear_alarm_sql_def update_alarms_def update_where_def h_def cleared_row_def cong: if_cong)
  then have step: "(ignoreE (clear_alarm (al_id x)) :: ('s, 'e, unit) io) env w = (Inr (), ?w1)"
    using assms by (simp add: clear_alarm_def ignoreE_def matchE_def db_exec_reliable ret_def case_prod_beta)
  obtain n g where run: "(forE xs (\<lambda>a. ignoreE (clear_alarm (al_id a))) :: ('s, 'e, unit) io) env ?w1 =
      (Inr (), ?w1\<lparr>tick := n, db := (db ?w1)\<lparr>alarms := map g (alarms (db ?w1))\<rparr>\<rparr>)"
    and g: "clears_rows env (al_id ` set xs) g"
    using Cons.IH [of ?w1] by blast
  from run step clears_rows_Cons [OF g h_def] show ?case
    by (intro exI [of _ n] exI [of _ "g \<circ> h"]) (simp only: forE.simps bindE_def list.set image_insert, simp)
qed

lemma clear_rule_not_due:
  "\<not> clear_due ctx rule \<Longrightarrow> db (snd (clear_rule ops ctx rule env w)) = db w"
  by (auto simp: clear_rule_def clear_due_iff query_active_alarms_for_clear_def matchE_def ret_def
      db_query_def db_exec_def ext_call_def Let_def split: option.splits outcome.splits)

lemma clear_rule_due:
  fixes w :: "'s world"
  assumes "reliable env" "clear_due ctx rule"
  shows "\<exists>g. db (snd ((clear_rule ops ctx rule :: ('s, 'e, unit) io) env w)) = (db w)\<lparr>alarms := map g (alarms (db w))\<rparr> \<and>
    clears_rows env (al_id ` set (active_alarms_for_clear (ar_id rule) (ctx_device_id ctx) (db w))) g"
proof (cases "active_alarms_for_clear (ar_id rule) (ctx_device_id ctx) (db w) = []")
  case True
  with assms show ?thesis
    by (auto simp: clear_rule_def clear_due_iff query_active_alarms_for_clear_def matchE_def ret_def
        db_query_reliable clears_rows_def intro!: exI [of _ "\<lambda>a. a"])
next
  case False
  let ?rows = "active_alarms_for_clear (ar_id rule) (ctx_device_id ctx) (db w)"
  obtain n g where run: "(forE ?rows (\<lambda>a. ignoreE (clear_alarm (al_id a))) :: ('s, 'e, unit) io) env
      (w\<lparr>tick := Suc (tick w)\<rparr>) = (Inr (), w\<lparr>tick := n, db := (db w)\<lparr>alarms := map g (alarms (db w))\<rparr>\<rparr>)"
    and "clears_rows env (al_id ` set ?rows) g"
    using clear_alarms_run [OF assms(1), of ?rows "w\<lparr>tick := Suc (tick w)\<rparr>"] by auto
  with False assms show ?thesis
    by (intro exI [of _ g])
      (auto simp: clear_rule_def clear_due_iff query_active_alarms_for_clear_def matchE_def ret_def
        db_query_reliable bindE_def reset_duration_def store_call_run)
qed

lemma steps_keep_alarm_table:
  assumes "steps_by (alarm_step repo) m" "0 \<le> webhook_max_retries repo" "wf_alarms repo (db w)"
    and "m env w = (r, w')"
  shows "wf_alarms repo (db w')"
  using steps_byD [OF assms(1,4)] assms(3)
  by (induction rule: rtranclp_induct) (auto intro: alarm_step_wf assms(2))

lemma sample_world_wf: "wf_alarms sample_repo (db sample_world)" "0 \<le> webhook_max_retries sample_repo"
  by (simp_all add: sample_world_def sample_repo_def wf_alarms_def empty_db_def)

lemma sample_rule_matches: "t < 2 ^ 53 \<Longrightarrow> rule_matches (sample_ctx t) sample_rule = (80 < t)"
  by (simp add: rule_matches_def sample_ctx_def sample_rule_def trigger_type_from_str_def
      extract_property_value_def rule_actual_value_def evaluate_nat_order(1))

lemma sample_clear_due: "t < 2 ^ 53 \<Longrightarrow> clear_due (sample_ctx t) sample_rule = (t < 70)"
  by (simp add: clear_due_def sample_ctx_def sample_rule_def extract_property_value_def
      evaluate_nat_order(2))

lemma alarm_step_rules: "alarm_step repo d d' \<Longrightarrow> alarm_rules d' = alarm_rules d"
  by (cases rule: alarm_step.cases)
    (auto simp: alarm_sql_defs update_alarms_def decrement_as_update)

section \<open>Properties\<close>

text \<open>
  C2. When a rule fires and what it records. In every environment, processing a rule on a
  trigger appends to the alarm table exactly the rows of \<open>fired_alarms\<close> if the rule is due
  (its trigger type and condition match the trigger, a property rule's condition has held for
  its duration, and the device is outside the throttle window), and nothing otherwise. The
  appended row carries the rule's first alarm action and the outcome of its webhooks: none
  configured, all delivered, or pending retry with the configured number of retries.
\<close>

theorem rule_fires_iff_due:
  fixes w :: "in_memory_store world"
  assumes "fresh_alarm_ids (db w)"
    and "(process_rule in_memory_ops repo ctx rule :: (_, 'e, unit) io) env w = (res, w')"
  shows "alarms (db w') = alarms (db w) @
    (if rule_due mem_triggered_at mem_tracking_since env ctx rule w
     then fired_alarms repo env ctx rule (tick w + gate_ticks ctx rule + 2) (next_alarm_id (db w))
     else [])"
  using mem.process_rule_alarms [OF assms(1), of repo ctx rule env] assms(2) by (metis snd_conv)

theorem rule_fires_iff_due_witness:
  "alarms (db (snd ((process_rule in_memory_ops sample_repo (sample_ctx 90) sample_rule
      :: (_, unit, unit) io) all_done sample_world))) =
   [new_alarm (rule_action_list sample_rule) (sample_ctx 90) 1 ''hot'' 1 0]"
proof -
  have "rule_matches (sample_ctx 90) sample_rule" by (simp add: sample_rule_matches)
  then have due: "rule_due mem_triggered_at mem_tracking_since all_done (sample_ctx 90) sample_rule sample_world"
    by (simp add: rule_due_def sustained_def gated_def in_throttle_window_def mem_triggered_at_def
        sample_rule_def sample_world_def in_memory_new_def)
  have hooks: "length (webhook_urls (rule_action_list sample_rule)) = 0"
    by (simp add: sample_rule_def parse_actions_def parse_action_def
        as_array_def as_object_def map_filter_simps webhook_url_def)
  have rows: "fired_alarms sample_repo all_done (sample_ctx 90) sample_rule 2 1 =
      [new_alarm (rule_action_list sample_rule) (sample_ctx 90) 1 ''hot'' 1 0]"
    unfolding fired_alarms_def hooks
    by (simp add: executed_alarms_def recorded_alarm_def all_done_def sample_rule_def)
  have start: "alarms (db sample_world) = []" "next_alarm_id (db sample_world) = 1"
    "tick sample_world + gate_ticks (sample_ctx 90) sample_rule + 2 = 2"
    by (simp_all add: sample_world_def empty_db_def gate_ticks_def gated_def sample_rule_def)
  have "fresh_alarm_ids (db sample_world)" by (simp add: fresh_alarm_ids_def start)
  from rule_fires_iff_due [OF this prod.collapse [symmetric], of sample_repo "sample_ctx 90" sample_rule all_done]
  show ?thesis by (simp only: due rows start if_True append_Nil)
qed

text \<open>
  C14. Clearing. When the clear condition of a property rule holds on a report and no database call
  fails, exactly the open (active or acknowledged) alarms of the rule for the device become cleared:
  each keeps its place and all its other fields, and gets the status \<open>cleared\<close>, the acknowledged mark and a
  clearing time read from the database clock during the run. All other alarms and all other tables are as
  before. When the condition does not hold the database is unchanged, whatever calls fail.
\<close>

theorem clear_condition_exact:
  fixes w :: "'s world"
  assumes "wf_alarms repo (db w)"
    and run: "(clear_rule ops ctx rule :: ('s, 'e, unit) io) env w = (res, w')"
  shows "(\<not> clear_due ctx rule \<longrightarrow> db w' = db w) \<and>
    (clear_due ctx rule \<and> reliable env \<longrightarrow>
      list_all2 (\<lambda>a b. if al_rule_id a = ar_id rule \<and> al_device_id a = ctx_device_id ctx \<and> al_status a \<in> {''active'', ''acknowledged''}
          then \<exists>n. b = a\<lparr>al_status := ''cleared'', al_cleared_at := Some (now_at env n), al_acknowledged := True\<rparr>
          else b = a) (alarms (db w)) (alarms (db w')) \<and>
      (db w')\<lparr>alarms := alarms (db w)\<rparr> = db w)"
proof (intro conjI impI; (elim conjE)?)
  assume "\<not> clear_due ctx rule"
  with clear_rule_not_due [of ctx rule ops env w] run show "db w' = db w" by (metis snd_conv)
next
  let ?rows = "active_alarms_for_clear (ar_id rule) (ctx_device_id ctx) (db w)"
  let ?open = "\<lambda>a. al_rule_id a = ar_id rule \<and> al_device_id a = ctx_device_id ctx \<and> al_status a \<in> {''active'', ''acknowledged''}"
  assume "clear_due ctx rule" "reliable env"
  with clear_rule_due [of env ctx rule ops w] run obtain g
    where w': "db w' = (db w)\<lparr>alarms := map g (alarms (db w))\<rparr>" and g: "clears_rows env (al_id ` set ?rows) g"
    by (metis snd_conv)
  then show "(db w')\<lparr>alarms := alarms (db w)\<rparr> = db w" by simp
  have ids: "al_id a \<in> al_id ` set ?rows \<longleftrightarrow> ?open a" if "a \<in> set (alarms (db w))" for a
    using assms(1) that
    by (auto simp: wf_alarms_def active_alarms_for_clear_def dest: inj_onD [OF distinct_map [THEN iffD1, THEN conjunct2]])
  have "if ?open a then \<exists>n. g a = cleared_row (now_at env n) a else g a = a" if "a \<in> set (alarms (db w))" for a
    using g [unfolded clears_rows_def, rule_format, of a] ids [OF that] by auto
  then show "list_all2 (\<lambda>a b. if ?open a
          then \<exists>n. b = a\<lparr>al_status := ''cleared'', al_cleared_at := Some (now_at env n), al_acknowledged := True\<rparr>
          else b = a) (alarms (db w)) (alarms (db w'))"
    unfolding w' cleared_row_def by (simp add: list_all2_conv_all_nth)
qed

definition open_alarm :: "int \<Rightarrow> string \<Rightarrow> alarm_record" where
  "open_alarm i device_id =
     \<lparr>al_id = i, al_rule_id = 1, al_rule_name = ''hot'', al_product_id = ''p'', al_device_id = device_id,
      al_level = 2, al_message = None, al_trigger_value = None, al_acknowledged = False,
      al_status = ''active'', al_webhook_status = None, al_trigger_type = ''property'',
      al_webhook_retries_left = 0, al_webhook_next_retry_at = None, al_created_at = 0, al_cleared_at = None\<rparr>"

definition two_alarms :: "in_memory_store world" where
  "two_alarms = sample_world\<lparr>db := (db sample_world)\<lparr>alarms := [open_alarm 1 ''dev'', open_alarm 2 ''other''],
     next_alarm_id := 3\<rparr>\<rparr>"

theorem clear_condition_exact_witness:
  "map (\<lambda>a. (al_id a, al_status a)) (alarms (db (snd ((clear_rule in_memory_ops (sample_ctx 60) sample_rule
     :: (_, unit, unit) io) all_done two_alarms)))) = [(1, ''cleared''), (2, ''active'')]"
proof -
  let ?w' = "snd ((clear_rule in_memory_ops (sample_ctx 60) sample_rule :: (_, unit, unit) io) all_done two_alarms)"
  have "wf_alarms sample_repo (db two_alarms)"
    by (simp add: two_alarms_def wf_alarms_def wf_alarm_def open_alarm_def sample_repo_def)
  note main = clear_condition_exact [where 'e = unit, OF this prod.collapse [symmetric], of "sample_ctx 60" sample_rule in_memory_ops all_done]
  have "list_all2 (\<lambda>a b. if al_rule_id a = ar_id sample_rule \<and> al_device_id a = ctx_device_id (sample_ctx 60) \<and>
          al_status a \<in> {''active'', ''acknowledged''}
          then \<exists>n. b = a\<lparr>al_status := ''cleared'', al_cleared_at := Some (now_at all_done n), al_acknowledged := True\<rparr>
          else b = a) (alarms (db two_alarms)) (alarms (db ?w'))"
    using main reliable_all_done sample_clear_due [of 60] by simp
  then show ?thesis
    by (auto simp: two_alarms_def open_alarm_def list_all2_Cons1 sample_rule_def sample_ctx_def)
qed

text \<open>
  The engine and the alarm table. Whatever calls fail, a run of the rule engine on a
  trigger keeps the alarm table well formed, loses no alarm and never moves one back in its
  life cycle, and leaves the rule table alone.
\<close>

theorem engine_keeps_alarm_table:
  fixes w :: "'s world"
  assumes "0 \<le> webhook_max_retries repo" and "wf_alarms repo (db w)"
    and run: "(evaluate_and_trigger ops repo ctx :: ('s, 'e, unit) io) env w = (res, w')"
  shows "wf_alarms repo (db w') \<and> alarm_rules (db w') = alarm_rules (db w) \<and>
    (\<forall>a\<in>set (alarms (db w)). \<exists>b\<in>set (alarms (db w')). alarm_advances a b)"
proof -
  have "(alarm_step repo)\<^sup>*\<^sup>* (db w) (db w')"
    using steps_evaluate_and_trigger run by (rule steps_byD)
  then show ?thesis
  proof (induction rule: rtranclp_induct)
    case base
    then show ?case using assms(2) alarm_advances_refl by blast
  next
    case (step y z)
    then show ?case
      using assms(1) alarm_step_wf [OF step(2)] alarm_step_advances [OF step(2)] alarm_step_rules [OF step(2)]
        alarm_advances_trans by (metis (no_types))
  qed
qed

theorem engine_keeps_alarm_table_witness:
  "wf_alarms sample_repo (db (snd ((evaluate_and_trigger in_memory_ops sample_repo (sample_ctx 90)
     :: (_, unit, unit) io) all_done sample_world)))"
proof -
  from engine_keeps_alarm_table [OF sample_world_wf(2,1) prod.collapse [symmetric]] show ?thesis by blast
qed

end
