(* ===== verification/Webhook_Retry.thy ===== *)
theory Webhook_Retry
  imports Engine_Behaviour
begin

text \<open>
  The background task of \<open>backend/src/main.rs\<close> that retries failed webhooks: one attempt for an
  alarm, one round over the alarms that are due, and the loop of rounds. A round gets its own
  environment, so that the time between rounds is explicit.
\<close>

definition retry_payload :: "alarm_record \<Rightarrow> json" where
  "retry_payload alarm =
     json_obj [(''rule_name'', JString (al_rule_name alarm)),
               (''product_id'', JString (al_product_id alarm)),
               (''device_id'', JString (al_device_id alarm)),
               (''trigger_type'', JString (al_trigger_type alarm)),
               (''trigger_value'', case al_trigger_value alarm of None \<Rightarrow> JNull | Some v \<Rightarrow> v)]"

definition retry_single_webhook :: "alarm_record \<Rightarrow> ('s, io_error, unit) io" where
  "retry_single_webhook alarm =
     bindE (get_rule_actions (al_rule_id alarm)) (\<lambda>actions_json.
       case actions_json of
         None \<Rightarrow> ret ()
       | Some actions_json \<Rightarrow>
           let actions_arr = (case as_array actions_json of Some xs \<Rightarrow> xs | None \<Rightarrow> []);
               parsed = parse_actions actions_arr;
               urls = List.map_filter webhook_url parsed
           in if urls = [] then ret ()
              else forE urls (\<lambda>url. send_webhook url (retry_payload alarm)))"

text \<open>The body of the loop over the pending alarms.\<close>

definition retry_alarm :: "alarm_repo \<Rightarrow> alarm_record \<Rightarrow> ('s, 'e, unit) io" where
  "retry_alarm repo alarm =
     matchE (retry_single_webhook alarm)
       (\<lambda>_. ignoreE (mark_webhook_success (al_id alarm)))
       (\<lambda>_. matchE (decrement_retry_and_schedule_next repo (al_id alarm))
          (\<lambda>remaining. case remaining of
             Some remaining \<Rightarrow>
               if remaining \<le> 0 then ignoreE (mark_webhook_final_failure (al_id alarm)) else ret ()
           | None \<Rightarrow> ret ())
          (\<lambda>_. ret ()))"

definition webhook_retry_round :: "alarm_repo \<Rightarrow> ('s, 'e, unit) io" where
  "webhook_retry_round repo =
     matchE query_pending_retries (\<lambda>pending. forE pending (retry_alarm repo)) (\<lambda>_. ret ())"

fun webhook_retry_task :: "alarm_repo \<Rightarrow> env list \<Rightarrow> 's world \<Rightarrow> 's world" where
  "webhook_retry_task repo [] w = w"
| "webhook_retry_task repo (env # envs) w =
     webhook_retry_task repo envs (snd ((webhook_retry_round repo :: ('s, unit, unit) io) env w))"

section \<open>Database effect\<close>

lemma steps_retry_single [steps_intros]: "steps_by R (retry_single_webhook alarm)"
  unfolding retry_single_webhook_def get_rule_actions_def by (intro steps_intros)

lemma steps_retry_alarm [steps_intros]: "steps_by (alarm_step repo) (retry_alarm repo alarm)"
  unfolding retry_alarm_def by (intro steps_intros)

lemma steps_retry_round [steps_intros]: "steps_by (alarm_step repo) (webhook_retry_round repo)"
  unfolding webhook_retry_round_def query_pending_retries_def by (intro steps_intros)

section \<open>One attempt\<close>

text \<open>What one attempt does to its row.\<close>

definition retry_outcome :: "int \<Rightarrow> instant \<Rightarrow> bool \<Rightarrow> alarm_record \<Rightarrow> alarm_record" where
  "retry_outcome interval now ok a =
     (if ok then set_webhook (Some 0) 0 None a
      else if al_webhook_retries_left a \<le> 1 then set_webhook (Some 2) 0 None a
      else a\<lparr>al_webhook_retries_left := al_webhook_retries_left a - 1,
             al_webhook_next_retry_at := Some (now + interval * ns_per_sec)\<rparr>)"

definition rule_webhooks :: "int \<Rightarrow> database \<Rightarrow> string list" where
  "rule_webhooks rule_id d =
     (case find (\<lambda>r. ar_id r = rule_id) (alarm_rules d) of
        None \<Rightarrow> []
      | Some r \<Rightarrow> webhook_urls (rule_action_list r))"

definition attempt_ok :: "env \<Rightarrow> 's world \<Rightarrow> alarm_record \<Rightarrow> bool" where
  "attempt_ok env w a \<longleftrightarrow>
     \<not> any_failed env (Suc (tick w)) (length (rule_webhooks (al_rule_id a) (db w)))"

lemma send_until_failure:
  "\<exists>n ps. forE urls (\<lambda>url. send_webhook url payload) env w =
     (if any_failed env (tick w) (length urls) then Inl CallFailed else Inr (),
      w\<lparr>tick := n, webhooks_posted := ps\<rparr>)"
proof (induction urls arbitrary: w)
  case Nil
  show ?case
    by (intro exI [of _ "tick w"] exI [of _ "webhooks_posted w"]) (simp add: ret_def)
next
  case (Cons url urls)
  show ?case
  proof (cases "net_outcome_at env (tick w)")
    case Done
    let ?w1 = "w\<lparr>tick := Suc (tick w), webhooks_posted := webhooks_posted w @ [(url, payload)]\<rparr>"
    have "send_webhook url payload env w = (Inr (), ?w1)"
      using Done by (simp add: send_webhook_def net_call_def ext_call_def Let_def)
    with Cons [of ?w1] Done show ?thesis by (auto simp: bindE_def any_failed_Suc)
  next
    case Refused
    then show ?thesis
      by (auto simp: bindE_def any_failed_Suc send_webhook_def net_call_def ext_call_def Let_def
          intro!: exI [of _ "Suc (tick w)"] exI [of _ "webhooks_posted w"])
  next
    case Rejected
    then show ?thesis
      by (auto simp: bindE_def any_failed_Suc send_webhook_def net_call_def ext_call_def Let_def
          intro!: exI [of _ "Suc (tick w)"] exI [of _ "webhooks_posted w"])
  next
    case Unacked
    then show ?thesis
      by (auto simp: bindE_def any_failed_Suc send_webhook_def net_call_def ext_call_def Let_def
          intro!: exI [of _ "Suc (tick w)"] exI [of _ "webhooks_posted w @ [(url, payload)]"])
  qed
qed

lemma retry_single_run:
  assumes "reliable env"
  shows "\<exists>n ps. retry_single_webhook a env w =
    (if attempt_ok env w a then Inr () else Inl CallFailed, w\<lparr>tick := n, webhooks_posted := ps\<rparr>)"
proof (cases "rule_webhooks (al_rule_id a) (db w) = []")
    case True
    then show ?thesis using assms
      by (intro exI [of _ "Suc (tick w)"] exI [of _ "webhooks_posted w"])
        (auto simp: retry_single_webhook_def get_rule_actions_def bindE_def db_query_reliable
          rule_webhooks_def attempt_ok_def ret_def Let_def split: option.splits)
  next
    case False
    then obtain r where r: "find (\<lambda>r. ar_id r = al_rule_id a) (alarm_rules (db w)) = Some r"
      "webhook_urls (rule_action_list r) \<noteq> []"
      by (auto simp: rule_webhooks_def split: option.splits)
    obtain n ps where "forE (webhook_urls (rule_action_list r))
        (\<lambda>url. send_webhook url (retry_payload a)) env (w\<lparr>tick := Suc (tick w)\<rparr>) =
      (if any_failed env (Suc (tick w)) (length (webhook_urls (rule_action_list r)))
       then Inl CallFailed else Inr (), w\<lparr>tick := n, webhooks_posted := ps\<rparr>)"
      using send_until_failure [of "webhook_urls (rule_action_list r)" "retry_payload a" env
        "w\<lparr>tick := Suc (tick w)\<rparr>"] by auto
    with r assms show ?thesis
      by (intro exI [of _ n] exI [of _ ps])
        (simp add: retry_single_webhook_def get_rule_actions_def bindE_def db_query_reliable
          rule_webhooks_def attempt_ok_def Let_def)
qed

section \<open>One round\<close>

lemma update_where_compose:
  "(\<And>a. a \<in> set xs \<Longrightarrow> P a \<Longrightarrow> Q (f a)) \<Longrightarrow> (\<And>a. a \<in> set xs \<Longrightarrow> Q a \<Longrightarrow> P a) \<Longrightarrow>
   update_where Q g (update_where P f xs) = update_where P (\<lambda>a. g (f a)) xs"
  by (induction xs) auto

lemma update_where_cong:
  "(\<And>a. a \<in> set xs \<Longrightarrow> P a = Q a) \<Longrightarrow> (\<And>a. a \<in> set xs \<Longrightarrow> Q a \<Longrightarrow> f a = g a) \<Longrightarrow>
   update_where P f xs = update_where Q g xs"
  by (induction xs) auto

lemma same_id_same_row:
  "distinct (map al_id xs) \<Longrightarrow> a \<in> set xs \<Longrightarrow> b \<in> set xs \<Longrightarrow> al_id b = al_id a \<longleftrightarrow> b = a"
  by (auto simp: distinct_map dest: inj_onD)

lemma find_row:
  assumes "distinct (map al_id xs)" "a \<in> set xs" "Q a"
  shows "find (\<lambda>b. al_id b = al_id a \<and> Q b) xs = Some a"
  using assms by (induction xs) auto

lemma mark_run:
  assumes "reliable env"
  shows "snd (ignoreE (mark_webhook_success i) env w) =
      w\<lparr>tick := Suc (tick w), db := snd (mark_webhook_success_sql i 0 (db w))\<rparr>"
    and "snd (ignoreE (mark_webhook_final_failure i) env w) =
      w\<lparr>tick := Suc (tick w), db := snd (mark_webhook_final_failure_sql i 0 (db w))\<rparr>"
  using assms by (simp_all add: snd_ignoreE mark_webhook_success_def mark_webhook_final_failure_def
      bindE_def ret_def db_exec_reliable alarm_sql_defs update_alarms_def)

lemma retry_failure_run:
  fixes w :: "'s world"
  assumes rel: "reliable env" and a: "a \<in> set (alarms (db w))" "0 < al_webhook_retries_left a"
    and dist: "distinct (map al_id (alarms (db w)))"
  shows "alarms (db (snd ((matchE (decrement_retry_and_schedule_next repo (al_id a))
      (\<lambda>remaining. case remaining of
         Some remaining \<Rightarrow>
           if remaining \<le> 0 then ignoreE (mark_webhook_final_failure (al_id a)) else ret ()
       | None \<Rightarrow> ret ()) (\<lambda>_. ret ()) :: ('s, 'e, unit) io) env w))) =
    update_where (\<lambda>b. b = a)
      (retry_outcome (webhook_retry_interval_seconds repo) (now_at env (tick w)) False) (alarms (db w))"
proof -
  let ?P = "\<lambda>b. al_id b = al_id a \<and> 0 < al_webhook_retries_left b"
  let ?f = "\<lambda>b. b\<lparr>al_webhook_retries_left := al_webhook_retries_left b - 1, al_webhook_next_retry_at :=
    Some (now_at env (tick w) + webhook_retry_interval_seconds repo * ns_per_sec)\<rparr>"
  note same = same_id_same_row [OF dist a(1)]
  have one: "update_where ?P ?f (alarms (db w)) = update_where (\<lambda>b. b = a) ?f (alarms (db w))"
    using same a(2) by (intro update_where_cong) auto
  have two: "update_where (\<lambda>b. al_id b = al_id a) g (update_where (\<lambda>b. b = a) ?f (alarms (db w))) =
      update_where (\<lambda>b. b = a) (\<lambda>b. g (?f b)) (alarms (db w))" for g
    using same by (intro update_where_compose) auto
  have step: "decrement_retry_and_schedule_next repo (al_id a) env w =
      (Inr (Some (al_webhook_retries_left a - 1)),
       w\<lparr>tick := Suc (tick w), db := (db w)\<lparr>alarms := update_where (\<lambda>b. b = a) ?f (alarms (db w))\<rparr>\<rparr>)"
    using rel find_row [OF dist a(1), of "\<lambda>b. 0 < al_webhook_retries_left b"] a(2)
    by (simp add: decrement_retry_and_schedule_next_def db_exec_reliable decrement_retry_sql_def
        Let_def one)
  show ?thesis
    using a(2) by (auto simp: matchE_def step mark_run [OF rel] mark_webhook_final_failure_sql_def
        update_alarms_def two ret_def retry_outcome_def set_webhook_def intro!: update_where_cong)
qed

lemma retry_alarm_run:
  fixes w :: "'s world"
  assumes rel: "reliable env" and a: "a \<in> set (alarms (db w))" "0 < al_webhook_retries_left a"
    and dist: "distinct (map al_id (alarms (db w)))"
  shows "\<exists>n. alarms (db (snd ((retry_alarm repo a :: ('s, 'e, unit) io) env w))) =
    update_where (\<lambda>b. b = a) (retry_outcome (webhook_retry_interval_seconds repo) (now_at env n)
      (attempt_ok env w a)) (alarms (db w))"
proof -
  obtain n ps where run: "retry_single_webhook a env w =
      (if attempt_ok env w a then Inr () else Inl CallFailed, w\<lparr>tick := n, webhooks_posted := ps\<rparr>)"
    using retry_single_run [OF rel] by blast
  have "update_where (\<lambda>b. al_id b = al_id a) f (alarms (db w)) =
      update_where (\<lambda>b. b = a) f (alarms (db w))" for f
    using same_id_same_row [OF dist a(1)] by (intro update_where_cong) auto
  then show ?thesis
    using retry_failure_run [OF rel, of a "w\<lparr>tick := n, webhooks_posted := ps\<rparr>"] a dist
    by (intro exI [of _ n])
      (auto simp: retry_alarm_def matchE_def [of "retry_single_webhook a"] run mark_run [OF rel]
        mark_webhook_success_sql_def update_alarms_def retry_outcome_def set_webhook_def
        intro!: update_where_cong)
qed

lemma al_id_retry_outcome [simp]: "al_id (retry_outcome iv now ok a) = al_id a"
  by (simp add: retry_outcome_def set_webhook_def)

text \<open>The rows of \<open>xs\<close> each get the outcome of an attempt, the others stay.\<close>

definition round_effect ::
  "int \<Rightarrow> env \<Rightarrow> (alarm_record \<Rightarrow> bool) \<Rightarrow> alarm_record list \<Rightarrow> alarm_record list \<Rightarrow> bool" where
  "round_effect iv env tried rows rows' \<longleftrightarrow>
     list_all2 (\<lambda>a b. if tried a then \<exists>n ok. b = retry_outcome iv (now_at env n) ok a else b = a)
       rows rows'"

lemma round_effect_ids: "round_effect iv env P rows rows' \<Longrightarrow> map al_id rows' = map al_id rows"
  unfolding round_effect_def
  by (induction rule: list_all2_induct) (auto split: if_splits)

lemma round_effect_cons:
  assumes "round_effect iv env (\<lambda>b. b \<in> set xs) (update_where (\<lambda>b. b = x) (retry_outcome iv (now_at env n) ok) rows) rows'"
    and "\<And>b. b \<in> set rows \<Longrightarrow> b = x \<Longrightarrow> retry_outcome iv (now_at env n) ok b \<notin> set xs"
    and "x \<notin> set xs"
  shows "round_effect iv env (\<lambda>b. b \<in> set (x # xs)) rows rows'"
  using assms unfolding round_effect_def update_where_def
  by (auto simp: list_all2_conv_all_nth split: if_splits) metis+

lemma fst_ignoreE: "fst (ignoreE m env w) = Inr ()"
  by (simp add: ignoreE_def matchE_def ret_def split: prod.split sum.split)

lemma fst_matchE:
  "(\<And>x w. fst (f x env w) = y) \<Longrightarrow> (\<And>e w. fst (h e env w) = y) \<Longrightarrow> fst (matchE m f h env w) = y"
  by (simp add: matchE_def split: prod.split sum.split)

lemma retry_alarm_ok: "fst (retry_alarm repo a env w) = Inr ()"
  unfolding retry_alarm_def
  by (intro fst_matchE) (auto simp: fst_ignoreE ret_def split: option.split)

lemma retry_all_run:
  fixes w :: "'s world"
  assumes rel: "reliable env" and "distinct (map al_id (alarms (db w)))" "distinct (map al_id xs)"
    and "set xs \<subseteq> set (alarms (db w))" "\<forall>x\<in>set xs. 0 < al_webhook_retries_left x"
  shows "round_effect (webhook_retry_interval_seconds repo) env (\<lambda>a. a \<in> set xs) (alarms (db w))
    (alarms (db (snd ((forE xs (retry_alarm repo) :: ('s, 'e, unit) io) env w))))"
  using assms(2-)
proof (induction xs arbitrary: w)
  case Nil
  show ?case by (simp add: ret_def round_effect_def list_all2_refl)
next
  case (Cons x xs)
  obtain r w1 where step: "(retry_alarm repo x :: ('s, 'e, unit) io) env w = (r, w1)"
    by (cases "(retry_alarm repo x :: ('s, 'e, unit) io) env w")
  obtain n where w1: "alarms (db w1) = update_where (\<lambda>b. b = x)
      (retry_outcome (webhook_retry_interval_seconds repo) (now_at env n) (attempt_ok env w x)) (alarms (db w))"
    using retry_alarm_run [OF rel, of x w repo] Cons.prems step by (metis list.set_intros(1) snd_conv subset_code(1))
  have r: "r = Inr ()" using retry_alarm_ok [of repo x env w] step by (metis fst_conv)
  have ids: "map al_id (alarms (db w1)) = map al_id (alarms (db w))"
    unfolding w1 by (rule map_update_where) simp
  have other: "y \<noteq> x \<and> al_id y \<noteq> al_id x" if "y \<in> set xs" for y
    using Cons.prems(2) that by (metis distinct.simps(2) image_eqI list.set_map list.simps(9))
  have "set xs \<subseteq> set (alarms (db w1))"
    using Cons.prems(3) other by (auto simp: w1 set_update_where image_iff)
  with Cons.IH [of w1] Cons.prems ids have
    "round_effect (webhook_retry_interval_seconds repo) env (\<lambda>a. a \<in> set xs) (alarms (db w1))
      (alarms (db (snd ((forE xs (retry_alarm repo) :: ('s, 'e, unit) io) env w1))))" by simp
  then have "round_effect (webhook_retry_interval_seconds repo) env (\<lambda>a. a \<in> set (x # xs)) (alarms (db w))
      (alarms (db (snd ((forE xs (retry_alarm repo) :: ('s, 'e, unit) io) env w1))))"
    unfolding w1 by (rule round_effect_cons) (use other in fastforce)+
  then show ?case by (simp add: bindE_def step r)
qed

lemma round_effect_cong:
  "(\<And>a. a \<in> set rows \<Longrightarrow> P a = Q a) \<Longrightarrow> round_effect iv env P rows rows' \<Longrightarrow> round_effect iv env Q rows rows'"
  unfolding round_effect_def by (erule list.rel_mono_strong) simp

lemma round_run:
  fixes w :: "'s world"
  assumes rel: "reliable env" and dist: "distinct (map al_id (alarms (db w)))"
  shows "round_effect (webhook_retry_interval_seconds repo) env (retry_due (now_at env (tick w)))
    (alarms (db w)) (alarms (db (snd ((webhook_retry_round repo :: ('s, 'e, unit) io) env w))))"
proof -
  let ?xs = "filter (retry_due (now_at env (tick w))) (alarms (db w))"
  have left: "\<forall>x\<in>set ?xs. 0 < al_webhook_retries_left x" by (simp add: retry_due_def)
  have "round_effect (webhook_retry_interval_seconds repo) env (\<lambda>a. a \<in> set ?xs) (alarms (db w))
      (alarms (db (snd ((forE ?xs (retry_alarm repo) :: ('s, 'e, unit) io) env (w\<lparr>tick := Suc (tick w)\<rparr>)))))"
    using retry_all_run [OF rel, of "w\<lparr>tick := Suc (tick w)\<rparr>" ?xs repo, where 'e = 'e]
      dist distinct_map_filter [OF dist] left by simp
  then have "round_effect (webhook_retry_interval_seconds repo) env (retry_due (now_at env (tick w))) (alarms (db w))
      (alarms (db (snd ((forE ?xs (retry_alarm repo) :: ('s, 'e, unit) io) env (w\<lparr>tick := Suc (tick w)\<rparr>)))))"
    by (rule round_effect_cong [rotated]) simp
  then show ?thesis
    by (simp add: webhook_retry_round_def query_pending_retries_def matchE_def db_query_reliable [OF rel])
qed

section \<open>Settling\<close>

definition webhook_pending :: "alarm_record \<Rightarrow> bool" where
  "webhook_pending a \<longleftrightarrow> al_webhook_status a = Some 1 \<and> 0 < al_webhook_retries_left a"

text \<open>
  Every database call succeeds, and every \<open>g\<close>-th round starts at least the retry interval after all
  clock readings of a round. The task ticks once per interval, so the rounds themselves are closer than
  that: an attempt takes some time, its retry is scheduled one interval later, and the next tick comes
  just before. While a round takes less than the interval, \<open>g = 2\<close> holds.
\<close>

definition spaced_rounds :: "nat \<Rightarrow> int \<Rightarrow> env list \<Rightarrow> bool" where
  "spaced_rounds g iv es \<longleftrightarrow> (\<forall>e\<in>set es. reliable e) \<and>
     (\<forall>i j n m. i + g \<le> j \<and> j < length es \<longrightarrow> now_at (es ! i) n + iv * ns_per_sec \<le> now_at (es ! j) m)"

text \<open>The alarm is due in every round from round \<open>k\<close> on (counting from 0).\<close>

definition due_from :: "nat \<Rightarrow> env list \<Rightarrow> alarm_record \<Rightarrow> bool" where
  "due_from k es a \<longleftrightarrow>
     (\<exists>t. al_webhook_next_retry_at a = Some t \<and> (\<forall>j n. k \<le> j \<and> j < length es \<longrightarrow> t \<le> now_at (es ! j) n))"

text \<open>A pending alarm that is due in time ends delivered or finally failed; others are untouched.\<close>

definition settles :: "nat \<Rightarrow> env list \<Rightarrow> alarm_record \<Rightarrow> alarm_record \<Rightarrow> bool" where
  "settles g es a b \<longleftrightarrow> al_id b = al_id a \<and>
     (if webhook_pending a
      then \<forall>k<g. due_from k es a \<and> (nat (al_webhook_retries_left a) - 1) * g + k < length es \<longrightarrow>
             al_webhook_status b \<in> {Some 0, Some 2}
      else b = a)"

lemma spaced_rounds_tl: "spaced_rounds g iv (e # es) \<Longrightarrow> spaced_rounds g iv es"
proof -
  assume sp: "spaced_rounds g iv (e # es)"
  have "now_at (es ! i) n + iv * ns_per_sec \<le> now_at (es ! j) m" if "i + g \<le> j \<and> j < length es" for i j n m
  proof -
    have "Suc i + g \<le> Suc j \<and> Suc j < length (e # es)" using that by simp
    with sp have "now_at ((e # es) ! Suc i) n + iv * ns_per_sec \<le> now_at ((e # es) ! Suc j) m"
      unfolding spaced_rounds_def by blast
    then show ?thesis by simp
  qed
  with sp show ?thesis by (simp add: spaced_rounds_def)
qed

lemma not_pending_settled: "settles g es a b \<Longrightarrow> \<not> webhook_pending a \<Longrightarrow> b = a"
  by (simp add: settles_def)

text \<open>A row that is not tried was not due yet, and is due one round earlier counting from the next.\<close>

lemma settles_later:
  assumes "settles g es a c" "\<not> retry_due (now_at e n) a"
  shows "settles g (e # es) a c"
proof (cases "webhook_pending a")
  case True
  have "al_webhook_status c \<in> {Some 0, Some 2}"
    if k: "k < g" "due_from k (e # es) a" "(nat (al_webhook_retries_left a) - 1) * g + k < length (e # es)" for k
  proof -
    have "k \<noteq> 0"
      using k(2) assms(2) True by (fastforce simp: due_from_def retry_due_def webhook_pending_def)
    have "due_from (k - 1) es a"
    proof -
      obtain t where t: "al_webhook_next_retry_at a = Some t"
        "\<And>j n. k \<le> j \<and> j < length (e # es) \<Longrightarrow> t \<le> now_at ((e # es) ! j) n"
        using k(2) unfolding due_from_def by blast
      have "t \<le> now_at (es ! j) n" if "k - 1 \<le> j \<and> j < length es" for j n
        using t(2) [of "Suc j" n] that by auto
      with t(1) show ?thesis unfolding due_from_def by blast
    qed
    moreover have "k - 1 < g" "(nat (al_webhook_retries_left a) - 1) * g + (k - 1) < length es"
      using k \<open>k \<noteq> 0\<close> by auto
    ultimately show ?thesis using assms(1) True by (auto simp: settles_def)
  qed
  then show ?thesis using assms(1) True by (auto simp: settles_def)
qed (use assms in \<open>simp add: settles_def\<close>)

text \<open>A row that is tried is settled, or is due again after \<open>g\<close> rounds with one retry less.\<close>

lemma settles_tried:
  assumes "settles g es (retry_outcome iv (now_at e n) ok a) c" "webhook_pending a" "0 < g"
    and "spaced_rounds g iv (e # es)"
  shows "settles g (e # es) a c"
proof (cases "webhook_pending (retry_outcome iv (now_at e n) ok a)")
  case False
  then have "c = retry_outcome iv (now_at e n) ok a" using assms(1) by (rule not_pending_settled [rotated])
  then show ?thesis using False assms(2)
    by (auto simp: settles_def retry_outcome_def set_webhook_def webhook_pending_def split: if_splits)
next
  case True
  let ?b = "retry_outcome iv (now_at e n) ok a"
  have b: "al_webhook_retries_left ?b = al_webhook_retries_left a - 1" "1 < al_webhook_retries_left a"
      "al_webhook_next_retry_at ?b = Some (now_at e n + iv * ns_per_sec)"
    using True by (auto simp: retry_outcome_def set_webhook_def webhook_pending_def split: if_splits)
  have due: "due_from (g - 1) es ?b"
    unfolding due_from_def b(3) option.inject
  proof (intro exI conjI allI impI, rule refl)
    fix j m assume j: "g - 1 \<le> j \<and> j < length es"
    then have "0 + g \<le> Suc j \<and> Suc j < length (e # es)" by auto
    with assms(4) have "now_at ((e # es) ! 0) n + iv * ns_per_sec \<le> now_at ((e # es) ! Suc j) m"
      unfolding spaced_rounds_def by blast
    then show "now_at e n + iv * ns_per_sec \<le> now_at (es ! j) m" by simp
  qed
  have len: "(nat (al_webhook_retries_left ?b) - 1) * g + (g - 1) < length es"
    if "(nat (al_webhook_retries_left a) - 1) * g + k < length (e # es)" for k
  proof -
    obtain r where r: "nat (al_webhook_retries_left a) - 1 = Suc r" "nat (al_webhook_retries_left ?b) - 1 = r"
      using b(1,2) by (intro that [of "nat (al_webhook_retries_left a) - 2"]) auto
    show ?thesis using that assms(3) unfolding r by (simp add: algebra_simps)
  qed
  have c: "al_id c = al_id a" and settled: "\<And>k. k < g \<Longrightarrow> due_from k es ?b \<Longrightarrow>
      (nat (al_webhook_retries_left ?b) - 1) * g + k < length es \<Longrightarrow> al_webhook_status c \<in> {Some 0, Some 2}"
    using assms(1) True by (simp_all add: settles_def)
  have "g - 1 < g" using assms(3) by simp
  then show ?thesis unfolding settles_def using assms(2) c settled [OF _ due len] by auto
qed

lemma settles_round:
  assumes "round_effect iv e (retry_due (now_at e n)) rows rows'" "list_all2 (settles g es) rows' rows''"
    and "0 < g" "spaced_rounds g iv (e # es)"
  shows "list_all2 (settles g (e # es)) rows rows''"
proof -
  have "settles g (e # es) a c"
    if "if retry_due (now_at e n) a then \<exists>m ok. b = retry_outcome iv (now_at e m) ok a else b = a" "settles g es b c" for a b c
    using that settles_later settles_tried [OF _ _ assms(3,4)]
    by (auto simp: retry_due_def webhook_pending_def split: if_splits)
  with assms(1,2) show ?thesis unfolding round_effect_def by (rule list_all2_trans [rotated])
qed

lemma task_settles:
  assumes "spaced_rounds g (webhook_retry_interval_seconds repo) es" "0 < g"
    and "distinct (map al_id (alarms (db w)))"
  shows "list_all2 (settles g es) (alarms (db w)) (alarms (db (webhook_retry_task repo es w)))"
  using assms(1,3)
proof (induction es arbitrary: w)
  case Nil
  show ?case by (simp add: list_all2_conv_all_nth settles_def)
next
  case (Cons e es)
  have rel: "reliable e" using Cons.prems(1) by (simp add: spaced_rounds_def)
  note eff = round_run [OF rel Cons.prems(2), of repo, where 'e = unit]
  have "distinct (map al_id (alarms (db (snd ((webhook_retry_round repo :: ('a, unit, unit) io) e w)))))"
    using round_effect_ids [OF eff] Cons.prems(2) by simp
  from settles_round [OF eff Cons.IH [OF spaced_rounds_tl [OF Cons.prems(1)] this] assms(2) Cons.prems(1)]
  show ?case by simp
qed

section \<open>Properties\<close>

text \<open>
  C10. Webhook retries settle. Let the database answer in every round, and let every \<open>g\<close>-th round start
  at least the retry interval after a round (\<open>g = 2\<close> for the ticks of the running task while a round
  takes less than the interval, \<open>g = 1\<close> if the rounds themselves are that far apart). From any
  well-formed alarm table, a pending alarm that is due by the \<open>g\<close>-th round is delivered or finally failed
  after at most \<open>g\<close> rounds per retry it has left, so after \<open>g\<close> times the configured maximum of rounds,
  however the webhook servers behave; alarms that are not pending are untouched, and no alarm is lost.
\<close>

theorem webhook_retries_settle:
  assumes "wf_alarms repo (db w)" and "0 < g"
    and "spaced_rounds g (webhook_retry_interval_seconds repo) rounds"
  shows "list_all2 (\<lambda>a b. al_id b = al_id a \<and>
      (if webhook_pending a
       then due_from (g - 1) rounds a \<and> int g * al_webhook_retries_left a \<le> int (length rounds) \<longrightarrow>
         al_webhook_status b \<in> {Some 0, Some 2}
       else b = a)) (alarms (db w)) (alarms (db (webhook_retry_task repo rounds w))) \<and>
    (\<forall>a\<in>set (alarms (db w)). int g * webhook_max_retries repo \<le> int (length rounds) \<longrightarrow>
       int g * al_webhook_retries_left a \<le> int (length rounds))"
proof
  have "list_all2 (settles g rounds) (alarms (db w)) (alarms (db (webhook_retry_task repo rounds w)))"
    using assms(1) by (intro task_settles assms(2,3)) (simp add: wf_alarms_def)
  moreover have "al_webhook_status b \<in> {Some 0, Some 2}"
    if h: "settles g rounds a b" "webhook_pending a" "due_from (g - 1) rounds a"
      "int g * al_webhook_retries_left a \<le> int (length rounds)" for a b
  proof -
    obtain r where r: "al_webhook_retries_left a = int (Suc r)"
      using h(2) by (metis webhook_pending_def Suc_pred' nat_0_le zero_less_nat_eq less_imp_le)
    have "int (g * Suc r) \<le> int (length rounds)" using h(4) unfolding r by (simp only: of_nat_mult)
    then have "(nat (al_webhook_retries_left a) - 1) * g + (g - 1) < length rounds"
      using assms(2) unfolding r of_nat_le_iff nat_int diff_Suc_1 by (simp add: algebra_simps)
    moreover have "\<forall>k<g. due_from k rounds a \<and> (nat (al_webhook_retries_left a) - 1) * g + k < length rounds \<longrightarrow>
        al_webhook_status b \<in> {Some 0, Some 2}" using h(1,2) by (simp add: settles_def)
    moreover have "g - 1 < g" using assms(2) by simp
    ultimately show ?thesis using h(3) by blast
  qed
  ultimately show "list_all2 (\<lambda>a b. al_id b = al_id a \<and>
      (if webhook_pending a
       then due_from (g - 1) rounds a \<and> int g * al_webhook_retries_left a \<le> int (length rounds) \<longrightarrow>
         al_webhook_status b \<in> {Some 0, Some 2}
       else b = a)) (alarms (db w)) (alarms (db (webhook_retry_task repo rounds w)))"
    by (elim list.rel_mono_strong) (auto simp: settles_def split: if_splits)
  have "int g * al_webhook_retries_left a \<le> int g * webhook_max_retries repo" if "a \<in> set (alarms (db w))" for a
    using assms(1) that by (intro mult_left_mono) (auto simp: wf_alarms_def wf_alarm_def)
  then show "\<forall>a\<in>set (alarms (db w)). int g * webhook_max_retries repo \<le> int (length rounds) \<longrightarrow>
       int g * al_webhook_retries_left a \<le> int (length rounds)" by force
qed

definition sample_alarm :: alarm_record where
  "sample_alarm =
     \<lparr>al_id = 1, al_rule_id = 1, al_rule_name = ''hot'', al_product_id = ''p'', al_device_id = ''dev'',
      al_level = 2, al_message = None, al_trigger_value = None, al_acknowledged = False,
      al_status = ''active'', al_webhook_status = Some 1, al_trigger_type = ''property'',
      al_webhook_retries_left = 3, al_webhook_next_retry_at = Some 0, al_created_at = 0,
      al_cleared_at = None\<rparr>"

text \<open>The ticks of a task with an interval of 60 seconds; time passes within a round.\<close>

definition sample_round :: "nat \<Rightarrow> env" where
  "sample_round i =
     \<lparr>now_at = (\<lambda>n. int i * 60 * ns_per_sec + int (min n 9)), outcome_at = (\<lambda>n. Done), net_outcome_at = (\<lambda>n. Refused),
      subscriptions_at = (\<lambda>n. [])\<rparr>"

definition sample_pending :: "in_memory_store world" where
  "sample_pending = sample_world\<lparr>db := (db sample_world)\<lparr>alarms := [sample_alarm], next_alarm_id := 2\<rparr>\<rparr>"

lemma sample_rounds_spaced: "spaced_rounds 2 60 (map sample_round [1..<7])"
  by (auto simp: spaced_rounds_def reliable_def sample_round_def ns_per_sec_def)

theorem webhook_retries_settle_witness:
  "list_all2 (\<lambda>a b. al_webhook_status b \<in> {Some 0, Some 2})
    (alarms (db sample_pending)) (alarms (db (webhook_retry_task sample_repo (map sample_round [1..<7]) sample_pending)))"
proof -
  have "wf_alarms sample_repo (db sample_pending)"
    by (simp add: wf_alarms_def wf_alarm_def sample_pending_def sample_alarm_def sample_repo_def)
  moreover have "spaced_rounds 2 (webhook_retry_interval_seconds sample_repo) (map sample_round [1..<7])"
    using sample_rounds_spaced by (simp add: sample_repo_def)
  moreover have "due_from (2 - 1) (map sample_round [1..<7]) sample_alarm" "webhook_pending sample_alarm"
    by (auto simp: due_from_def sample_alarm_def sample_round_def ns_per_sec_def webhook_pending_def)
  moreover have "int 2 * al_webhook_retries_left sample_alarm \<le> int (length (map sample_round [1..<7]))"
    by (simp add: sample_alarm_def)
  moreover have "alarms (db sample_pending) = [sample_alarm]" by (simp add: sample_pending_def)
  ultimately show ?thesis
    using webhook_retries_settle [of sample_repo sample_pending 2 "map sample_round [1..<7]", THEN conjunct1]
    by (auto simp: list_all2_Cons1)
qed

text \<open>
  Why one round per retry is not enough: a retry is scheduled one interval after the failed attempt,
  and the next tick, one interval after the tick of the attempt, comes before that.
\<close>

lemma rescheduled_misses_next_tick:
  assumes "now < tried + iv * ns_per_sec" "1 < al_webhook_retries_left a"
  shows "\<not> retry_due now (retry_outcome iv tried False a)"
  using assms by (simp add: retry_due_def retry_outcome_def)

lemma sample_misses_next_tick:
  "\<not> retry_due (now_at (sample_round 2) 0) (retry_outcome 60 (now_at (sample_round 1) 2) False sample_alarm)"
  by (rule rescheduled_misses_next_tick) (simp_all add: sample_round_def sample_alarm_def ns_per_sec_def)

text \<open>
  An alarm whose rule was deleted, or whose rule no longer has a webhook, while a delivery
  was pending is recorded as successfully delivered (status 0) although nothing is posted.
\<close>

theorem retry_without_webhook_marks_delivered:
  fixes w :: "'s world"
  assumes "reliable env" and "rule_webhooks (al_rule_id a) (db w) = []"
    and "a \<in> set (alarms (db w))"
    and "(retry_alarm repo a :: ('s, 'e, unit) io) env w = (res, w')"
  shows "webhooks_posted w' = webhooks_posted w \<and> set_webhook (Some 0) 0 None a \<in> set (alarms (db w'))"
proof -
  have "retry_single_webhook a env w = (Inr (), w\<lparr>tick := Suc (tick w)\<rparr>)"
    using assms(1,2)
    by (auto simp: retry_single_webhook_def get_rule_actions_def bindE_def db_query_reliable
        rule_webhooks_def ret_def Let_def split: option.splits)
  moreover have "w' = snd ((retry_alarm repo a :: ('s, 'e, unit) io) env w)"
    using assms(4) by simp
  ultimately show ?thesis using assms(3)
    by (simp add: retry_alarm_def matchE_def mark_run [OF assms(1)] mark_webhook_success_sql_def
        update_alarms_def set_update_where set_webhook_def image_iff)
      (intro bexI [of _ a]; simp)
qed

theorem retry_without_webhook_marks_delivered_witness:
  "set_webhook (Some 0) 0 None sample_alarm \<in> set (alarms (db (snd
     ((retry_alarm sample_repo sample_alarm :: (_, unit, unit) io) (sample_round 1) sample_pending))))"
proof -
  have "reliable (sample_round 1)" by (simp add: reliable_def sample_round_def)
  moreover have "rule_webhooks (al_rule_id sample_alarm) (db sample_pending) = []"
    by (simp add: rule_webhooks_def sample_pending_def sample_world_def sample_alarm_def sample_rule_def
        parse_actions_def parse_action_def as_array_def as_object_def map_filter_simps webhook_url_def)
  moreover have "sample_alarm \<in> set (alarms (db sample_pending))"
    by (simp add: sample_pending_def)
  ultimately show ?thesis
    by (rule retry_without_webhook_marks_delivered [THEN conjunct2]) (rule prod.collapse [symmetric])
qed

end
