(* ===== verification/Topics.thy ===== *)
theory Topics
  imports Rust_Str Api_Error
begin

text \<open>
  The pure part of \<open>backend/src/api/utils.rs\<close>: reading MQTT topics, validating identifiers and
  versions; and the upload-directory rule of \<open>backend/src/api/handlers.rs\<close>. Strings are byte
  sequences (UTF-8): a test on characters that only accepts ASCII is a test on bytes, and the
  offending character of an error message is its lead byte with the continuation bytes after it.
\<close>

section \<open>Topics\<close>

definition extract_product_id_from_topic :: "string \<Rightarrow> string option" where
  "extract_product_id_from_topic topic =
     (if \<not> starts_with topic ''/'' \<and> CHR ''/'' \<notin> set topic then None
      else case split_on CHR ''/'' (trim_start_matches CHR ''/'' topic) of
             [] \<Rightarrow> None
           | s # _ \<Rightarrow> if s = [] then None else Some s)"

definition extract_event_identifier_from_topic :: "string \<Rightarrow> string option" where
  "extract_event_identifier_from_topic topic =
     (case split_on CHR ''/'' (trim_start_matches CHR ''/'' topic) of
        _ # _ # seg3 # seg4 # event_id # _ \<Rightarrow>
          if seg3 = ''thing'' \<and> seg4 = ''event'' \<and> event_id \<noteq> [] then Some event_id else None
      | _ \<Rightarrow> None)"

definition extract_service_type_from_topic :: "string \<Rightarrow> string option" where
  "extract_service_type_from_topic topic =
     (case split_on CHR ''/'' (trim_start_matches CHR ''/'' topic) of
        _ # _ # seg3 # seg4 # service_type # _ \<Rightarrow>
          if seg3 = ''thing'' \<and> seg4 = ''service'' \<and> service_type \<noteq> [] then Some service_type
          else None
      | _ \<Rightarrow> None)"

section \<open>Identifiers\<close>

definition MAX_IDENTIFIER_LENGTH :: nat where "MAX_IDENTIFIER_LENGTH = 128"

definition identifier_char :: "char \<Rightarrow> bool" where
  "identifier_char c \<longleftrightarrow> is_ascii_alphanumeric c \<or> c = CHR ''-'' \<or> c = CHR ''_''"

definition continuation_byte :: "char \<Rightarrow> bool" where
  "continuation_byte c \<longleftrightarrow> (128::nat) \<le> of_char c \<and> of_char c < (192::nat)"

fun first_invalid_identifier_char :: "string \<Rightarrow> string option" where
  "first_invalid_identifier_char [] = None"
| "first_invalid_identifier_char (c # cs) =
     (if identifier_char c then first_invalid_identifier_char cs
      else Some (c # takeWhile continuation_byte cs))"

definition validate_identifier :: "string \<Rightarrow> string \<Rightarrow> api_error + unit" where
  "validate_identifier ident field_name =
     (if ident = [] then Inl (bad_request (field_name @ '' must not be empty''))
      else if length ident > MAX_IDENTIFIER_LENGTH then
        Inl (bad_request (field_name @ '' must not exceed 128 characters''))
      else case first_invalid_identifier_char ident of
             Some ch \<Rightarrow> Inl (bad_request (field_name @ '' contains invalid character '' @ [CHR 0x27] @ ch @ [CHR 0x27] @
               ''. Only alphanumeric characters, hyphens, and underscores are allowed''))
           | None \<Rightarrow> Inr ())"

definition extract_and_validate_product_id :: "string \<Rightarrow> api_error + string" where
  "extract_and_validate_product_id topic =
     (case extract_product_id_from_topic topic of
        None \<Rightarrow> Inl (bad_request ''Product ID not found in topic'')
      | Some product_id \<Rightarrow>
          (case validate_identifier product_id ''product_id'' of
             Inl e \<Rightarrow> Inl e
           | Inr _ \<Rightarrow> Inr product_id))"

section \<open>Versions\<close>

fun check_version_parts :: "nat \<Rightarrow> string list \<Rightarrow> api_error \<Rightarrow> api_error \<Rightarrow> api_error + unit" where
  "check_version_parts i [] bad out = Inr ()"
| "check_version_parts i (part # parts) bad out =
     (case parse_u32 part of
        None \<Rightarrow> Inl bad
      | Some v \<Rightarrow> if v > (if i < 2 then 99 else 999) then Inl out
                  else check_version_parts (Suc i) parts bad out)"

definition validate_version_format :: "string \<Rightarrow> string \<Rightarrow> api_error + unit" where
  "validate_version_format version field_name =
     (let parts = split_on CHR ''.'' version;
          prefix = ''Invalid '' @ field_name @ '' format '' @ [CHR 0x27] @ version @ [CHR 0x27];
          bad = bad_request (prefix @ '': must be x.y.z (e.g. 1.2.3)'');
          out = bad_request (prefix @ '': each part exceeds allowed range'')
      in if length parts \<noteq> 3 then Inl bad else check_version_parts 0 parts bad out)"

section \<open>Upload directories\<close>

definition directory_rule_allows :: "string \<Rightarrow> string \<Rightarrow> bool" where
  "directory_rule_allows rule directory =
     (case strip_suffix rule ''/*'' of
        Some base \<Rightarrow> directory = base \<or> starts_with directory (base @ ''/'')
      | None \<Rightarrow>
          (case strip_suffix rule ''*'' of
             Some prefix \<Rightarrow> starts_with directory prefix
           | None \<Rightarrow> directory = rule))"

definition is_file_upload_directory_allowed ::
  "string list \<Rightarrow> string \<Rightarrow> string \<Rightarrow> string \<Rightarrow> bool" where
  "is_file_upload_directory_allowed rules product_id device_id directory =
     list_ex (\<lambda>rule.
       directory_rule_allows
         (str_replace ''${deviceId}'' device_id (str_replace ''${productId}'' product_id rule))
         directory) rules"

section \<open>Valid identifiers\<close>

definition valid_identifier :: "string \<Rightarrow> bool" where
  "valid_identifier s \<longleftrightarrow> s \<noteq> [] \<and> length s \<le> 128 \<and> list_all identifier_char s"

lemma first_invalid_None: "first_invalid_identifier_char s = None \<longleftrightarrow> list_all identifier_char s"
  by (induction s) auto

lemma validate_identifier_ok: "validate_identifier s f = Inr u \<longleftrightarrow> valid_identifier s"
  by (auto simp: validate_identifier_def valid_identifier_def MAX_IDENTIFIER_LENGTH_def
      first_invalid_None [symmetric] split: option.split)

lemma identifier_char_plain [simp]:
  "\<not> identifier_char CHR ''/''" "\<not> identifier_char CHR '':''" "\<not> identifier_char CHR ''$''"
  "\<not> identifier_char CHR ''+''" "\<not> identifier_char CHR ''#''" "\<not> identifier_char CHR ''.''"
  "\<not> identifier_char CHR ''*''" "\<not> identifier_char CHR ''{''"
  by (simp_all add: identifier_char_def is_ascii_alphanumeric_def)

lemma valid_identifier_plain: "valid_identifier s \<Longrightarrow> \<not> identifier_char c \<Longrightarrow> c \<notin> set s"
  by (auto simp: valid_identifier_def list_all_iff)

lemma trim_start_valid:
  "valid_identifier p \<Longrightarrow> trim_start_matches CHR ''/'' (p @ r) = p @ r"
  "valid_identifier p \<Longrightarrow> trim_start_matches CHR ''/'' (CHR ''/'' # p @ r) = p @ r"
  by (cases p; auto simp: trim_start_matches_def valid_identifier_def)+

lemma split_two_segments:
  assumes "valid_identifier p" "valid_identifier d"
  shows "split_on CHR ''/'' (p @ CHR ''/'' # d @ CHR ''/'' # r) = p # d # split_on CHR ''/'' r"
  using assms by (simp add: split_on_append valid_identifier_plain)

lemma split_thing:
  "CHR ''/'' \<notin> set x \<Longrightarrow>
   split_on CHR ''/'' (''thing/event/'' @ x @ CHR ''/'' # r) = ''thing'' # ''event'' # x # split_on CHR ''/'' r"
  "CHR ''/'' \<notin> set x \<Longrightarrow>
   split_on CHR ''/'' (''thing/service/'' @ x @ CHR ''/'' # r) = ''thing'' # ''service'' # x # split_on CHR ''/'' r"
  using split_on_append [of "CHR ''/''" x r] by simp_all

section \<open>Replacing placeholders\<close>

lemma str_replace_step:
  "p \<noteq> [] \<Longrightarrow> str_replace (c # p) to (c # p @ s) = to @ str_replace (c # p) to s"
  by (subst str_replace.simps) (simp add: starts_with_def)

lemma str_replace_other: "x \<noteq> c \<Longrightarrow> str_replace (c # p) to (x # s) = x # str_replace (c # p) to s"
  by (subst str_replace.simps) (simp add: starts_with_def)

lemma str_replace_Nil: "str_replace (c # p) to [] = []"
  by (subst str_replace.simps) simp

lemma str_replace_skip: "c \<notin> set a \<Longrightarrow> str_replace (c # p) to (a @ s) = a @ str_replace (c # p) to s"
  by (induction a) (auto simp: str_replace_other)

text \<open>A rule below the directory of the device, and one without placeholders.\<close>

lemma per_device_rule:
  assumes "valid_identifier p"
  shows "str_replace ''${deviceId}'' d (str_replace ''${productId}'' p (''${productId}/${deviceId}/'' @ rest)) =
    p @ ''/'' @ d @ ''/'' @ str_replace ''${deviceId}'' d (str_replace ''${productId}'' p rest)"
proof -
  have dollar: "CHR ''$'' \<notin> set p" using assms by (simp add: valid_identifier_plain)
  have "str_replace ''${productId}'' p (''${productId}/${deviceId}/'' @ rest) =
      p @ ''/${deviceId}/'' @ str_replace ''${productId}'' p rest"
    using str_replace_step [of "''{productId}''" "CHR ''$''" p "''/${deviceId}/'' @ rest"]
    by (simp add: str_replace.simps [of _ _ "_ # _"] starts_with_def)
  moreover have "str_replace ''${deviceId}'' d (''/${deviceId}/'' @ r) = ''/'' @ d @ ''/'' @ str_replace ''${deviceId}'' d r" for r
    using str_replace_step [of "''{deviceId}''" "CHR ''$''" d "''/'' @ r"]
    by (simp add: str_replace_other)
  ultimately show ?thesis using str_replace_skip [OF dollar] by simp
qed

lemma shared_rule: "CHR ''$'' \<notin> set rule \<Longrightarrow>
    str_replace ''${deviceId}'' d (str_replace ''${productId}'' p rule) = rule"
  using str_replace_skip [of "CHR ''$''" rule _ _ "[]"] by (simp add: str_replace_Nil)

text \<open>The directory of a device and the directories below it.\<close>

definition own_directory :: "string \<Rightarrow> string \<Rightarrow> string \<Rightarrow> bool" where
  "own_directory p d dir \<longleftrightarrow> dir = p @ ''/'' @ d \<or> (\<exists>r. dir = p @ ''/'' @ d @ ''/'' @ r)"

lemma own_directory_segments:
  assumes "valid_identifier p" "valid_identifier d" "own_directory p d dir"
  shows "take 2 (split_on CHR ''/'' dir) = [p, d]"
  using assms by (auto simp: own_directory_def split_on_append split_on_fresh valid_identifier_plain)

lemma directory_rule_below:
  assumes "directory_rule_allows (p @ ''/'' @ d @ ''/'' @ rest) dir"
  shows "own_directory p d dir"
proof (cases "strip_suffix (p @ ''/'' @ d @ ''/'' @ rest) ''/*''")
  case None
  show ?thesis
  proof (cases "strip_suffix (p @ ''/'' @ d @ ''/'' @ rest) ''*''")
    case suffix: (Some prefix)
    then have eq: "p @ ''/'' @ d @ ''/'' @ rest = prefix @ ''*''" by (simp add: strip_suffix_Some)
    then have "rest \<noteq> []" using arg_cong [OF eq, of last] by auto
    have "butlast (prefix @ ''*'') = prefix" by (simp add: butlast_append)
    then have "prefix = butlast (p @ ''/'' @ d @ ''/'' @ rest)" unfolding eq by simp
    with \<open>rest \<noteq> []\<close> have "prefix = p @ ''/'' @ d @ ''/'' @ butlast rest" by (simp add: butlast_append)
    with assms None suffix show ?thesis
      by (auto simp: directory_rule_allows_def starts_with_iff own_directory_def)
  qed (use assms None in \<open>auto simp: directory_rule_allows_def own_directory_def\<close>)
next
  case (Some base)
  then have eq: "p @ ''/'' @ d @ ''/'' @ rest = base @ ''/*''" by (simp add: strip_suffix_Some)
  have dir: "dir = base \<or> (\<exists>r. dir = base @ ''/'' @ r)"
    using assms Some by (auto simp: directory_rule_allows_def starts_with_iff)
  have ne: "rest \<noteq> []" using arg_cong [OF eq, of last] by auto
  show ?thesis
  proof (cases "rest = ''*''")
    case True
    with eq have "base = p @ ''/'' @ d" by simp
    with dir show ?thesis by (auto simp: own_directory_def)
  next
    case False
    have "butlast (butlast (base @ ''/*'')) = base" by (simp add: butlast_append)
    then have base: "base = butlast (butlast (p @ ''/'' @ d @ ''/'' @ rest))" using eq by simp
    from False ne eq have "butlast rest \<noteq> []"
      using arg_cong [OF eq, of last] by (cases rest) (auto split: if_splits)
    with ne have "base = p @ ''/'' @ d @ ''/'' @ butlast (butlast rest)" unfolding base by (simp add: butlast_append)
    with dir show ?thesis by (auto simp: own_directory_def)
  qed
qed

lemma per_device_rules_below:
  assumes "valid_identifier p" "\<forall>rule\<in>set rules. \<exists>rest. rule = ''${productId}/${deviceId}/'' @ rest"
    and "is_file_upload_directory_allowed rules p d dir"
  shows "own_directory p d dir"
proof -
  from assms(3) obtain rule where rule: "rule \<in> set rules"
    "directory_rule_allows (str_replace ''${deviceId}'' d (str_replace ''${productId}'' p rule)) dir"
    by (auto simp: is_file_upload_directory_allowed_def list_ex_iff)
  from rule(1) assms(2) obtain rest where "rule = ''${productId}/${deviceId}/'' @ rest" by blast
  with rule(2) show ?thesis
    by (intro directory_rule_below [of p d "str_replace ''${deviceId}'' d (str_replace ''${productId}'' p rest)"])
       (simp only: per_device_rule [OF assms(1)])
qed

lemma own_directory_allowed:
  assumes "valid_identifier p" "''${productId}/${deviceId}/*'' \<in> set rules" "own_directory p d dir"
  shows "is_file_upload_directory_allowed rules p d dir"
proof -
  have "str_replace ''${deviceId}'' d (str_replace ''${productId}'' p ''${productId}/${deviceId}/*'') = p @ ''/'' @ d @ ''/*''"
    using per_device_rule [OF assms(1), of d "''*''"] by (simp add: str_replace_other str_replace_Nil)
  moreover have "strip_suffix (p @ ''/'' @ d @ ''/*'') ''/*'' = Some (p @ ''/'' @ d)"
    unfolding strip_suffix_Some by simp
  ultimately have "directory_rule_allows
      (str_replace ''${deviceId}'' d (str_replace ''${productId}'' p ''${productId}/${deviceId}/*'')) dir"
    using assms(3) by (auto simp: directory_rule_allows_def starts_with_iff own_directory_def)
  with assms(2) show ?thesis unfolding is_file_upload_directory_allowed_def list_ex_iff by blast
qed

section \<open>Properties\<close>

text \<open>
  Reading back a topic. From the topic of an event or of a service reply built from valid
  product and device identifiers and a segment without a slash, with or without a leading
  slash, the product, the event identifier and the service type are read back exactly; an event
  topic is never taken for a service topic.
\<close>

theorem topic_roundtrip:
  assumes "valid_identifier p" "valid_identifier d" "x \<noteq> []" "CHR ''/'' \<notin> set x"
    and "lead = [] \<or> lead = ''/''"
  shows "extract_and_validate_product_id (lead @ p @ ''/'' @ d @ ''/thing/event/'' @ x @ ''/post'') = Inr p \<and>
    extract_event_identifier_from_topic (lead @ p @ ''/'' @ d @ ''/thing/event/'' @ x @ ''/post'') = Some x \<and>
    extract_service_type_from_topic (lead @ p @ ''/'' @ d @ ''/thing/event/'' @ x @ ''/post'') = None \<and>
    extract_service_type_from_topic (lead @ p @ ''/'' @ d @ ''/thing/service/'' @ x @ ''/set_reply'') = Some x"
proof -
  have trim: "trim_start_matches CHR ''/'' (lead @ p @ r) = p @ r" for r
    using assms(1,5) trim_start_valid by auto
  have segs: "split_on CHR ''/'' (p @ CHR ''/'' # d @ CHR ''/'' # r) = p # d # split_on CHR ''/'' r" for r
    by (rule split_two_segments [OF assms(1,2)])
  have "p \<noteq> []" using assms(1) by (simp add: valid_identifier_def)
  moreover have "validate_identifier p f = Inr ()" for f using assms(1) by (simp add: validate_identifier_ok)
  ultimately show ?thesis
    using assms(3) trim segs split_thing [OF assms(4)]
    by (simp add: extract_and_validate_product_id_def extract_product_id_from_topic_def
        extract_event_identifier_from_topic_def extract_service_type_from_topic_def)
qed

theorem topic_roundtrip_witness:
  "extract_event_identifier_from_topic ''/p1/dev-1/thing/event/overheat/post'' = Some ''overheat''"
  using topic_roundtrip [of "''p1''" "''dev-1''" "''overheat''" "''/''"]
  by (simp add: valid_identifier_def identifier_char_def is_ascii_alphanumeric_def)

text \<open>
  Accepted identifiers. \<open>validate_identifier\<close> accepts exactly the non-empty strings of at
  most 128 ASCII letters, digits, hyphens and underscores, every rejection is a client error
  (400), and a product id taken from a topic is always such an identifier, so it can hold none
  of the separators and wildcards of topics, cache keys and placeholders.
\<close>

theorem identifiers_accepted:
  "(validate_identifier s f = Inr () \<longleftrightarrow>
     s \<noteq> [] \<and> length s \<le> 128 \<and> (\<forall>c\<in>set s. is_ascii_alphanumeric c \<or> c = CHR ''-'' \<or> c = CHR ''_'')) \<and>
   (\<forall>e. validate_identifier s f = Inl e \<longrightarrow> status e = 400) \<and>
   (\<forall>t p. extract_and_validate_product_id t = Inr p \<longrightarrow>
     validate_identifier p f = Inr () \<and> set p \<inter> set ''/:+#$.*{'' = {})"
proof (intro conjI allI impI)
  show "validate_identifier s f = Inr () \<longleftrightarrow>
     s \<noteq> [] \<and> length s \<le> 128 \<and> (\<forall>c\<in>set s. is_ascii_alphanumeric c \<or> c = CHR ''-'' \<or> c = CHR ''_'')"
    by (simp add: validate_identifier_ok valid_identifier_def list_all_iff identifier_char_def)
  show "status e = 400" if "validate_identifier s f = Inl e" for e
    using that by (auto simp: validate_identifier_def bad_request_def api_error_new_def
        split: if_splits option.splits)
  fix t p assume "extract_and_validate_product_id t = Inr p"
  then have valid: "valid_identifier p"
    by (auto simp: extract_and_validate_product_id_def validate_identifier_ok split: option.splits sum.splits)
  then show "validate_identifier p f = Inr ()" by (simp add: validate_identifier_ok)
  show "set p \<inter> set ''/:+#$.*{'' = {}" using valid_identifier_plain [OF valid] by auto
qed

theorem identifiers_accepted_witness:
  "set ''p1'' \<inter> set ''/:+#$.*{'' = {} \<and> validate_identifier ''p1'' ''product_id'' = Inr ()"
proof -
  have "extract_and_validate_product_id ''/p1/d/thing/property/post'' = Inr ''p1''" by code_simp
  with identifiers_accepted [of "''p1''" "''product_id''"] show ?thesis by blast
qed

text \<open>
  C39: which directories a device may upload to. For every list of per-device rules, that is rules that
  start with the product and device placeholders, a device is allowed only directories of its own, hence none that
  another device is allowed; a list with the rule for the whole directory of the device allows all of them. Rules
  without placeholders are shared on purpose: added to the list they allow every device the same further
  directories.
\<close>

theorem upload_directory_isolation:
  assumes "valid_identifier p" "valid_identifier d"
    and "\<forall>rule\<in>set per_device. \<exists>rest. rule = ''${productId}/${deviceId}/'' @ rest"
    and "\<forall>rule\<in>set shared. CHR ''$'' \<notin> set rule"
  shows "(is_file_upload_directory_allowed per_device p d dir \<longrightarrow>
        own_directory p d dir \<and>
        (\<forall>p' d'. valid_identifier p' \<and> valid_identifier d' \<and> (p', d') \<noteq> (p, d) \<longrightarrow>
          \<not> is_file_upload_directory_allowed per_device p' d' dir)) \<and>
     (''${productId}/${deviceId}/*'' \<in> set per_device \<longrightarrow> own_directory p d dir \<longrightarrow>
        is_file_upload_directory_allowed per_device p d dir) \<and>
     (is_file_upload_directory_allowed (per_device @ shared) p d dir \<longleftrightarrow>
        is_file_upload_directory_allowed per_device p d dir \<or>
        (\<exists>rule\<in>set shared. directory_rule_allows rule dir))"
proof (intro conjI impI allI)
  assume own: "is_file_upload_directory_allowed per_device p d dir"
  with assms show "own_directory p d dir" by (blast intro: per_device_rules_below)
  fix p' d' assume other: "valid_identifier p' \<and> valid_identifier d' \<and> (p', d') \<noteq> (p, d)"
  show "\<not> is_file_upload_directory_allowed per_device p' d' dir"
  proof
    assume "is_file_upload_directory_allowed per_device p' d' dir"
    with other assms(3) have "own_directory p' d' dir" by (blast intro: per_device_rules_below)
    with other have "take 2 (split_on CHR ''/'' dir) = [p', d']" by (blast intro: own_directory_segments)
    moreover have "take 2 (split_on CHR ''/'' dir) = [p, d]"
      using own assms by (blast intro: own_directory_segments per_device_rules_below)
    ultimately show False using other by simp
  qed
next
  assume "''${productId}/${deviceId}/*'' \<in> set per_device" "own_directory p d dir"
  then show "is_file_upload_directory_allowed per_device p d dir" by (rule own_directory_allowed [OF assms(1)])
next
  have "is_file_upload_directory_allowed shared p d dir \<longleftrightarrow> (\<exists>rule\<in>set shared. directory_rule_allows rule dir)"
    using assms(4) by (auto simp: is_file_upload_directory_allowed_def list_ex_iff shared_rule)
  then show "is_file_upload_directory_allowed (per_device @ shared) p d dir \<longleftrightarrow>
      is_file_upload_directory_allowed per_device p d dir \<or> (\<exists>rule\<in>set shared. directory_rule_allows rule dir)"
    by (auto simp: is_file_upload_directory_allowed_def)
qed

theorem upload_directory_isolation_witness:
  "is_file_upload_directory_allowed [''${productId}/${deviceId}/*''] ''p'' ''d1'' ''p/d1/logs'' \<and>
   \<not> is_file_upload_directory_allowed [''${productId}/${deviceId}/*''] ''p'' ''d2'' ''p/d1/logs'' \<and>
   is_file_upload_directory_allowed ([''${productId}/${deviceId}/*''] @ [''public/*'']) ''p'' ''d2'' ''public/a''"
proof -
  have valid: "valid_identifier ''p''" "valid_identifier ''d1''" "valid_identifier ''d2''"
    by (simp_all add: valid_identifier_def identifier_char_def is_ascii_alphanumeric_def)
  have rules: "\<forall>rule\<in>set [''${productId}/${deviceId}/*'']. \<exists>rest. rule = ''${productId}/${deviceId}/'' @ rest"
    "\<forall>rule\<in>set [''public/*'']. CHR ''$'' \<notin> set rule" by auto
  note isolation = upload_directory_isolation [OF _ _ rules]
  have "own_directory ''p'' ''d1'' ''p/d1/logs''" by (simp add: own_directory_def)
  with isolation [OF valid(1,2), of "''p/d1/logs''"]
  have d1: "is_file_upload_directory_allowed [''${productId}/${deviceId}/*''] ''p'' ''d1'' ''p/d1/logs''" by simp
  moreover from isolation [OF valid(1,2), of "''p/d1/logs''"] d1 valid
  have "\<not> is_file_upload_directory_allowed [''${productId}/${deviceId}/*''] ''p'' ''d2'' ''p/d1/logs''" by simp
  moreover have "strip_suffix ''public/*'' ''/*'' = Some ''public''" unfolding strip_suffix_Some by simp
  then have "directory_rule_allows ''public/*'' ''public/a''"
    by (simp add: directory_rule_allows_def starts_with_iff)
  with isolation [OF valid(1,3), of "''public/a''"]
  have "is_file_upload_directory_allowed ([''${productId}/${deviceId}/*''] @ [''public/*'']) ''p'' ''d2'' ''public/a''" by simp
  ultimately show ?thesis by blast
qed

end
