(* ===== verification/Rmqtt.thy ===== *)
theory Rmqtt
  imports Hoare Topics
begin

text \<open>
  \<open>backend/src/rmqtt_client.rs\<close>, the client of the MQTT broker's HTTP API: publishing responses
  and commands (with retries), asking for subscriptions, and matching a topic filter. What the
  broker accepted is the log \<open>published\<close> of the world. \<open>ack_response\<close> is from
  \<open>backend/src/api/mod.rs\<close>; \<open>ser_response\<close> stands for \<open>serde_json::to_string\<close>.
\<close>

record publish_config =
  pb_topic :: string
  pb_clientid :: string
  pb_qos :: nat
  pb_retain :: bool
  pb_retries :: nat

record response_config =
  rc_clientid :: string
  rc_qos :: nat
  rc_retain :: bool

record mqtt_config =
  mq_response :: response_config
  mq_property_command :: publish_config
  mq_service_command :: publish_config

section \<open>Publishing\<close>

definition post_publish :: "publish_request \<Rightarrow> ('s, io_error, unit) io" where
  "post_publish req = net_call (\<lambda>now w. ((), w\<lparr>published := published w @ [req]\<rparr>))"

text \<open>A transport error is an error, an answer with an error status is only logged.\<close>

definition publish_response ::
  "mqtt_config \<Rightarrow> string \<Rightarrow> string \<Rightarrow> ('s, io_error, unit) io" where
  "publish_response cfg original_topic payload env w =
     (let request = \<lparr>pr_topic = original_topic @ ''_reply'', pr_clientid = rc_clientid (mq_response cfg),
                     pr_payload = payload, pr_encoding = Some ''plain'',
                     pr_qos = Some (rc_qos (mq_response cfg)),
                     pr_retain = Some (rc_retain (mq_response cfg))\<rparr>
      in if net_outcome_at env (tick w) = Rejected then (Inr (), w\<lparr>tick := Suc (tick w)\<rparr>)
         else post_publish request env w)"

text \<open>The loop over the attempts \<open>0..=retries\<close>.\<close>

fun publish_attempts :: "nat \<Rightarrow> nat \<Rightarrow> publish_request \<Rightarrow> ('s, io_error, unit) io" where
  "publish_attempts retries 0 request =
     matchE (post_publish request) ret
       (\<lambda>_. throw (Bail (''Failed to publish command after '' @ show_nat retries @ '' retries'')))"
| "publish_attempts retries (Suc n) request =
     matchE (post_publish request) ret (\<lambda>_. publish_attempts retries n request)"

definition publish_command :: "mqtt_config \<Rightarrow> publish_request \<Rightarrow> ('s, io_error, unit) io" where
  "publish_command cfg request =
     (let retries = pb_retries (mq_property_command cfg) in publish_attempts retries retries request)"

record mqtt_response =
  mr_id :: string
  mr_code :: int
  mr_data :: "json option"

definition ack_response ::
  "(mqtt_response \<Rightarrow> string option) \<Rightarrow> mqtt_config \<Rightarrow> string \<Rightarrow> string \<Rightarrow> ('s, io_error, unit) io" where
  "ack_response ser_response cfg i topic =
     bindE (ok_or CallFailed (ser_response \<lparr>mr_id = i, mr_code = 200, mr_data = None\<rparr>)) (\<lambda>response_payload.
       map_err (\<lambda>_. Bail ''Failed to publish response'') (publish_response cfg topic response_payload))"

section \<open>Subscriptions\<close>

definition get_subscriptions :: "string \<Rightarrow> ('s, io_error, string list) io" where
  "get_subscriptions client_id env w =
     (let n = tick w; w1 = w\<lparr>tick := Suc n\<rparr>
      in case net_outcome_at env n of
           Done \<Rightarrow> (Inr (subscriptions_at env n), w1)
         | Rejected \<Rightarrow> (Inr [], w1)
         | _ \<Rightarrow> (Inl CallFailed, w1))"

fun match_parts :: "string list \<Rightarrow> string list \<Rightarrow> bool" where
  "match_parts [] [] = True"
| "match_parts [] (t # ts) = False"
| "match_parts (f # fs) [] = (f = ''#'')"
| "match_parts (f # fs) (t # ts) =
     (f = ''#'' \<or> ((f = ''+'' \<or> f = t) \<and> match_parts fs ts))"

definition mqtt_topic_matches :: "string \<Rightarrow> string \<Rightarrow> bool" where
  "mqtt_topic_matches filter_str topic =
     (if filter_str = topic then True
      else match_parts (split_on CHR ''/'' filter_str) (split_on CHR ''/'' topic))"

definition is_subscribed_to_service_action ::
  "string \<Rightarrow> string \<Rightarrow> string \<Rightarrow> ('s, io_error, bool) io" where
  "is_subscribed_to_service_action product_id client_id service_type =
     bindE (get_subscriptions client_id) (\<lambda>subscriptions.
       ret (list_ex (\<lambda>sub. mqtt_topic_matches sub
         (product_id @ ''/'' @ client_id @ ''/thing/service/'' @ service_type @ ''/set'')) subscriptions))"

definition is_subscribed_to_properties :: "string \<Rightarrow> string \<Rightarrow> ('s, io_error, bool) io" where
  "is_subscribed_to_properties product_id client_id =
     is_subscribed_to_service_action product_id client_id ''property''"

section \<open>Lemmas\<close>

lemma post_publish_run:
  "post_publish req env w =
     (let w1 = w\<lparr>tick := Suc (tick w)\<rparr>; w2 = w1\<lparr>published := published w @ [req]\<rparr>
      in case net_outcome_at env (tick w) of
           Done \<Rightarrow> (Inr (), w2) | Unacked \<Rightarrow> (Inl CallFailed, w2) | _ \<Rightarrow> (Inl CallFailed, w1))"
  by (simp add: post_publish_def net_call_def ext_call_def Let_def split: outcome.split)

lemma steps_post_publish [steps_intros]: "steps_by R (post_publish req)"
  unfolding post_publish_def net_call_def by (rule steps_ext_call) simp

lemma steps_publish_attempts [steps_intros]: "steps_by R (publish_attempts r n req)"
  by (induction n) (auto intro!: steps_intros)

lemma steps_publish_command [steps_intros]: "steps_by R (publish_command cfg req)"
  unfolding publish_command_def by (intro steps_intros)

lemma steps_publish_response [steps_intros]: "steps_by R (publish_response cfg t p)"
  using steps_post_publish [of R, unfolded steps_by_def]
  unfolding steps_by_def publish_response_def Let_def by (simp; blast)

lemma steps_ack_response [steps_intros]: "steps_by R (ack_response ser cfg i t)"
  unfolding ack_response_def by (intro steps_intros)

lemma steps_is_subscribed [steps_intros]: "steps_by R (is_subscribed_to_properties p c)"
proof -
  have "steps_by R (get_subscriptions c)"
    by (simp add: steps_by_def get_subscriptions_def Let_def split: outcome.split)
  then show ?thesis
    unfolding is_subscribed_to_properties_def is_subscribed_to_service_action_def by (intro steps_intros)
qed

lemma publish_attempts_run:
  "\<exists>k n'. k \<le> Suc n \<and> n' \<le> tick w + Suc n \<and>
     publish_attempts r n req env w =
       (if \<exists>i\<le>n. net_outcome_at env (tick w + i) = Done then Inr ()
        else Inl (Bail (''Failed to publish command after '' @ show_nat r @ '' retries'')),
        w\<lparr>tick := n', published := published w @ replicate k req\<rparr>) \<and>
     ((\<exists>i\<le>n. net_outcome_at env (tick w + i) = Done) \<longrightarrow> 0 < k)"
proof (induction n arbitrary: w)
  case 0
  define k :: nat where "k = (if no_effect (net_outcome_at env (tick w)) then 0 else 1)"
  show ?case
    by (intro exI [of _ k] exI [of _ "Suc (tick w)"], cases "net_outcome_at env (tick w)")
      (simp_all add: matchE_def post_publish_run Let_def ret_def throw_def k_def no_effect_def)
next
  case (Suc n)
  let ?done = "\<lambda>w n. \<exists>i\<le>n. net_outcome_at env (tick w + i) = Done"
  show ?case
  proof (cases "net_outcome_at env (tick w) = Done")
    case True
    then have "?done w (Suc n)" by (intro exI [of _ 0]) simp
    with True show ?thesis
      by (intro exI [of _ 1] exI [of _ "Suc (tick w)"])
        (auto simp: matchE_def post_publish_run Let_def ret_def)
  next
    case False
    define j :: nat where "j = (if net_outcome_at env (tick w) = Unacked then 1 else 0)"
    let ?w1 = "w\<lparr>tick := Suc (tick w), published := published w @ replicate j req\<rparr>"
    have post: "post_publish req env w = (Inl CallFailed, ?w1)"
      using False by (cases "net_outcome_at env (tick w)") (simp_all add: post_publish_run Let_def j_def)
    have split: "?done w (Suc n) \<longleftrightarrow> ?done ?w1 n"
    proof
      assume "?done w (Suc n)"
      then obtain i where "i \<le> Suc n" "net_outcome_at env (tick w + i) = Done" by blast
      with False show "?done ?w1 n" by (cases i) auto
    qed (auto intro: exI [of _ "Suc _"])
    obtain k n' where "k \<le> Suc n" "n' \<le> tick ?w1 + Suc n" and run: "publish_attempts r n req env ?w1 =
       (if ?done ?w1 n then Inr () else Inl (Bail (''Failed to publish command after '' @ show_nat r @ '' retries'')),
        ?w1\<lparr>tick := n', published := published ?w1 @ replicate k req\<rparr>)" "?done ?w1 n \<longrightarrow> 0 < k"
      using Suc.IH [of ?w1] by blast
    moreover have "j \<le> 1" by (simp add: j_def)
    ultimately show ?thesis unfolding split
      by (intro exI [of _ "j + k"] exI [of _ n']) (simp add: matchE_def post replicate_add)
  qed
qed

lemma publish_command_run:
  obtains k n' where "k \<le> Suc (pb_retries (mq_property_command cfg))"
    "n' \<le> tick w + Suc (pb_retries (mq_property_command cfg))"
    "snd (publish_command cfg req env w) = w\<lparr>tick := n', published := published w @ replicate k req\<rparr>"
    "fst (publish_command cfg req env w) = Inr () \<longleftrightarrow>
      (\<exists>i\<le>pb_retries (mq_property_command cfg). net_outcome_at env (tick w + i) = Done)"
    "fst (publish_command cfg req env w) = Inr () \<longrightarrow> 0 < k"
proof -
  let ?r = "pb_retries (mq_property_command cfg)"
  let ?ok = "\<exists>i\<le>?r. net_outcome_at env (tick w + i) = Done"
  obtain k n' where k: "k \<le> Suc ?r" "n' \<le> tick w + Suc ?r" "?ok \<longrightarrow> 0 < k"
    and run: "publish_attempts ?r ?r req env w =
      (if ?ok then Inr () else Inl (Bail (''Failed to publish command after '' @ show_nat ?r @ '' retries'')),
       w\<lparr>tick := n', published := published w @ replicate k req\<rparr>)"
    using publish_attempts_run [where n = ?r and r = ?r and req = req and env = env and w = w] by blast
  show ?thesis
    by (rule that [of k n']) (use k in \<open>simp_all add: publish_command_def Let_def run\<close>)
qed

text \<open>
  Topic filters as MQTT defines them (OASIS MQTT 5.0, section 4.7), independently of the code. A filter is valid if
  each wildcard fills a whole level and the multi-level wildcard is the last one. A filter routes a topic if its levels
  do, and a filter that starts with a wildcard does not route topics that start with a dollar sign.
\<close>

fun valid_levels :: "string list \<Rightarrow> bool" where
  "valid_levels [] = True"
| "valid_levels (l # ls) \<longleftrightarrow>
     (CHR ''#'' \<in> set l \<longrightarrow> l = ''#'' \<and> ls = []) \<and> (CHR ''+'' \<in> set l \<longrightarrow> l = ''+'') \<and> valid_levels ls"

definition valid_filter :: "string \<Rightarrow> bool" where
  "valid_filter f \<longleftrightarrow> valid_levels (split_on CHR ''/'' f)"

inductive routes_levels :: "string list \<Rightarrow> string list \<Rightarrow> bool" where
  routes_end: "routes_levels [] []"
| routes_multi: "routes_levels [''#''] ts"
| routes_single: "routes_levels fs ts \<Longrightarrow> routes_levels (''+'' # fs) (t # ts)"
| routes_literal: "CHR ''#'' \<notin> set l \<Longrightarrow> CHR ''+'' \<notin> set l \<Longrightarrow> routes_levels fs ts \<Longrightarrow> routes_levels (l # fs) (l # ts)"

inductive_simps routes_levels_simps:
  "routes_levels [] ts" "routes_levels (f # fs) []" "routes_levels (f # fs) (t # ts)"

definition mqtt_routes :: "string \<Rightarrow> string \<Rightarrow> bool" where
  "mqtt_routes f topic \<longleftrightarrow> routes_levels (split_on CHR ''/'' f) (split_on CHR ''/'' topic) \<and>
     \<not> (starts_with topic ''$'' \<and> (starts_with f ''+'' \<or> starts_with f ''#''))"

lemma match_parts_routes:
  assumes "valid_levels fs"
  shows "match_parts fs ts \<longleftrightarrow> routes_levels fs ts"
  using assms
proof (induction fs ts rule: match_parts.induct)
  case (4 f fs t ts)
  then have IH: "match_parts fs ts \<longleftrightarrow> routes_levels fs ts" if "\<not> f = ''#''" "f = ''+'' \<or> f = t"
    using that by simp
  show ?case
  proof (cases "CHR ''#'' \<in> set f \<or> CHR ''+'' \<in> set f")
    case True
    with 4(2) have "f = ''#'' \<and> fs = [] \<or> f = ''+''" by auto
    with IH show ?thesis by (auto simp: routes_levels_simps)
  next
    case False
    then have "f \<noteq> ''#''" "f \<noteq> ''+''" by auto
    with False IH show ?thesis by (auto simp: routes_levels_simps)
  qed
qed (auto simp: routes_levels_simps)

lemma valid_levels_routes_refl: "valid_levels ts \<Longrightarrow> routes_levels ts ts"
  by (induction ts) (auto intro: routes_levels.intros)

lemma mqtt_topic_matches_levels:
  "valid_filter f \<Longrightarrow> mqtt_topic_matches f topic \<longleftrightarrow> routes_levels (split_on CHR ''/'' f) (split_on CHR ''/'' topic)"
  by (auto simp: mqtt_topic_matches_def valid_filter_def match_parts_routes valid_levels_routes_refl)

text \<open>
  Outside of that the code and MQTT part: wildcards match the topics of the broker itself, and a filter with a
  multi-level wildcard inside is not refused.
\<close>

lemma dollar_topic_matched:
  "mqtt_topic_matches ''#'' ''$SYS/uptime'' \<and> valid_filter ''#'' \<and> \<not> mqtt_routes ''#'' ''$SYS/uptime''"
  by (simp add: mqtt_topic_matches_def valid_filter_def mqtt_routes_def starts_with_def)

lemma inner_wildcard_matched: "mqtt_topic_matches ''a/#/b'' ''a/c'' \<and> \<not> valid_filter ''a/#/b''"
  by (simp add: mqtt_topic_matches_def valid_filter_def)



text \<open>
  C35: \<open>publish_command\<close> is at-least-once delivery with a bound: whatever the network does, it
  hands the broker between none and \<open>retries + 1\<close> copies of the request and nothing else
  changes in the world, it succeeds exactly if one of the \<open>retries + 1\<close> attempts it may make
  is answered, and when it succeeds the broker has at least one copy.
\<close>

theorem publish_command_bounded:
  "\<exists>k n'. k \<le> Suc (pb_retries (mq_property_command cfg)) \<and>
     snd (publish_command cfg req env w) = w\<lparr>tick := n', published := published w @ replicate k req\<rparr> \<and>
     (fst (publish_command cfg req env w) = Inr () \<longleftrightarrow>
        (\<exists>i\<le>pb_retries (mq_property_command cfg). net_outcome_at env (tick w + i) = Done)) \<and>
     (fst (publish_command cfg req env w) = Inr () \<longrightarrow> 0 < k)"
proof -
  obtain k n' where "k \<le> Suc (pb_retries (mq_property_command cfg))"
    and "snd (publish_command cfg req env w) = w\<lparr>tick := n', published := published w @ replicate k req\<rparr>"
    and "fst (publish_command cfg req env w) = Inr () \<longleftrightarrow>
      (\<exists>i\<le>pb_retries (mq_property_command cfg). net_outcome_at env (tick w + i) = Done)"
    and "fst (publish_command cfg req env w) = Inr () \<longrightarrow> 0 < k"
    by (rule publish_command_run)
  then show ?thesis by blast
qed

definition sample_request :: publish_request where
  "sample_request = \<lparr>pr_topic = ''p/d/thing/service/property/set'', pr_clientid = ''backend'',
     pr_payload = ''x'', pr_encoding = None, pr_qos = None, pr_retain = None\<rparr>"

definition sample_mqtt :: mqtt_config where
  "sample_mqtt =
     (let pub = \<lparr>pb_topic = ''t'', pb_clientid = ''backend'', pb_qos = 1, pb_retain = False, pb_retries = 2\<rparr>
      in \<lparr>mq_response = \<lparr>rc_clientid = ''backend'', rc_qos = 1, rc_retain = False\<rparr>,
          mq_property_command = pub, mq_service_command = pub\<rparr>)"

theorem publish_command_bounded_witness:
  "\<exists>k n'. 0 < k \<and> k \<le> 3 \<and>
     snd (publish_command sample_mqtt sample_request all_done empty_world) =
       empty_world\<lparr>tick := n', published := replicate k sample_request\<rparr>"
proof -
  have ok: "fst (publish_command sample_mqtt sample_request all_done empty_world) = Inr ()"
    by (simp add: publish_command_def sample_mqtt_def all_done_def empty_world_def Let_def
      numeral_2_eq_2 matchE_def post_publish_run ret_def)
  show ?thesis
    using publish_command_bounded [of sample_mqtt sample_request all_done empty_world] ok
    by (auto simp: sample_mqtt_def Let_def empty_world_def)
qed

end
