(* ===== verification/Commands.thy ===== *)
theory Commands
  imports Rmqtt "HOL-Library.Product_Lexorder"
begin

text \<open>
  Commands to devices: the tables \<open>property_command\<close> and \<open>action_invocation\<close> of
  \<open>backend/src/db/database.rs\<close> and their delivery in \<open>backend/src/api/utils.rs\<close>. Both
  tables follow one life cycle, which the locale \<open>command_table\<close> states once. \<open>ser_payload\<close>
  stands for \<open>serde_json::to_string\<close>.
\<close>

datatype ack_status = AckNo | AckYes

record mqtt_payload =
  mp_id :: string
  mp_ack :: ack_status
  mp_params :: "json option"

section \<open>Statements on property commands\<close>

definition insert_property_command_sql ::
  "string \<Rightarrow> string \<Rightarrow> json \<Rightarrow> command_source \<Rightarrow> instant \<Rightarrow> database \<Rightarrow> int \<times> database" where
  "insert_property_command_sql product_id device_id command source now d =
     (let i = next_property_command_id d;
          row = \<lparr>pc_id = i, pc_product_id = product_id, pc_device_id = device_id,
                 pc_command = command, pc_status = Pending, pc_source = source,
                 pc_created_time = now, pc_updated_time = now\<rparr>
      in (i, d\<lparr>property_commands := property_commands d @ [row], next_property_command_id := i + 1\<rparr>))"

definition insert_property_command ::
  "string \<Rightarrow> string \<Rightarrow> json \<Rightarrow> command_source \<Rightarrow> ('s, io_error, int) io" where
  "insert_property_command product_id device_id command source =
     db_exec (insert_property_command_sql product_id device_id command source)"

text \<open>\<open>SET status = to, updated_time = CURRENT_TIMESTAMP WHERE P AND status = prev\<close>.\<close>

definition set_pc_status :: "command_status \<Rightarrow> instant \<Rightarrow> property_command \<Rightarrow> property_command" where
  "set_pc_status to now r = r\<lparr>pc_status := to, pc_updated_time := now\<rparr>"

definition move_commands ::
  "(property_command \<Rightarrow> bool) \<Rightarrow> command_status \<Rightarrow> command_status \<Rightarrow> instant \<Rightarrow> database \<Rightarrow>
   property_command list \<times> database" where
  "move_commands P prev to now d =
     (let Q = (\<lambda>r. P r \<and> pc_status r = prev)
      in (map (set_pc_status to now) (filter Q (property_commands d)),
          d\<lparr>property_commands := update_where Q (set_pc_status to now) (property_commands d)\<rparr>))"

definition update_property_command_status ::
  "int list \<Rightarrow> string \<Rightarrow> string \<Rightarrow> command_status \<Rightarrow> command_status \<Rightarrow> ('s, io_error, unit) io" where
  "update_property_command_status command_id product_id device_id new_status prev_status =
     bindE (db_exec (move_commands (\<lambda>r. pc_id r \<in> set command_id \<and> pc_product_id r = product_id \<and>
       pc_device_id r = device_id) prev_status new_status)) (\<lambda>_. ret ())"

definition update_sent_commands_to_failed :: "int list \<Rightarrow> ('s, io_error, unit) io" where
  "update_sent_commands_to_failed command_ids =
     bindE (db_exec (move_commands (\<lambda>r. pc_id r \<in> set command_ids) Sent Failed)) (\<lambda>_. ret ())"

text \<open>The rows come back in an arbitrary order and are sorted by creation time and id.\<close>

definition update_pending_commands_to_sent ::
  "string \<Rightarrow> string \<Rightarrow> ('s, io_error, (int \<times> json \<times> instant) list) io" where
  "update_pending_commands_to_sent product_id device_id =
     bindE (db_exec (move_commands (\<lambda>r. pc_product_id r = product_id \<and> pc_device_id r = device_id)
       Pending Sent)) (\<lambda>rows.
     ret (sort_key (\<lambda>(i, _, created_time). (created_time, i))
       (map (\<lambda>r. (pc_id r, pc_command r, pc_created_time r)) rows)))"

definition delete_property_commands :: "int list \<Rightarrow> ('s, io_error, int) io" where
  "delete_property_commands ids =
     bindE (db_exec (move_commands (\<lambda>r. pc_id r \<in> set ids) Pending Deleted)) (\<lambda>rows.
     ret (int (length rows)))"

definition property_command_rows ::
  "string \<Rightarrow> string option \<Rightarrow> command_status option \<Rightarrow> command_source option \<Rightarrow> database \<Rightarrow>
   property_command list" where
  "property_command_rows product_id device_id st source d =
     filter (\<lambda>r. pc_product_id r = product_id \<and> opt_eq device_id (pc_device_id r) \<and>
       opt_eq st (pc_status r) \<and> opt_eq source (pc_source r)) (property_commands d)"

definition query_property_commands_by_source ::
  "string \<Rightarrow> string option \<Rightarrow> command_status option \<Rightarrow> command_source option \<Rightarrow> int \<Rightarrow> int \<Rightarrow>
   ('s, io_error, property_command list \<times> int) io" where
  "query_property_commands_by_source product_id device_id st source page page_size =
     (let rows = property_command_rows product_id device_id st source
      in bindE (query_page (\<lambda>d. sort_key (\<lambda>r. - pc_updated_time r) (rows d)) page page_size) (\<lambda>commands.
         bindE (query_count rows) (\<lambda>total. ret (commands, total))))"

section \<open>Statements on action invocations\<close>

definition insert_action_invocation_sql ::
  "string \<Rightarrow> string \<Rightarrow> string \<Rightarrow> json \<Rightarrow> instant \<Rightarrow> database \<Rightarrow> int \<times> database" where
  "insert_action_invocation_sql product_id device_id service_type params now d =
     (let i = next_action_invocation_id d;
          row = \<lparr>ai_id = i, ai_product_id = product_id, ai_device_id = device_id,
                 ai_service_type = service_type, ai_params = params, ai_status = Pending,
                 ai_created_time = now, ai_updated_time = now\<rparr>
      in (i, d\<lparr>action_invocations := action_invocations d @ [row], next_action_invocation_id := i + 1\<rparr>))"

definition insert_action_invocation ::
  "string \<Rightarrow> string \<Rightarrow> string \<Rightarrow> json \<Rightarrow> ('s, io_error, int) io" where
  "insert_action_invocation product_id device_id service_type params =
     db_exec (insert_action_invocation_sql product_id device_id service_type params)"

definition set_ai_status :: "command_status \<Rightarrow> instant \<Rightarrow> action_invocation \<Rightarrow> action_invocation" where
  "set_ai_status to now r = r\<lparr>ai_status := to, ai_updated_time := now\<rparr>"

definition move_actions ::
  "(action_invocation \<Rightarrow> bool) \<Rightarrow> command_status \<Rightarrow> command_status \<Rightarrow> instant \<Rightarrow> database \<Rightarrow>
   action_invocation list \<times> database" where
  "move_actions P prev to now d =
     (let Q = (\<lambda>r. P r \<and> ai_status r = prev)
      in (map (set_ai_status to now) (filter Q (action_invocations d)),
          d\<lparr>action_invocations := update_where Q (set_ai_status to now) (action_invocations d)\<rparr>))"

definition pending_actions :: "string \<Rightarrow> string \<Rightarrow> database \<Rightarrow> action_invocation list" where
  "pending_actions product_id device_id d =
     filter (\<lambda>r. ai_product_id r = product_id \<and> ai_device_id r = device_id \<and> ai_status r = Pending)
       (action_invocations d)"

text \<open>
  The subselect picks the oldest pending row, the update claims it. Rows another transaction has
  locked are skipped; in a sequence of atomic statements there are none. The id is the primary
  key, so the condition on the id alone and the one that repeats the status pick the same row.
\<close>

definition claim_next_pending_action_sql ::
  "string \<Rightarrow> string \<Rightarrow> instant \<Rightarrow> database \<Rightarrow> action_invocation option \<times> database" where
  "claim_next_pending_action_sql product_id device_id now d =
     (case sort_key (\<lambda>r. (ai_created_time r, ai_id r)) (pending_actions product_id device_id d) of
        [] \<Rightarrow> (None, d)
      | r # _ \<Rightarrow>
          (case move_actions (\<lambda>x. ai_id x = ai_id r) Pending Sent now d of
             (rows, d') \<Rightarrow> (case rows of [] \<Rightarrow> None | x # _ \<Rightarrow> Some x, d')))"

definition claim_next_pending_action ::
  "string \<Rightarrow> string \<Rightarrow> ('s, io_error, action_invocation option) io" where
  "claim_next_pending_action product_id device_id =
     db_exec (claim_next_pending_action_sql product_id device_id)"

definition update_action_invocation_status ::
  "int \<Rightarrow> string \<Rightarrow> string \<Rightarrow> string \<Rightarrow> command_status \<Rightarrow> command_status \<Rightarrow> ('s, io_error, nat) io" where
  "update_action_invocation_status i product_id device_id service_type new_status prev_status =
     bindE (db_exec (move_actions (\<lambda>r. ai_id r = i \<and> ai_product_id r = product_id \<and>
       ai_device_id r = device_id \<and> ai_service_type r = service_type) prev_status new_status)) (\<lambda>rows.
     ret (length rows))"

definition delete_action_invocations :: "int list \<Rightarrow> ('s, io_error, int) io" where
  "delete_action_invocations ids =
     bindE (db_exec (move_actions (\<lambda>r. ai_id r \<in> set ids) Pending Deleted)) (\<lambda>rows.
     ret (int (length rows)))"

definition action_invocation_rows ::
  "string \<Rightarrow> string option \<Rightarrow> string option \<Rightarrow> command_status option \<Rightarrow> database \<Rightarrow>
   action_invocation list" where
  "action_invocation_rows product_id device_id service_type st d =
     filter (\<lambda>r. ai_product_id r = product_id \<and> opt_eq device_id (ai_device_id r) \<and>
       opt_eq service_type (ai_service_type r) \<and> opt_eq st (ai_status r)) (action_invocations d)"

definition query_action_invocations ::
  "string \<Rightarrow> string option \<Rightarrow> string option \<Rightarrow> command_status option \<Rightarrow> int \<Rightarrow> int \<Rightarrow>
   ('s, io_error, action_invocation list \<times> int) io" where
  "query_action_invocations product_id device_id service_type st page page_size =
     (let rows = action_invocation_rows product_id device_id service_type st
      in bindE (query_page (\<lambda>d. sort_key (\<lambda>r. - ai_updated_time r) (rows d)) page page_size) (\<lambda>invocations.
         bindE (query_count rows) (\<lambda>total. ret (invocations, total))))"

section \<open>The unified list of operations\<close>

datatype device_operation_type = TargetSync | DirectPropertyWrite | ActionInvocation

record device_operation_query =
  oq_product_id :: string
  oq_device_id :: "string option"
  oq_operation_type :: "device_operation_type option"
  oq_status :: "command_status option"
  oq_page :: int
  oq_page_size :: int

record device_operation_row =
  or_operation_id :: string
  or_operation_type :: string
  or_name :: string
  or_payload :: json
  or_status :: command_status
  or_created_time :: instant
  or_updated_time :: instant

record device_operation_view =
  ow_operation_id :: string
  ow_operation_type :: device_operation_type
  ow_name :: string
  ow_payload :: json
  ow_status :: command_status
  ow_created_time :: instant
  ow_updated_time :: instant

record pagination_info =
  pg_page :: int
  pg_page_size :: int
  pg_total :: int

definition property_operation_row :: "property_command \<Rightarrow> device_operation_row" where
  "property_operation_row r =
     \<lparr>or_operation_id = ''property:'' @ show_int (pc_id r),
      or_operation_type = (case pc_source r of OneShot \<Rightarrow> ''directPropertyWrite'' | DesiredDelta \<Rightarrow> ''targetSync''),
      or_name = (case pc_source r of OneShot \<Rightarrow> ''Set properties'' | DesiredDelta \<Rightarrow> ''Sync target''),
      or_payload = pc_command r, or_status = pc_status r,
      or_created_time = pc_created_time r, or_updated_time = pc_updated_time r\<rparr>"

definition action_operation_row :: "action_invocation \<Rightarrow> device_operation_row" where
  "action_operation_row r =
     \<lparr>or_operation_id = ''action:'' @ show_int (ai_id r), or_operation_type = ''actionInvocation'',
      or_name = ai_service_type r, or_payload = ai_params r, or_status = ai_status r,
      or_created_time = ai_created_time r, or_updated_time = ai_updated_time r\<rparr>"

definition push_device_operation_union :: "device_operation_query \<Rightarrow> database \<Rightarrow> device_operation_row list" where
  "push_device_operation_union q d =
     map property_operation_row
       (filter (\<lambda>r. pc_product_id r = oq_product_id q \<and> opt_eq (oq_device_id q) (pc_device_id r) \<and>
          opt_eq (oq_status q) (pc_status r) \<and>
          (case oq_operation_type q of
             Some DirectPropertyWrite \<Rightarrow> pc_source r = OneShot
           | Some TargetSync \<Rightarrow> pc_source r = DesiredDelta
           | Some ActionInvocation \<Rightarrow> False
           | None \<Rightarrow> True)) (property_commands d)) @
     map action_operation_row
       (filter (\<lambda>r. ai_product_id r = oq_product_id q \<and> opt_eq (oq_device_id q) (ai_device_id r) \<and>
          opt_eq (oq_status q) (ai_status r) \<and>
          (case oq_operation_type q of
             Some DirectPropertyWrite \<Rightarrow> False
           | Some TargetSync \<Rightarrow> False
           | _ \<Rightarrow> True)) (action_invocations d))"

text \<open>\<open>ORDER BY updated_time DESC, operation_id DESC\<close>, with ids compared byte by byte.\<close>

definition order_operations :: "device_operation_row list \<Rightarrow> device_operation_row list" where
  "order_operations rows = rev (sort_key (\<lambda>r. (or_updated_time r, or_operation_id r)) rows)"

definition operation_view :: "device_operation_row \<Rightarrow> io_error + device_operation_view" where
  "operation_view row =
     (let view = (\<lambda>ty. Inr \<lparr>ow_operation_id = or_operation_id row, ow_operation_type = ty,
            ow_name = or_name row, ow_payload = or_payload row, ow_status = or_status row,
            ow_created_time = or_created_time row, ow_updated_time = or_updated_time row\<rparr>)
      in if or_operation_type row = ''directPropertyWrite'' then view DirectPropertyWrite
         else if or_operation_type row = ''targetSync'' then view TargetSync
         else if or_operation_type row = ''actionInvocation'' then view ActionInvocation
         else Inl (Bail (''unknown device operation type constant: '' @ or_operation_type row)))"

fun operation_views :: "device_operation_row list \<Rightarrow> io_error + device_operation_view list" where
  "operation_views [] = Inr []"
| "operation_views (r # rs) =
     (case operation_view r of
        Inl e \<Rightarrow> Inl e
      | Inr v \<Rightarrow> (case operation_views rs of Inl e \<Rightarrow> Inl e | Inr vs \<Rightarrow> Inr (v # vs)))"

definition query_device_operations ::
  "device_operation_query \<Rightarrow> ('s, io_error, device_operation_view list \<times> pagination_info) io" where
  "query_device_operations q =
     bindE (query_page (\<lambda>d. order_operations (push_device_operation_union q d)) (oq_page q) (oq_page_size q)) (\<lambda>rows.
     bindE (lift_res (operation_views rows)) (\<lambda>operations.
     bindE (query_count (push_device_operation_union q)) (\<lambda>total.
     ret (operations, \<lparr>pg_page = oq_page q, pg_page_size = oq_page_size q, pg_total = total\<rparr>))))"

section \<open>Delivery\<close>

definition command_payload :: "string \<Rightarrow> int \<Rightarrow> json \<Rightarrow> mqtt_payload" where
  "command_payload prefix i params =
     \<lparr>mp_id = prefix @ '':'' @ show_int i, mp_ack = AckYes, mp_params = Some params\<rparr>"

definition device_topic :: "publish_config \<Rightarrow> string \<Rightarrow> string \<Rightarrow> string" where
  "device_topic cfg product_id device_id =
     str_replace ''${clientid}'' device_id (str_replace ''${productId}'' product_id (pb_topic cfg))"

definition command_request :: "publish_config \<Rightarrow> string \<Rightarrow> string \<Rightarrow> publish_request" where
  "command_request cfg topic payload =
     \<lparr>pr_topic = topic, pr_clientid = pb_clientid cfg, pr_payload = payload, pr_encoding = Some ''plain'',
      pr_qos = Some (pb_qos cfg), pr_retain = Some (pb_retain cfg)\<rparr>"

text \<open>The body of the loop over the claimed property commands.\<close>

definition publish_property_row ::
  "(mqtt_payload \<Rightarrow> string option) \<Rightarrow> mqtt_config \<Rightarrow> string \<Rightarrow> int \<times> json \<times> instant \<Rightarrow> ('s, io_error, unit) io" where
  "publish_property_row ser_payload cfg topic = (\<lambda>(i, command, _).
     bindE (ok_or CallFailed (ser_payload (command_payload ''property'' i command))) (\<lambda>payload.
       matchE (publish_command cfg (command_request (mq_property_command cfg) topic payload))
         ret (\<lambda>_. update_sent_commands_to_failed [i])))"

definition send_property_command_to_device ::
  "(mqtt_payload \<Rightarrow> string option) \<Rightarrow> mqtt_config \<Rightarrow> string \<Rightarrow> string \<Rightarrow> ('s, io_error, unit) io" where
  "send_property_command_to_device ser_payload cfg product_id device_id =
     bindE (update_pending_commands_to_sent product_id device_id) (\<lambda>commands.
       if commands = [] then ret ()
       else forE commands
         (publish_property_row ser_payload cfg (device_topic (mq_property_command cfg) product_id device_id)))"

text \<open>The body of the action loop after a row is claimed.\<close>

definition publish_action_row ::
  "(mqtt_payload \<Rightarrow> string option) \<Rightarrow> mqtt_config \<Rightarrow> string \<Rightarrow> string \<Rightarrow> action_invocation \<Rightarrow>
   ('s, io_error, unit) io" where
  "publish_action_row ser_payload cfg product_id device_id row =
     (let topic = str_replace ''${service_type}'' (ai_service_type row)
                    (device_topic (mq_service_command cfg) product_id device_id)
      in bindE (ok_or CallFailed (ser_payload (command_payload ''action'' (ai_id row) (ai_params row)))) (\<lambda>payload.
         matchE (publish_command cfg (command_request (mq_service_command cfg) topic payload))
           ret
           (\<lambda>_. ignoreE (update_action_invocation_status (ai_id row) product_id device_id
                  (ai_service_type row) Failed Sent))))"

section \<open>The life cycle of a command\<close>

text \<open>The abstract queue: for each id what was asked of which device, and the status.\<close>

type_synonym 'k command_queue = "int \<rightharpoonup> 'k \<times> command_status"

inductive lifecycle :: "command_status \<Rightarrow> command_status \<Rightarrow> bool" where
  "lifecycle Pending Sent"
| "lifecycle Pending Deleted"
| "lifecycle Sent Success"
| "lifecycle Sent Failed"

text \<open>Move every command in state \<open>s\<close> that satisfies \<open>C\<close> to state \<open>t\<close>.\<close>

definition advance ::
  "(int \<Rightarrow> 'k \<Rightarrow> bool) \<Rightarrow> command_status \<Rightarrow> command_status \<Rightarrow> 'k command_queue \<Rightarrow> 'k command_queue" where
  "advance C s t q = (\<lambda>i. case q i of None \<Rightarrow> None | Some (k, u) \<Rightarrow> Some (k, if C i k \<and> u = s then t else u))"

inductive queue_step :: "'k command_queue \<Rightarrow> 'k command_queue \<Rightarrow> bool" where
  queue_submit: "q i = None \<Longrightarrow> queue_step q (q(i \<mapsto> (k, Pending)))"
| queue_advance: "lifecycle s t \<Longrightarrow> queue_step q (advance C s t q)"

lemma queue_step_lifecycle:
  assumes "queue_step q q'" "q i = Some (k, s)"
  shows "\<exists>s'. q' i = Some (k, s') \<and> lifecycle\<^sup>*\<^sup>* s s'"
  using assms
proof cases
  case (queue_submit j k')
  then show ?thesis using assms(2) by auto
next
  case (queue_advance u t C)
  then show ?thesis using assms(2) by (auto simp: advance_def)
qed

lemma queue_steps_lifecycle:
  assumes "queue_step\<^sup>*\<^sup>* q q'" "q i = Some (k, s)"
  shows "\<exists>s'. q' i = Some (k, s') \<and> lifecycle\<^sup>*\<^sup>* s s'"
  using assms
proof (induction rule: rtranclp_induct)
  case (step y z)
  then show ?case by (meson queue_step_lifecycle rtranclp_trans)
qed auto

text \<open>The life cycle is a partial order on the states, in which a command only moves up.\<close>

instantiation command_status :: order
begin

definition less_eq_command_status :: "command_status \<Rightarrow> command_status \<Rightarrow> bool" where
  "less_eq_command_status s t \<longleftrightarrow> s = t \<or> s = Pending \<or> (s = Sent \<and> (t = Success \<or> t = Failed))"

definition less_command_status :: "command_status \<Rightarrow> command_status \<Rightarrow> bool" where
  "less_command_status s t \<longleftrightarrow> s \<le> t \<and> s \<noteq> t"

instance
  by standard (auto simp: less_eq_command_status_def less_command_status_def)

end

lemma lifecycle_le: "lifecycle\<^sup>*\<^sup>* s t \<longleftrightarrow> s \<le> t"
proof
  show "s \<le> t" if "lifecycle\<^sup>*\<^sup>* s t"
    using that by induction (auto simp: less_eq_command_status_def elim: lifecycle.cases)
  have "lifecycle\<^sup>*\<^sup>* Sent t" if "t = Success \<or> t = Failed" for t
    using that by (auto intro: lifecycle.intros)
  moreover have "lifecycle\<^sup>*\<^sup>* Pending Sent" by (auto intro: lifecycle.intros)
  ultimately show "lifecycle\<^sup>*\<^sup>* s t" if "s \<le> t"
    using that by (cases t) (auto simp: less_eq_command_status_def intro: lifecycle.intros rtranclp_trans)
qed

corollary queue_steps_grow:
  assumes "queue_step\<^sup>*\<^sup>* q q'" and "q i = Some (k, s)"
  shows "\<exists>s'\<ge>s. q' i = Some (k, s')"
  using queue_steps_lifecycle [OF assms] by (auto simp: lifecycle_le)

text \<open>What the two tables have in common: rows with an id, a content (the device, what it is asked
  and when) and a status that is set without touching the other two.\<close>

locale command_table =
  fixes rid :: "'r \<Rightarrow> int"
    and rdev :: "'r \<Rightarrow> 'k"
    and rst :: "'r \<Rightarrow> command_status"
    and set_st :: "command_status \<Rightarrow> instant \<Rightarrow> 'r \<Rightarrow> 'r"
  assumes rid_set: "rid (set_st s now r) = rid r"
    and rdev_set: "rdev (set_st s now r) = rdev r"
    and rst_set: "rst (set_st s now r) = s"
begin

definition queue :: "'r list \<Rightarrow> 'k command_queue" where
  "queue rows = map_of (map (\<lambda>r. (rid r, rdev r, rst r)) rows)"

definition wf_rows :: "int \<Rightarrow> 'r list \<Rightarrow> bool" where
  "wf_rows nxt rows \<longleftrightarrow> (\<forall>r\<in>set rows. rid r < nxt) \<and> distinct (map rid rows)"

lemma wf_rows_move:
  "wf_rows nxt rows \<Longrightarrow> wf_rows nxt (update_where P (set_st t now) rows)"
  by (auto simp: wf_rows_def set_update_where map_update_where rid_set)

lemma wf_rows_snoc:
  "wf_rows nxt rows \<Longrightarrow> rid r = nxt \<Longrightarrow> wf_rows (nxt + 1) (rows @ [r])"
  by (fastforce simp: wf_rows_def)

lemma queue_None: "queue rows i = None \<longleftrightarrow> i \<notin> rid ` set rows"
  by (force simp: queue_def map_of_eq_None_iff image_image)

lemma queue_row: "distinct (map rid rows) \<Longrightarrow> r \<in> set rows \<Longrightarrow> queue rows (rid r) = Some (rdev r, rst r)"
  unfolding queue_def by (rule map_of_is_SomeI) (auto simp: comp_def)

lemma queue_snoc:
  assumes "wf_rows nxt rows" "rid r = nxt"
  shows "queue (rows @ [r]) = (queue rows)(nxt \<mapsto> (rdev r, rst r))"
    and "queue rows nxt = None"
proof -
  show None: "queue rows nxt = None"
    using assms(1) by (auto simp: queue_None wf_rows_def)
  show "queue (rows @ [r]) = (queue rows)(nxt \<mapsto> (rdev r, rst r))"
    using None assms(2) by (auto simp: queue_def map_add_def fun_eq_iff split: option.split)
qed

lemma queue_fresh: "wf_rows nxt rows \<Longrightarrow> queue rows nxt = None"
  by (auto simp: queue_None wf_rows_def)

lemma queue_Some: "queue rows i = Some (k, u) \<Longrightarrow> \<exists>r\<in>set rows. rid r = i \<and> rdev r = k \<and> rst r = u"
  unfolding queue_def by (drule map_of_SomeD) auto

lemma queue_move:
  assumes "distinct (map rid rows)" "\<And>r. r \<in> set rows \<Longrightarrow> P r = C (rid r) (rdev r)"
  shows "queue (update_where (\<lambda>r. P r \<and> rst r = s) (set_st t now) rows) = advance C s t (queue rows)"
proof
  fix i
  let ?f = "\<lambda>r. if P r \<and> rst r = s then set_st t now r else r"
  have same: "distinct (map rid (map ?f rows))"
    using assms(1) by (simp add: comp_def if_distrib rid_set cong: if_cong)
  show "queue (update_where (\<lambda>r. P r \<and> rst r = s) (set_st t now) rows) i = advance C s t (queue rows) i"
  proof (cases "i \<in> rid ` set rows")
    case True
    then obtain r where r: "r \<in> set rows" "i = rid r" by auto
    have "queue (map ?f rows) (rid (?f r)) = Some (rdev (?f r), rst (?f r))"
      using queue_row [OF same, of "?f r"] r(1) by force
    then have "queue (map ?f rows) i = Some (rdev r, if P r \<and> rst r = s then t else rst r)"
      by (cases "P r \<and> rst r = s") (auto simp: r(2) rid_set rdev_set rst_set)
    moreover have "queue rows i = Some (rdev r, rst r)"
      using queue_row [OF assms(1) r(1)] r(2) by simp
    ultimately show ?thesis using assms(2) [OF r(1)] r(2) by (simp add: update_where_def advance_def)
  next
    case False
    then have "queue rows i = None" by (simp add: queue_None)
    moreover have "queue (map ?f rows) i = None"
      using False by (auto simp: queue_None rid_set)
    ultimately show ?thesis by (simp add: update_where_def advance_def)
  qed
qed

lemma queue_update:
  assumes "distinct (map rid rows)"
  shows "\<exists>C. queue (update_where (\<lambda>r. P r \<and> rst r = s) (set_st t now) rows) = advance C s t (queue rows)"
proof -
  have "P r = (\<exists>r'\<in>set rows. rid r' = rid r \<and> P r')" if "r \<in> set rows" for r
    using assms that by (auto simp: distinct_map dest: inj_onD)
  from queue_move [where C = "\<lambda>i k. \<exists>r\<in>set rows. rid r = i \<and> P r", OF assms this] show ?thesis by blast
qed

lemma queue_iff:
  "distinct (map rid rows) \<Longrightarrow> queue rows i = Some (k, u) \<longleftrightarrow> (\<exists>r\<in>set rows. rid r = i \<and> rdev r = k \<and> rst r = u)"
  using queue_row queue_Some by fastforce

lemma moved_count:
  assumes "distinct (map rid rows)" "\<And>r. P r = C (rid r) (rdev r)"
  shows "length (filter (\<lambda>r. P r \<and> rst r = s) rows) = card {i. \<exists>k. queue rows i = Some (k, s) \<and> C i k}"
proof -
  have "{i. \<exists>k. queue rows i = Some (k, s) \<and> C i k} = rid ` set (filter (\<lambda>r. P r \<and> rst r = s) rows)"
    using assms(2) by (auto simp: queue_iff [OF assms(1)])
  then show ?thesis using distinct_card [OF distinct_map_filter [OF assms(1)]] by (metis length_map list.set_map)
qed

lemma queue_move_step:
  "wf_rows nxt rows \<Longrightarrow> lifecycle s t \<Longrightarrow>
   queue_step (queue rows) (queue (update_where (\<lambda>r. P r \<and> rst r = s) (set_st t now) rows))"
  unfolding wf_rows_def by (metis queue_update queue_advance)

lemma queue_snoc_step:
  "wf_rows nxt rows \<Longrightarrow> rid r = nxt \<Longrightarrow> rst r = Pending \<Longrightarrow> queue_step (queue rows) (queue (rows @ [r]))"
  by (simp add: queue_snoc queue_submit)

end

type_synonym property_request = "(string \<times> string) \<times> json \<times> command_source \<times> instant"
type_synonym action_request = "(string \<times> string) \<times> string \<times> json \<times> instant"

definition requested_property :: "property_command \<Rightarrow> property_request" where
  "requested_property r = ((pc_product_id r, pc_device_id r), pc_command r, pc_source r, pc_created_time r)"

definition requested_action :: "action_invocation \<Rightarrow> action_request" where
  "requested_action r = ((ai_product_id r, ai_device_id r), ai_service_type r, ai_params r, ai_created_time r)"

interpretation pcs: command_table pc_id requested_property pc_status set_pc_status
  by unfold_locales (simp_all add: set_pc_status_def requested_property_def)

interpretation ais: command_table ai_id requested_action ai_status set_ai_status
  by unfold_locales (simp_all add: set_ai_status_def requested_action_def)

definition property_queue :: "database \<Rightarrow> property_request command_queue" where
  "property_queue d = pcs.queue (property_commands d)"

definition action_queue :: "database \<Rightarrow> action_request command_queue" where
  "action_queue d = ais.queue (action_invocations d)"

definition wf_commands :: "database \<Rightarrow> bool" where
  "wf_commands d \<longleftrightarrow> pcs.wf_rows (next_property_command_id d) (property_commands d) \<and>
     ais.wf_rows (next_action_invocation_id d) (action_invocations d)"

text \<open>Every statement of the backend that writes one of the two tables, as one step.\<close>

inductive command_step :: "database \<Rightarrow> database \<Rightarrow> bool" where
  cs_insert_property: "command_step d (snd (insert_property_command_sql p dv c src now d))"
| cs_claim_properties: "command_step d (snd (move_commands
      (\<lambda>r. pc_product_id r = p \<and> pc_device_id r = dv) Pending Sent now d))"
| cs_fail_properties: "command_step d (snd (move_commands (\<lambda>r. pc_id r \<in> set ids) Sent Failed now d))"
| cs_reply_property: "s = Success \<or> s = Failed \<Longrightarrow> command_step d (snd (move_commands
      (\<lambda>r. pc_id r \<in> set ids \<and> pc_product_id r = p \<and> pc_device_id r = dv) Sent s now d))"
| cs_delete_properties: "command_step d (snd (move_commands (\<lambda>r. pc_id r \<in> set ids) Pending Deleted now d))"
| cs_insert_action: "command_step d (snd (insert_action_invocation_sql p dv sv c now d))"
| cs_claim_action: "command_step d (snd (claim_next_pending_action_sql p dv now d))"
| cs_reply_action: "s = Success \<or> s = Failed \<Longrightarrow> command_step d (snd (move_actions
      (\<lambda>r. ai_id r = i \<and> ai_product_id r = p \<and> ai_device_id r = dv \<and> ai_service_type r = sv) Sent s now d))"
| cs_delete_actions: "command_step d (snd (move_actions (\<lambda>r. ai_id r \<in> set ids) Pending Deleted now d))"

text \<open>Every step submits or moves along the life cycle, on one table.\<close>

lemma move_commands_sim:
  assumes "wf_commands d" "lifecycle s t" "d' = snd (move_commands P s t now d)"
  shows "wf_commands d' \<and> queue_step (property_queue d) (property_queue d') \<and> action_queue d' = action_queue d"
  using assms
  by (auto simp: move_commands_def Let_def wf_commands_def property_queue_def action_queue_def
    intro: pcs.wf_rows_move pcs.queue_move_step)

lemma move_actions_sim:
  assumes "wf_commands d" "lifecycle s t" "d' = snd (move_actions P s t now d)"
  shows "wf_commands d' \<and> queue_step (action_queue d) (action_queue d') \<and> property_queue d' = property_queue d"
  using assms
  by (auto simp: move_actions_def Let_def wf_commands_def property_queue_def action_queue_def
    intro: ais.wf_rows_move ais.queue_move_step)

lemma claim_sql_cases:
  obtains "claim_next_pending_action_sql p dv now d = (None, d)" "pending_actions p dv d = []"
  | r where "r \<in> set (pending_actions p dv d)"
      "snd (claim_next_pending_action_sql p dv now d) =
         snd (move_actions (\<lambda>x. ai_id x = ai_id r) Pending Sent now d)"
proof (cases "sort_key (\<lambda>r. (ai_created_time r, ai_id r)) (pending_actions p dv d)")
  case Nil
  then have "pending_actions p dv d = []" by (metis set_empty set_sort)
  with Nil that(1) show ?thesis by (simp add: claim_next_pending_action_sql_def)
next
  case (Cons r rs)
  then have "r \<in> set (pending_actions p dv d)" by (metis list.set_intros(1) set_sort)
  with Cons that(2) show ?thesis
    by (simp add: claim_next_pending_action_sql_def split: prod.split)
qed

lemma command_step_sim:
  assumes "command_step d d'" "wf_commands d"
  shows "wf_commands d' \<and> queue_step\<^sup>=\<^sup>= (property_queue d) (property_queue d') \<and>
    queue_step\<^sup>=\<^sup>= (action_queue d) (action_queue d')"
  using assms(1)
proof cases
  case (cs_insert_property p dv c src now)
  with assms(2) show ?thesis
    by (auto simp: wf_commands_def property_queue_def action_queue_def insert_property_command_sql_def Let_def
      intro: pcs.wf_rows_snoc pcs.queue_snoc_step)
next
  case (cs_insert_action p dv sv c now)
  with assms(2) show ?thesis
    by (auto simp: wf_commands_def property_queue_def action_queue_def insert_action_invocation_sql_def Let_def
      intro: ais.wf_rows_snoc ais.queue_snoc_step)
next
  case (cs_claim_action p dv now)
  show ?thesis
  proof (rule claim_sql_cases [of p dv now d])
    fix r assume "snd (claim_next_pending_action_sql p dv now d) =
      snd (move_actions (\<lambda>x. ai_id x = ai_id r) Pending Sent now d)"
    with cs_claim_action have "d' = snd (move_actions (\<lambda>x. ai_id x = ai_id r) Pending Sent now d)" by simp
    with assms(2) show ?thesis using move_actions_sim lifecycle.intros(1) by fastforce
  qed (use cs_claim_action assms(2) in auto)
next
  case cs_claim_properties
  from move_commands_sim [OF assms(2) _ this] show ?thesis by (simp add: lifecycle.intros)
next
  case cs_fail_properties
  from move_commands_sim [OF assms(2) _ this] show ?thesis by (simp add: lifecycle.intros)
next
  case (cs_reply_property s)
  from move_commands_sim [OF assms(2) _ this(1)] this(2) show ?thesis by (auto simp: lifecycle.intros)
next
  case cs_delete_properties
  from move_commands_sim [OF assms(2) _ this] show ?thesis by (simp add: lifecycle.intros)
next
  case (cs_reply_action s)
  from move_actions_sim [OF assms(2) _ this(1)] this(2) show ?thesis by (auto simp: lifecycle.intros)
next
  case cs_delete_actions
  from move_actions_sim [OF assms(2) _ this] show ?thesis by (simp add: lifecycle.intros)
qed

section \<open>The loop over pending actions\<close>

lemma pending_actions_skip:
  "s \<noteq> Pending \<Longrightarrow> t \<noteq> Pending \<Longrightarrow>
   pending_actions p dv (snd (move_actions P s t now d)) = pending_actions p dv d"
  unfolding pending_actions_def move_actions_def Let_def
  by (simp, rule filter_update_where_skip) (auto simp: set_ai_status_def)

lemma pending_actions_claim:
  assumes "pending_actions p dv d \<noteq> []"
  shows "length (pending_actions p dv (snd (claim_next_pending_action_sql p dv now d))) <
    length (pending_actions p dv d)"
proof (rule claim_sql_cases [of p dv now d])
  fix r assume r: "r \<in> set (pending_actions p dv d)" and
    d': "snd (claim_next_pending_action_sql p dv now d) =
      snd (move_actions (\<lambda>x. ai_id x = ai_id r) Pending Sent now d)"
  let ?P = "\<lambda>x. ai_id x = ai_id r \<and> ai_status x = Pending"
  have "pending_actions p dv (snd (move_actions (\<lambda>x. ai_id x = ai_id r) Pending Sent now d)) =
      filter (\<lambda>x. (ai_product_id x = p \<and> ai_device_id x = dv \<and> ai_status x = Pending) \<and> \<not> ?P x)
        (action_invocations d)"
    unfolding pending_actions_def move_actions_def Let_def
    by (simp, subst filter_update_where_leave) (auto simp: set_ai_status_def)
  moreover have "length (filter (\<lambda>x. (ai_product_id x = p \<and> ai_device_id x = dv \<and> ai_status x = Pending) \<and> \<not> ?P x)
        (action_invocations d)) < length (pending_actions p dv d)"
    unfolding pending_actions_def
    by (rule length_filter_conj_less [where r = r]) (use r in \<open>simp_all add: pending_actions_def\<close>)
  ultimately show ?thesis using d' by simp
qed (use assms in auto)

text \<open>A claim that returns a row leaves fewer pending rows; without one there were none.\<close>

lemma claim_run:
  assumes "claim_next_pending_action p dv env w = (Inr c, w1)"
  shows "tick w1 = Suc (tick w) \<and> published w1 = published w \<and>
    (c = None \<longrightarrow> pending_actions p dv (db w1) = []) \<and>
    (c \<noteq> None \<longrightarrow> length (pending_actions p dv (db w1)) < length (pending_actions p dv (db w)))"
proof -
  let ?now = "now_at env (tick w)"
  have run: "claim_next_pending_action_sql p dv ?now (db w) = (c, db w1)"
      "tick w1 = Suc (tick w)" "published w1 = published w"
    using assms unfolding claim_next_pending_action_def db_exec_def ext_call_def Let_def
    by (auto split: outcome.splits prod.splits)
  show ?thesis
  proof (cases "pending_actions p dv (db w) = []")
    case True
    then have "c = None \<and> db w1 = db w"
      using run(1) by (simp add: claim_next_pending_action_sql_def)
    with True run show ?thesis by simp
  next
    case False
    then obtain r rs where sorted:
      "sort_key (\<lambda>r. (ai_created_time r, ai_id r)) (pending_actions p dv (db w)) = r # rs"
      by (metis list.exhaust set_empty set_sort)
    then have "r \<in> set (pending_actions p dv (db w))" by (metis list.set_intros(1) set_sort)
    then have "filter (\<lambda>x. ai_id x = ai_id r \<and> ai_status x = Pending) (action_invocations (db w)) \<noteq> []"
      by (auto simp: pending_actions_def filter_empty_conv)
    with run(1) sorted have "c \<noteq> None"
      by (auto simp: claim_next_pending_action_sql_def move_actions_def Let_def split: list.splits)
    moreover have "length (pending_actions p dv (db w1)) < length (pending_actions p dv (db w))"
      using pending_actions_claim [OF False, of ?now] run(1) by simp
    ultimately show ?thesis using run by auto
  qed
qed

lemma update_action_invocation_status_pending:
  assumes "s \<noteq> Pending" "t \<noteq> Pending" "update_action_invocation_status i p dv sv t s env w = (r, w')"
  shows "pending_actions q dv' (db w') = pending_actions q dv' (db w) \<and> tick w' = Suc (tick w)"
  using assms(3) pending_actions_skip [OF assms(1,2)]
  by (auto simp: update_action_invocation_status_def db_exec_def ext_call_def bindE_def Let_def ret_def
    case_prod_beta split: outcome.splits sum.splits)

lemma publish_action_row_pending:
  assumes "publish_action_row ser cfg p dv row env w = (r, w')"
  shows "pending_actions q dv' (db w') = pending_actions q dv' (db w) \<and>
    tick w' \<le> tick w + pb_retries (mq_property_command cfg) + 2"
proof (cases "ser (command_payload ''action'' (ai_id row) (ai_params row))")
  case None
  with assms show ?thesis by (simp add: publish_action_row_def Let_def bindE_def ok_or_def throw_def)
next
  case (Some payload)
  define req where "req = command_request (mq_service_command cfg) (str_replace ''${service_type}''
    (ai_service_type row) (device_topic (mq_service_command cfg) p dv)) payload"
  obtain res w1 where pub: "publish_command cfg req env w = (res, w1)" by (cases "publish_command cfg req env w")
  obtain k n' where n': "n' \<le> tick w + Suc (pb_retries (mq_property_command cfg))"
    and w1: "snd (publish_command cfg req env w) = w\<lparr>tick := n', published := published w @ replicate k req\<rparr>"
    by (rule publish_command_run)
  obtain r2 w2 where upd: "(update_action_invocation_status (ai_id row) p dv (ai_service_type row)
      Failed Sent env w1 :: (io_error + nat) \<times> _) = (r2, w2)" by fastforce
  note upd' = update_action_invocation_status_pending [OF _ _ upd, of q dv']
  have "w' = w1 \<or> w' = w2"
    using assms Some pub upd
    by (auto simp: publish_action_row_def Let_def req_def bindE_def ok_or_def matchE_def ret_def ignoreE_def
      split: sum.splits)
  with upd' w1 pub n' show ?thesis by auto
qed

function action_drain ::
  "(mqtt_payload \<Rightarrow> string option) \<Rightarrow> mqtt_config \<Rightarrow> string \<Rightarrow> string \<Rightarrow> ('s, io_error, unit) io" where
  "action_drain ser_payload cfg product_id device_id env w =
     (case claim_next_pending_action product_id device_id env w of
        (Inl e, w1) \<Rightarrow> (Inl e, w1)
      | (Inr None, w1) \<Rightarrow> (Inr (), w1)
      | (Inr (Some row), w1) \<Rightarrow>
          (case publish_action_row ser_payload cfg product_id device_id row env w1 of
             (Inl e, w2) \<Rightarrow> (Inl e, w2)
           | (Inr _, w2) \<Rightarrow> action_drain ser_payload cfg product_id device_id env w2))"
  by pat_completeness auto
termination
  by (relation "measure (\<lambda>(ser, cfg, p, dv, env, w). length (pending_actions p dv (db w)))")
    (simp, simp, metis claim_run option.distinct(1) publish_action_row_pending)

declare action_drain.simps [simp del]

definition send_action_invocations_to_device ::
  "(mqtt_payload \<Rightarrow> string option) \<Rightarrow> mqtt_config \<Rightarrow> string \<Rightarrow> string \<Rightarrow> ('s, io_error, unit) io" where
  "send_action_invocations_to_device ser_payload cfg product_id device_id =
     action_drain ser_payload cfg product_id device_id"

section \<open>Deliveries follow the life cycle\<close>

lemma steps_one: "(\<And>now d. R d (snd (q now d))) \<Longrightarrow> steps_by R (db_exec q)"
  by (rule steps_db_exec) blast

lemma steps_update_sent_commands_to_failed [steps_intros]:
  "steps_by command_step (update_sent_commands_to_failed ids)"
  unfolding update_sent_commands_to_failed_def
  by (intro steps_intros steps_one) (rule cs_fail_properties)

lemma steps_update_pending_commands_to_sent [steps_intros]:
  "steps_by command_step (update_pending_commands_to_sent p dv)"
  unfolding update_pending_commands_to_sent_def
  by (intro steps_intros steps_one) (rule cs_claim_properties)

lemma steps_update_property_command_status [steps_intros]:
  "s = Success \<or> s = Failed \<Longrightarrow> steps_by command_step (update_property_command_status ids p dv s Sent)"
  unfolding update_property_command_status_def
  by (intro steps_intros steps_one) (rule cs_reply_property)

lemma steps_update_action_invocation_status [steps_intros]:
  "s = Success \<or> s = Failed \<Longrightarrow> steps_by command_step (update_action_invocation_status i p dv sv s Sent)"
  unfolding update_action_invocation_status_def
  by (intro steps_intros steps_one) (rule cs_reply_action)

lemma steps_claim_next_pending_action [steps_intros]:
  "steps_by command_step (claim_next_pending_action p dv)"
  unfolding claim_next_pending_action_def by (intro steps_one) (rule cs_claim_action)

lemma steps_command_inserts [steps_intros]:
  "steps_by command_step (insert_property_command p dv c src)"
  "steps_by command_step (insert_action_invocation p dv sv ps)"
  unfolding insert_property_command_def insert_action_invocation_def
  by (intro steps_one, rule cs_insert_property) (intro steps_one, rule cs_insert_action)

lemma steps_command_deletes [steps_intros]:
  "steps_by command_step (delete_property_commands ids)"
  "steps_by command_step (delete_action_invocations ids)"
  unfolding delete_property_commands_def delete_action_invocations_def
  by (intro steps_intros steps_one, rule cs_delete_properties) (intro steps_intros steps_one, rule cs_delete_actions)

lemma steps_publish_property_row [steps_intros]:
  "steps_by command_step (publish_property_row ser cfg topic row)"
  unfolding publish_property_row_def by (cases row) (simp, intro steps_intros)

lemma steps_send_property_command_to_device [steps_intros]:
  "steps_by command_step (send_property_command_to_device ser cfg p dv)"
  unfolding send_property_command_to_device_def by (intro steps_intros)

lemma steps_publish_action_row [steps_intros]:
  "steps_by command_step (publish_action_row ser cfg p dv row)"
  unfolding publish_action_row_def by (intro steps_intros) simp

lemma steps_send_action_invocations_to_device [steps_intros]:
  "steps_by command_step (send_action_invocations_to_device ser cfg p dv)"
  unfolding steps_by_def send_action_invocations_to_device_def
proof (intro allI)
  fix env and w :: "'s world"
  show "command_step\<^sup>*\<^sup>* (db w) (db (snd (action_drain ser cfg p dv env w)))"
  proof (induction ser cfg p dv env w rule: action_drain.induct)
    case (1 ser cfg p dv env w)
    obtain c w1 where claim: "claim_next_pending_action p dv env w = (c, w1)"
      by (cases "claim_next_pending_action p dv env w")
    have s1: "command_step\<^sup>*\<^sup>* (db w) (db w1)"
      using steps_claim_next_pending_action claim by (rule steps_byD)
    show ?case
    proof (cases "\<exists>row. c = Inr (Some row)")
      case True
      then obtain row where c: "c = Inr (Some row)" by blast
      obtain r w2 where pub: "publish_action_row ser cfg p dv row env w1 = (r, w2)"
        by (cases "publish_action_row ser cfg p dv row env w1")
      have s2: "command_step\<^sup>*\<^sup>* (db w1) (db w2)"
        using steps_publish_action_row pub by (rule steps_byD)
      show ?thesis
      proof (cases r)
        case (Inl e)
        with claim c pub s1 s2 show ?thesis by (simp add: action_drain.simps [of ser cfg p dv env w])
      next
        case (Inr u)
        have "command_step\<^sup>*\<^sup>* (db w2) (db (snd (action_drain ser cfg p dv env w2)))"
          using 1 claim c pub Inr by auto
        with claim c pub s1 s2 Inr show ?thesis
          by (simp add: action_drain.simps [of ser cfg p dv env w])
      qed
    next
      case False
      with claim s1 show ?thesis
        by (auto simp: action_drain.simps [of ser cfg p dv env w] split: sum.split option.split)
    qed
  qed
qed

lemma command_steps_sim:
  assumes "command_step\<^sup>*\<^sup>* d d'" "wf_commands d"
  shows "wf_commands d' \<and> queue_step\<^sup>*\<^sup>* (property_queue d) (property_queue d') \<and>
    queue_step\<^sup>*\<^sup>* (action_queue d) (action_queue d')"
  using assms
proof (induction rule: rtranclp_induct)
  case (step y z)
  then have "queue_step\<^sup>*\<^sup>* (property_queue y) (property_queue z)" "queue_step\<^sup>*\<^sup>* (action_queue y) (action_queue z)"
      "wf_commands z"
    using command_step_sim [of y z] by (auto simp: r_into_rtranclp)
  with step show ?case by (meson rtranclp_trans)
qed simp

lemma wf_commands_empty: "wf_commands empty_db"
  by (simp add: wf_commands_def empty_db_def pcs.wf_rows_def ais.wf_rows_def)

end
