(* ===== verification/Command_Delivery.thy ===== *)
theory Command_Delivery
  imports Commands "HOL-Library.Multiset"
begin

text \<open>
  What the command tables and the two delivery programs guarantee: the tables refine an abstract
  queue of commands, a command's status follows its life cycle whatever fails, the loop over
  pending actions ends, and a command recorded as sent has reached the broker.
\<close>

section \<open>Sample data\<close>

definition two_commands :: database where
  "two_commands =
     snd (insert_property_command_sql ''p'' ''d'' JNull DesiredDelta 5
       (snd (insert_property_command_sql ''p'' ''d'' (JBool True) OneShot 4 empty_db)))"

definition one_action :: database where
  "one_action = snd (insert_action_invocation_sql ''p'' ''d'' ''reboot'' JNull 4 empty_db)"

lemma two_commands_reachable: "command_step\<^sup>*\<^sup>* empty_db two_commands"
  unfolding two_commands_def
  by (rule rtranclp.rtrancl_into_rtrancl, rule r_into_rtranclp, rule cs_insert_property, rule cs_insert_property)

lemma wf_two_commands: "wf_commands two_commands"
  using command_steps_sim [OF two_commands_reachable wf_commands_empty] by blast

section \<open>Refinement of the abstract queue\<close>

text \<open>
  A program carries out an abstract operation on one queue when, run on well-formed tables under any
  pattern of failing calls, it keeps the tables well formed, leaves the other queue and the broker alone,
  and takes the abstract step if it succeeds; if it fails it took the step or changed nothing.
\<close>

definition carries_out ::
  "(database \<Rightarrow> 'k command_queue) \<Rightarrow> (database \<Rightarrow> 'l command_queue) \<Rightarrow> ('s, io_error, 'a) io \<Rightarrow>
   ('a \<Rightarrow> 'k command_queue \<Rightarrow> 'k command_queue \<Rightarrow> bool) \<Rightarrow> bool" where
  "carries_out qu rest m spec \<longleftrightarrow> (\<forall>env w r w'. wf_commands (db w) \<and> m env w = (r, w') \<longrightarrow>
     wf_commands (db w') \<and> rest (db w') = rest (db w) \<and> published w' = published w \<and>
     (case r of Inr a \<Rightarrow> spec a (qu (db w)) (qu (db w'))
      | Inl e \<Rightarrow> db w' = db w \<or> (\<exists>a. spec a (qu (db w)) (qu (db w')))))"

lemma carries_out_db:
  assumes "\<And>now d. wf_commands d \<Longrightarrow> wf_commands (snd (q now d)) \<and> rest (snd (q now d)) = rest d \<and>
      spec (f (fst (q now d))) (qu d) (qu (snd (q now d)))"
  shows "carries_out qu rest (bindE (db_exec q) (\<lambda>x. ret (f x))) spec"
  unfolding carries_out_def
proof (intro allI impI, elim conjE)
  fix env r and w w' :: "'s world"
  assume wf: "wf_commands (db w)" and run: "bindE (db_exec q) (\<lambda>x. ret (f x)) env w = (r, w')"
  obtain x d where q: "q (now_at env (tick w)) (db w) = (x, d)" by fastforce
  have step: "wf_commands d \<and> rest d = rest (db w) \<and> spec (f x) (qu (db w)) (qu d)"
    using assms [OF wf, of "now_at env (tick w)"] q by simp
  have "published w' = published w \<and> (r = Inr (f x) \<and> db w' = d \<or> isl r \<and> (db w' = db w \<or> db w' = d))"
    using run q by (auto simp: bindE_def ret_def db_exec_def ext_call_def Let_def split: outcome.splits)
  with step wf show "wf_commands (db w') \<and> rest (db w') = rest (db w) \<and> published w' = published w \<and>
     (case r of Inr a \<Rightarrow> spec a (qu (db w)) (qu (db w'))
      | Inl e \<Rightarrow> db w' = db w \<or> (\<exists>a. spec a (qu (db w)) (qu (db w'))))"
    by (auto split: sum.split)
qed

lemma bindE_ret_id: "m = bindE m (\<lambda>x. ret (id x))"
  by (rule ext)+ (simp add: bindE_def ret_def split: prod.split sum.split)

lemma move_commands_abs:
  assumes "wf_commands d" "\<And>r. P r = C (pc_id r) (requested_property r)"
  shows "wf_commands (snd (move_commands P s t now d)) \<and> action_queue (snd (move_commands P s t now d)) = action_queue d \<and>
    property_queue (snd (move_commands P s t now d)) = advance C s t (property_queue d)"
proof -
  have "pcs.wf_rows (next_property_command_id d) (property_commands d)" using assms(1) by (simp add: wf_commands_def)
  then have "distinct (map pc_id (property_commands d))" by (simp add: pcs.wf_rows_def)
  from pcs.queue_move [where C = C and P = P, OF this assms(2)] show ?thesis
    using assms(1)
    by (simp add: move_commands_def Let_def wf_commands_def property_queue_def action_queue_def pcs.wf_rows_move)
qed

lemma move_actions_abs:
  assumes "wf_commands d" "\<And>r. P r = C (ai_id r) (requested_action r)"
  shows "wf_commands (snd (move_actions P s t now d)) \<and> property_queue (snd (move_actions P s t now d)) = property_queue d \<and>
    action_queue (snd (move_actions P s t now d)) = advance C s t (action_queue d)"
proof -
  have "ais.wf_rows (next_action_invocation_id d) (action_invocations d)" using assms(1) by (simp add: wf_commands_def)
  then have "distinct (map ai_id (action_invocations d))" by (simp add: ais.wf_rows_def)
  from ais.queue_move [where C = C and P = P, OF this assms(2)] show ?thesis
    using assms(1)
    by (simp add: move_actions_def Let_def wf_commands_def property_queue_def action_queue_def ais.wf_rows_move)
qed

text \<open>The abstract operations: submitting under a fresh id; moving all commands that satisfy a condition
  from one state to another, with their number; claiming the pending commands of a device, which are
  returned with their content, oldest first; claiming only the oldest.\<close>

definition submits :: "(instant \<Rightarrow> 'k) \<Rightarrow> int \<Rightarrow> 'k command_queue \<Rightarrow> 'k command_queue \<Rightarrow> bool" where
  "submits K i q q' \<longleftrightarrow> q i = None \<and> (\<exists>t. q' = q(i \<mapsto> (K t, Pending)))"

definition moves ::
  "(int \<Rightarrow> 'k \<Rightarrow> bool) \<Rightarrow> command_status \<Rightarrow> command_status \<Rightarrow> nat \<Rightarrow> 'k command_queue \<Rightarrow> 'k command_queue \<Rightarrow> bool" where
  "moves C s t n q q' \<longleftrightarrow> n = card {i. \<exists>k. q i = Some (k, s) \<and> C i k} \<and> q' = advance C s t q"

definition claims_all ::
  "string \<times> string \<Rightarrow> (int \<times> json \<times> instant) list \<Rightarrow> property_request command_queue \<Rightarrow> property_request command_queue \<Rightarrow> bool" where
  "claims_all dev rows q q' \<longleftrightarrow>
     set rows = {(i, c, t). \<exists>src. q i = Some ((dev, c, src, t), Pending)} \<and> distinct (map fst rows) \<and>
     sorted (map (\<lambda>(i, _, t). (t, i)) rows) \<and> q' = advance (\<lambda>i k. fst k = dev) Pending Sent q"

definition claims_oldest ::
  "string \<times> string \<Rightarrow> action_invocation option \<Rightarrow> action_request command_queue \<Rightarrow> action_request command_queue \<Rightarrow> bool" where
  "claims_oldest dev c q q' \<longleftrightarrow>
     (case c of
        None \<Rightarrow> q' = q \<and> (\<forall>i k. q i = Some (k, Pending) \<longrightarrow> fst k \<noteq> dev)
      | Some row \<Rightarrow>
          fst (requested_action row) = dev \<and> ai_status row = Sent \<and>
          q (ai_id row) = Some (requested_action row, Pending) \<and>
          (\<forall>i sv ps t. q i = Some ((dev, sv, ps, t), Pending) \<longrightarrow> (ai_created_time row, ai_id row) \<le> (t, i)) \<and>
          q' = q(ai_id row \<mapsto> (requested_action row, Sent)))"

lemma insert_property_carries_out:
  "carries_out property_queue action_queue (insert_property_command p dv c src) (submits (\<lambda>t. ((p, dv), c, src, t)))"
  unfolding insert_property_command_def
  by (subst bindE_ret_id, rule carries_out_db)
    (auto simp: insert_property_command_sql_def Let_def wf_commands_def property_queue_def action_queue_def submits_def
      requested_property_def pcs.queue_snoc pcs.queue_fresh intro!: pcs.wf_rows_snoc)

lemma insert_action_carries_out:
  "carries_out action_queue property_queue (insert_action_invocation p dv sv ps) (submits (\<lambda>t. ((p, dv), sv, ps, t)))"
  unfolding insert_action_invocation_def
  by (subst bindE_ret_id, rule carries_out_db)
    (auto simp: insert_action_invocation_sql_def Let_def wf_commands_def property_queue_def action_queue_def submits_def
      requested_action_def ais.queue_snoc ais.queue_fresh intro!: ais.wf_rows_snoc)

lemma moved_commands_count:
  assumes "wf_commands d" "\<And>r. P r = C (pc_id r) (requested_property r)"
  shows "length (fst (move_commands P s t now d)) = card {i. \<exists>k. property_queue d i = Some (k, s) \<and> C i k}"
  using pcs.moved_count [where C = C, OF _ assms(2)] assms(1)
  by (simp add: move_commands_def Let_def wf_commands_def pcs.wf_rows_def property_queue_def)

lemma moved_actions_count:
  assumes "wf_commands d" "\<And>r. P r = C (ai_id r) (requested_action r)"
  shows "length (fst (move_actions P s t now d)) = card {i. \<exists>k. action_queue d i = Some (k, s) \<and> C i k}"
  using ais.moved_count [where C = C, OF _ assms(2)] assms(1)
  by (simp add: move_actions_def Let_def wf_commands_def ais.wf_rows_def action_queue_def)

lemma move_commands_carries_out:
  assumes "\<And>r. P r = C (pc_id r) (requested_property r)" "\<And>n q q'. moves C s t n q q' \<Longrightarrow> spec (g n) q q'"
  shows "carries_out property_queue action_queue (bindE (db_exec (move_commands P s t)) (\<lambda>x. ret (g (length x)))) spec"
  by (rule carries_out_db)
    (simp add: move_commands_abs [where P = P and C = C, OF _ assms(1)] assms(2) moves_def
      moved_commands_count [where P = P and C = C, OF _ assms(1)])

lemma move_actions_carries_out:
  assumes "\<And>r. P r = C (ai_id r) (requested_action r)" "\<And>n q q'. moves C s t n q q' \<Longrightarrow> spec (g n) q q'"
  shows "carries_out action_queue property_queue (bindE (db_exec (move_actions P s t)) (\<lambda>x. ret (g (length x)))) spec"
  by (rule carries_out_db)
    (simp add: move_actions_abs [where P = P and C = C, OF _ assms(1)] assms(2) moves_def
      moved_actions_count [where P = P and C = C, OF _ assms(1)])

lemma claim_all_carries_out:
  "carries_out property_queue action_queue (update_pending_commands_to_sent p dv) (claims_all (p, dv))"
  unfolding update_pending_commands_to_sent_def
proof (rule carries_out_db, goal_cases)
  case (1 now d)
  let ?P = "\<lambda>r. pc_product_id r = p \<and> pc_device_id r = dv"
  let ?rows = "fst (move_commands ?P Pending Sent now d)"
  let ?out = "sort_key (\<lambda>(i, _ :: json, t). (t, i)) (map (\<lambda>r. (pc_id r, pc_command r, pc_created_time r)) ?rows)"
  have ids: "distinct (map pc_id (property_commands d))" using 1 by (simp add: wf_commands_def pcs.wf_rows_def)
  have rows: "map (\<lambda>r. (pc_id r, pc_command r, pc_created_time r)) ?rows =
      map (\<lambda>r. (pc_id r, pc_command r, pc_created_time r)) (filter (\<lambda>r. ?P r \<and> pc_status r = Pending) (property_commands d))"
    by (simp add: move_commands_def Let_def set_pc_status_def)
  have "set ?out = {(i, c, t). \<exists>src. property_queue d i = Some (((p, dv), c, src, t), Pending)}"
    by (auto simp: rows property_queue_def pcs.queue_iff [OF ids] requested_property_def)
  moreover have "mset (map fst ?out) = mset (map pc_id (filter (\<lambda>r. ?P r \<and> pc_status r = Pending) (property_commands d)))"
    unfolding rows mset_map mset_sort by (simp add: image_mset.compositionality comp_def)
  then have "distinct (map fst ?out) \<longleftrightarrow>
      distinct (map pc_id (filter (\<lambda>r. ?P r \<and> pc_status r = Pending) (property_commands d)))"
    by (rule mset_eq_imp_distinct_iff)
  then have "distinct (map fst ?out)" using distinct_map_filter [OF ids] by blast
  moreover have "sorted (map (\<lambda>(i, _, t). (t, i)) ?out)" by (rule sorted_sort_key)
  ultimately show ?case
    using move_commands_abs [where C = "\<lambda>i k. fst k = (p, dv)" and P = ?P, OF 1]
    by (simp add: claims_all_def requested_property_def)
qed

lemma only_element: "set xs = {x} \<Longrightarrow> distinct xs \<Longrightarrow> xs = [x]"
  by (cases xs; cases "tl xs") auto

lemma claim_sql_oldest:
  assumes "claim_next_pending_action_sql p dv now d = (c, d')" "wf_commands d"
  obtains "c = None" "d' = d" "pending_actions p dv d = []"
  | r where "r \<in> set (pending_actions p dv d)" "c = Some (set_ai_status Sent now r)"
      "d' = snd (move_actions (\<lambda>x. ai_id x = ai_id r) Pending Sent now d)"
      "\<And>x. x \<in> set (pending_actions p dv d) \<Longrightarrow> (ai_created_time r, ai_id r) \<le> (ai_created_time x, ai_id x)"
proof (cases "sort_key (\<lambda>r. (ai_created_time r, ai_id r)) (pending_actions p dv d)")
  case Nil
  then have "pending_actions p dv d = []" by (metis set_empty set_sort)
  with Nil that(1) assms(1) show ?thesis by (simp add: claim_next_pending_action_sql_def)
next
  case (Cons r rs)
  have r: "r \<in> set (pending_actions p dv d)" using Cons by (metis list.set_intros(1) set_sort)
  have "sorted (map (\<lambda>r. (ai_created_time r, ai_id r)) (r # rs))" unfolding Cons [symmetric] by (rule sorted_sort_key)
  moreover have "set (pending_actions p dv d) = set (r # rs)" using Cons by (metis set_sort)
  ultimately have least: "(ai_created_time r, ai_id r) \<le> (ai_created_time x, ai_id x)"
    if "x \<in> set (pending_actions p dv d)" for x using that by auto
  have ids: "distinct (map ai_id (action_invocations d))" using assms(2) by (simp add: wf_commands_def ais.wf_rows_def)
  have "set (filter (\<lambda>x. ai_id x = ai_id r \<and> ai_status x = Pending) (action_invocations d)) = {r}"
    using r ids by (auto simp: pending_actions_def distinct_map dest: inj_onD)
  moreover have "distinct (filter (\<lambda>x. ai_id x = ai_id r \<and> ai_status x = Pending) (action_invocations d))"
    using ids by (simp add: distinct_map)
  ultimately have "filter (\<lambda>x. ai_id x = ai_id r \<and> ai_status x = Pending) (action_invocations d) = [r]"
    by (rule only_element)
  with Cons assms(1) have "c = Some (set_ai_status Sent now r)"
      "d' = snd (move_actions (\<lambda>x. ai_id x = ai_id r) Pending Sent now d)"
    by (auto simp: claim_next_pending_action_sql_def move_actions_def Let_def)
  with that(2) r least show ?thesis by blast
qed

lemma claim_oldest_carries_out:
  "carries_out action_queue property_queue (claim_next_pending_action p dv) (claims_oldest (p, dv))"
  unfolding claim_next_pending_action_def
proof (subst bindE_ret_id, rule carries_out_db, goal_cases)
  case (1 now d)
  obtain c d' where eq: "claim_next_pending_action_sql p dv now d = (c, d')" by fastforce
  have ids: "distinct (map ai_id (action_invocations d))" using 1 by (simp add: wf_commands_def ais.wf_rows_def)
  have pending: "x \<in> set (pending_actions p dv d) \<longleftrightarrow> x \<in> set (action_invocations d) \<and>
      fst (requested_action x) = (p, dv) \<and> ai_status x = Pending" for x
    by (auto simp: pending_actions_def requested_action_def)
  show ?case
  proof (rule claim_sql_oldest [OF eq 1])
    assume "c = None" "d' = d" "pending_actions p dv d = []"
    then show ?thesis using eq 1 pending
      by (auto simp: claims_oldest_def action_queue_def ais.queue_iff [OF ids])
  next
    fix r assume r: "r \<in> set (pending_actions p dv d)" "c = Some (set_ai_status Sent now r)"
      "d' = snd (move_actions (\<lambda>x. ai_id x = ai_id r) Pending Sent now d)"
      "\<And>x. x \<in> set (pending_actions p dv d) \<Longrightarrow> (ai_created_time r, ai_id r) \<le> (ai_created_time x, ai_id x)"
    have q: "action_queue d (ai_id r) = Some (requested_action r, Pending)"
      using r(1) pending ais.queue_row [OF ids] by (auto simp: action_queue_def)
    have "advance (\<lambda>i k. i = ai_id r) Pending Sent (action_queue d) =
        (action_queue d)(ai_id r \<mapsto> (requested_action r, Sent))"
      using q by (auto simp: advance_def fun_eq_iff split: option.split)
    moreover have "(ai_created_time r, ai_id r) \<le> (t, i)"
      if "action_queue d i = Some (((p, dv), sv, ps, t), Pending)" for i sv ps t
      using that r(4) pending by (fastforce simp: action_queue_def ais.queue_iff [OF ids] requested_action_def)
    ultimately show ?thesis
      using move_actions_abs [where C = "\<lambda>i k. i = ai_id r", OF 1 refl, of Pending Sent now] eq r(1-3) q pending
      by (simp add: claims_oldest_def ais.rid_set ais.rdev_set ais.rst_set)
        (simp add: set_ai_status_def)
  qed
qed

text \<open>
  C7: the tables \<open>property_command\<close> and \<open>action_invocation\<close> implement two abstract queues, maps from
  command ids to what was asked of which device and a state. Under any pattern of failing calls each
  statement program carries out its queue operation: inserting submits a pending command under a fresh
  id, which is returned; \<open>update_pending_commands_to_sent\<close> moves exactly the pending commands of the
  device to \<open>Sent\<close> and returns exactly these with their content, oldest first;
  \<open>claim_next_pending_action\<close> moves exactly the oldest pending action of the device and returns it, or
  there is none; and the status updates and deletions move exactly the commands with the given ids (of the
  given device and service type, where the code checks these) that are in the expected state, and return their number.
  The other queue and the broker are untouched. A program that reports an error took its step (the
  acknowledgement was lost) or changed nothing.
\<close>

theorem command_tables_refine_queue:
  "carries_out property_queue action_queue (insert_property_command p dv c src) (submits (\<lambda>t. ((p, dv), c, src, t)))
 \<and> carries_out property_queue action_queue (update_pending_commands_to_sent p dv) (claims_all (p, dv))
 \<and> carries_out property_queue action_queue (update_sent_commands_to_failed ids)
     (\<lambda>_ q q'. \<exists>n. moves (\<lambda>i k. i \<in> set ids) Sent Failed n q q')
 \<and> carries_out property_queue action_queue (update_property_command_status ids p dv t s)
     (\<lambda>_ q q'. \<exists>n. moves (\<lambda>i k. i \<in> set ids \<and> fst k = (p, dv)) s t n q q')
 \<and> carries_out property_queue action_queue (delete_property_commands ids)
     (\<lambda>n. moves (\<lambda>i k. i \<in> set ids) Pending Deleted (nat n))
 \<and> carries_out action_queue property_queue (insert_action_invocation p dv sv ps) (submits (\<lambda>t. ((p, dv), sv, ps, t)))
 \<and> carries_out action_queue property_queue (claim_next_pending_action p dv) (claims_oldest (p, dv))
 \<and> carries_out action_queue property_queue (update_action_invocation_status j p dv sv t s)
     (moves (\<lambda>i k. i = j \<and> fst k = (p, dv) \<and> fst (snd k) = sv) s t)
 \<and> carries_out action_queue property_queue (delete_action_invocations ids)
     (\<lambda>n. moves (\<lambda>i k. i \<in> set ids) Pending Deleted (nat n))"
proof (intro conjI)
  show "carries_out property_queue action_queue (update_sent_commands_to_failed ids)
     (\<lambda>_ q q'. \<exists>n. moves (\<lambda>i k. i \<in> set ids) Sent Failed n q q')"
    unfolding update_sent_commands_to_failed_def by (rule move_commands_carries_out) auto
  show "carries_out property_queue action_queue (update_property_command_status ids p dv t s)
     (\<lambda>_ q q'. \<exists>n. moves (\<lambda>i k. i \<in> set ids \<and> fst k = (p, dv)) s t n q q')"
    unfolding update_property_command_status_def
    by (rule move_commands_carries_out [where C = "\<lambda>i k. i \<in> set ids \<and> fst k = (p, dv)"])
      (auto simp: requested_property_def)
  show "carries_out property_queue action_queue (delete_property_commands ids)
     (\<lambda>n. moves (\<lambda>i k. i \<in> set ids) Pending Deleted (nat n))"
    unfolding delete_property_commands_def by (rule move_commands_carries_out) auto
  show "carries_out action_queue property_queue (update_action_invocation_status j p dv sv t s)
     (moves (\<lambda>i k. i = j \<and> fst k = (p, dv) \<and> fst (snd k) = sv) s t)"
    unfolding update_action_invocation_status_def
    by (rule move_actions_carries_out) (auto simp: requested_action_def)
  show "carries_out action_queue property_queue (delete_action_invocations ids)
     (\<lambda>n. moves (\<lambda>i k. i \<in> set ids) Pending Deleted (nat n))"
    unfolding delete_action_invocations_def by (rule move_actions_carries_out) auto
qed (rule insert_property_carries_out claim_all_carries_out insert_action_carries_out claim_oldest_carries_out)+

theorem command_tables_refine_queue_witness:
  "claims_all (''p'', ''d'')
     [(1, JBool True, 4), (2, JNull, 5)] (property_queue two_commands)
     (property_queue (db (snd (update_pending_commands_to_sent ''p'' ''d'' all_done (empty_world\<lparr>db := two_commands\<rparr>)))))"
proof -
  let ?w = "empty_world\<lparr>db := two_commands\<rparr>" and ?m = "update_pending_commands_to_sent ''p'' ''d'' :: (unit, _, _) io"
  have run: "fst (?m all_done ?w) = Inr [(1, JBool True, 4), (2, JNull, 5)]"
    by (simp add: update_pending_commands_to_sent_def bindE_def db_exec_reliable reliable_all_done ret_def
      move_commands_def Let_def two_commands_def insert_property_command_sql_def empty_db_def set_pc_status_def)
  have "carries_out property_queue action_queue ?m (claims_all (''p'', ''d''))"
    by (rule command_tables_refine_queue [THEN conjunct2, THEN conjunct1])
  moreover have "wf_commands (db ?w)" by (simp add: wf_two_commands)
  moreover obtain w' where "?m all_done ?w = (Inr [(1, JBool True, 4), (2, JNull, 5)], w')"
    using run by (metis prod.collapse)
  ultimately show ?thesis unfolding carries_out_def by fastforce
qed

section \<open>Statuses only move forward\<close>

text \<open>
  Delivery never loses a command and never moves it back. Whatever database and network
  calls fail while \<open>send_property_command_to_device\<close> or \<open>send_action_invocations_to_device\<close>
  runs, a command known before is known after, for the same device, with a status its life
  cycle reaches from the old one; in particular a command that ended or was cancelled stays so.
\<close>

theorem delivery_keeps_lifecycle:
  assumes "wf_commands (db w)"
    and "m = send_property_command_to_device ser cfg p dv \<or> m = send_action_invocations_to_device ser cfg p dv"
    and "m env w = (r, w')"
  shows "(property_queue (db w) i = Some (k, s) \<longrightarrow>
        (\<exists>s'. property_queue (db w') i = Some (k, s') \<and> lifecycle\<^sup>*\<^sup>* s s')) \<and>
     (action_queue (db w) i = Some (l, s) \<longrightarrow>
        (\<exists>s'. action_queue (db w') i = Some (l, s') \<and> lifecycle\<^sup>*\<^sup>* s s'))"
proof -
  have "steps_by command_step m" using assms(2) by (auto intro: steps_intros)
  then have "command_step\<^sup>*\<^sup>* (db w) (db w')" using assms(3) by (rule steps_byD)
  from command_steps_sim [OF this assms(1)] show ?thesis by (blast intro: queue_steps_lifecycle)
qed

lemma two_commands_queue: "property_queue two_commands 1 = Some (((''p'', ''d''), JBool True, OneShot, 4), Pending)"
  by (simp add: two_commands_def requested_property_def insert_property_command_sql_def empty_db_def property_queue_def pcs.queue_def Let_def)

theorem delivery_keeps_lifecycle_witness:
  "\<exists>s'. property_queue (db (snd (send_property_command_to_device (\<lambda>_. None) sample_mqtt ''p'' ''d''
      all_done (empty_world\<lparr>db := two_commands\<rparr>)))) 1 = Some (((''p'', ''d''), JBool True, OneShot, 4), s') \<and> lifecycle\<^sup>*\<^sup>* Pending s'"
proof -
  let ?m = "send_property_command_to_device (\<lambda>_. None) sample_mqtt ''p'' ''d'' :: (unit, _, _) io"
  obtain r w' where run: "?m all_done (empty_world\<lparr>db := two_commands\<rparr>) = (r, w')" by fastforce
  have "wf_commands (db (empty_world\<lparr>db := two_commands\<rparr>))" by (simp add: wf_two_commands)
  from delivery_keeps_lifecycle [OF this disjI1 [OF refl] run, of 1 "((''p'', ''d''), JBool True, OneShot, 4)" Pending] show ?thesis
    by (simp add: run two_commands_queue)
qed

section \<open>The action loop ends\<close>

text \<open>
  C34: \<open>send_action_invocations_to_device\<close> always returns, whatever the database and the network
  do: it makes at most one call to find no action left, and for each action pending at the start
  one claim, the attempts of one publish and one status update. When it returns without an
  error no action of the device is pending.
\<close>

theorem action_loop_ends:
  "tick (snd (send_action_invocations_to_device ser cfg p dv env w)) \<le>
     tick w + 1 + length (pending_actions p dv (db w)) * (pb_retries (mq_property_command cfg) + 3) \<and>
   (case send_action_invocations_to_device ser cfg p dv env w of
      (Inl e, w') \<Rightarrow> True | (Inr _, w') \<Rightarrow> pending_actions p dv (db w') = [])"
  unfolding send_action_invocations_to_device_def
proof (induction ser cfg p dv env w rule: action_drain.induct)
  case (1 ser cfg p dv env w)
  let ?b = "pb_retries (mq_property_command cfg) + 3"
  obtain c w1 where claim: "claim_next_pending_action p dv env w = (c, w1)"
    by (cases "claim_next_pending_action p dv env w")
  note run = action_drain.simps [of ser cfg p dv env w]
  show ?case
  proof (cases c)
    case (Inl e)
    then have "tick w1 = Suc (tick w)"
      using claim unfolding claim_next_pending_action_def db_exec_def ext_call_def Let_def
      by (auto split: outcome.splits prod.splits)
    with claim Inl show ?thesis by (simp add: run)
  next
    case (Inr found)
    note cl = claim_run [OF claim [unfolded Inr]]
    show ?thesis
    proof (cases found)
      case None
      with claim Inr cl show ?thesis by (simp add: run)
    next
      case (Some row)
      obtain r w2 where pub: "publish_action_row ser cfg p dv row env w1 = (r, w2)"
        by (cases "publish_action_row ser cfg p dv row env w1")
      note pr = publish_action_row_pending [OF pub, of p dv]
      have less: "Suc (length (pending_actions p dv (db w2))) \<le> length (pending_actions p dv (db w))"
        using cl Some pr by simp
      then have b: "length (pending_actions p dv (db w2)) * ?b + ?b \<le> length (pending_actions p dv (db w)) * ?b"
        by (metis add.commute mult_Suc mult_le_mono1)
      show ?thesis
      proof (cases r)
        case (Inl e)
        with claim Inr Some pub pr cl b show ?thesis by (simp add: run)
      next
        case r: (Inr u)
        have step: "action_drain ser cfg p dv env w = action_drain ser cfg p dv env w2"
          using claim Inr Some pub r by (simp add: run)
        have "tick (snd (action_drain ser cfg p dv env w2)) \<le>
            tick w2 + 1 + length (pending_actions p dv (db w2)) * ?b \<and>
            (case action_drain ser cfg p dv env w2 of
              (Inl e, w') \<Rightarrow> True | (Inr _, w') \<Rightarrow> pending_actions p dv (db w') = [])"
          using 1 claim Inr Some pub r by auto
        moreover have "tick w2 \<le> tick w + ?b" using pr cl by simp
        ultimately show ?thesis unfolding step using b by linarith
      qed
    qed
  qed
qed

section \<open>A sent command reached the broker\<close>

definition property_request ::
  "(mqtt_payload \<Rightarrow> string option) \<Rightarrow> mqtt_config \<Rightarrow> string \<Rightarrow> int \<Rightarrow> json \<Rightarrow> publish_request" where
  "property_request ser cfg topic i c =
     command_request (mq_property_command cfg) topic (the (ser (command_payload ''property'' i c)))"

text \<open>One row: it is published, or marked failed.\<close>

lemma publish_property_row_run:
  assumes "reliable env" and "ser (command_payload ''property'' i c) \<noteq> None"
  shows "\<exists>w' ps. publish_property_row ser cfg topic (i, c, t) env w = (Inr (), w') \<and>
    published w' = published w @ ps \<and>
    (property_commands (db w') = property_commands (db w) \<and> property_request ser cfg topic i c \<in> set ps \<or>
     (\<exists>now. property_commands (db w') =
       update_where (\<lambda>r. pc_id r = i \<and> pc_status r = Sent) (set_pc_status Failed now) (property_commands (db w))))"
proof -
  let ?req = "property_request ser cfg topic i c"
  obtain payload where payload: "ser (command_payload ''property'' i c) = Some payload" using assms(2) by blast
  obtain k n' where w1: "snd (publish_command cfg ?req env w) = w\<lparr>tick := n', published := published w @ replicate k ?req\<rparr>"
    and k: "fst (publish_command cfg ?req env w) = Inr () \<longrightarrow> 0 < k"
    by (rule publish_command_run)
  obtain res w1 where pub: "publish_command cfg ?req env w = (res, w1)" by (cases "publish_command cfg ?req env w")
  have run: "publish_property_row ser cfg topic (i, c, t) env w =
      (case res of Inl e \<Rightarrow> update_sent_commands_to_failed [i] env w1 | Inr x \<Rightarrow> (Inr x, w1))"
    using payload pub
    by (simp add: publish_property_row_def property_request_def bindE_def ok_or_def ret_def matchE_def split: sum.split)
  show ?thesis
  proof (cases res)
    case (Inr u)
    with run pub w1 k show ?thesis by (intro exI [of _ w1] exI [of _ "replicate k ?req"]) simp
  next
    case (Inl e)
    have upd: "update_sent_commands_to_failed [i] env w1 =
       (Inr (), w1\<lparr>tick := Suc (tick w1),
          db := snd (move_commands (\<lambda>r. pc_id r = i) Sent Failed (now_at env (tick w1)) (db w1))\<rparr>)"
      using assms(1)
      by (simp add: update_sent_commands_to_failed_def bindE_def db_exec_reliable ret_def split: prod.split)
    show ?thesis unfolding run Inl
      by (rule exI, rule exI [of _ "replicate k ?req"])
        (use upd w1 pub in \<open>auto simp: move_commands_def Let_def\<close>)
  qed
qed

lemma publish_property_rows_run:
  assumes "reliable env" and "\<And>i c. ser (command_payload ''property'' i c) \<noteq> None"
    and "distinct (map fst xs)" and "distinct (map pc_id (property_commands (db w)))"
  shows "\<exists>w' ps. forE xs (publish_property_row ser cfg topic) env w = (Inr (), w') \<and>
    published w' = published w @ ps \<and>
    (\<forall>r\<in>set (property_commands (db w)). pc_id r \<notin> fst ` set xs \<longrightarrow> r \<in> set (property_commands (db w'))) \<and>
    (\<forall>r\<in>set (property_commands (db w)). \<forall>c t. (pc_id r, c, t) \<in> set xs \<longrightarrow> pc_status r = Sent \<longrightarrow>
      (\<exists>r'\<in>set (property_commands (db w')). pc_id r' = pc_id r \<and>
        (pc_status r' = Failed \<or> pc_status r' = Sent \<and> property_request ser cfg topic (pc_id r) c \<in> set ps)))"
  using assms(3,4)
proof (induction xs arbitrary: w)
  case Nil
  show ?case by (simp add: ret_def)
next
  case (Cons x xs)
  obtain i c t where x: "x = (i, c, t)" by (cases x)
  obtain w1 ps1 where run1: "publish_property_row ser cfg topic (i, c, t) env w = (Inr (), w1)"
    and p1: "published w1 = published w @ ps1"
    and t1: "property_commands (db w1) = property_commands (db w) \<and> property_request ser cfg topic i c \<in> set ps1 \<or>
     (\<exists>now. property_commands (db w1) =
       update_where (\<lambda>r. pc_id r = i \<and> pc_status r = Sent) (set_pc_status Failed now) (property_commands (db w)))"
    using publish_property_row_run [where ser = ser and i = i and c = c and t = t and w = w and cfg = cfg and topic = topic, OF assms(1) assms(2)] by blast
  have d1: "distinct (map pc_id (property_commands (db w1)))"
    using t1 Cons.prems(2) by (auto simp: map_update_where set_pc_status_def)
  have keep: "r \<in> set (property_commands (db w1))" if "r \<in> set (property_commands (db w))" "pc_id r \<noteq> i" for r
    using t1 that by (auto simp: set_update_where image_iff)
  have hit: "\<exists>r'\<in>set (property_commands (db w1)). pc_id r' = i \<and>
      (pc_status r' = Failed \<or> pc_status r' = Sent \<and> property_request ser cfg topic i c \<in> set ps1)"
    if "r \<in> set (property_commands (db w))" "pc_id r = i" "pc_status r = Sent" for r
    using t1
  proof
    assume "\<exists>now. property_commands (db w1) =
       update_where (\<lambda>r. pc_id r = i \<and> pc_status r = Sent) (set_pc_status Failed now) (property_commands (db w))"
    then obtain now where w1: "property_commands (db w1) =
       update_where (\<lambda>r. pc_id r = i \<and> pc_status r = Sent) (set_pc_status Failed now) (property_commands (db w))" ..
    have "set_pc_status Failed now r \<in> set (property_commands (db w1))"
      unfolding w1 by (rule update_where_mem) (use that in simp_all)
    then show ?thesis using that(2) by (intro bexI) (simp_all add: set_pc_status_def)
  qed (use that in auto)
  have dx: "distinct (map fst xs)" using Cons.prems(1) by simp
  obtain w' ps where run: "forE xs (publish_property_row ser cfg topic) env w1 = (Inr (), w')"
    and p: "published w' = published w1 @ ps"
    and all1: "\<forall>r\<in>set (property_commands (db w1)). pc_id r \<notin> fst ` set xs \<longrightarrow> r \<in> set (property_commands (db w'))"
    and all2: "\<forall>r\<in>set (property_commands (db w1)). \<forall>c t. (pc_id r, c, t) \<in> set xs \<longrightarrow> pc_status r = Sent \<longrightarrow>
      (\<exists>r'\<in>set (property_commands (db w')). pc_id r' = pc_id r \<and>
        (pc_status r' = Failed \<or> pc_status r' = Sent \<and> property_request ser cfg topic (pc_id r) c \<in> set ps))"
    using Cons.IH [OF dx d1] by blast
  note rest = all1 [rule_format] and got = all2 [rule_format]
  have fresh: "i \<notin> fst ` set xs" using Cons.prems(1) x by simp
  show ?case
  proof (intro exI [of _ w'] exI [of _ "ps1 @ ps"] conjI ballI allI impI)
    show "forE (x # xs) (publish_property_row ser cfg topic) env w = (Inr (), w')"
      by (simp add: x bindE_def run1 run)
    show "published w' = published w @ ps1 @ ps" using p p1 by simp
  next
    fix r assume "r \<in> set (property_commands (db w))" "pc_id r \<notin> fst ` set (x # xs)"
    then show "r \<in> set (property_commands (db w'))" using x keep rest by auto
  next
    fix r c' t' assume r: "r \<in> set (property_commands (db w))" "(pc_id r, c', t') \<in> set (x # xs)" "pc_status r = Sent"
    show "\<exists>r'\<in>set (property_commands (db w')). pc_id r' = pc_id r \<and>
        (pc_status r' = Failed \<or> pc_status r' = Sent \<and> property_request ser cfg topic (pc_id r) c' \<in> set (ps1 @ ps))"
    proof (cases "pc_id r = i")
      case True
      with r x fresh have "c' = c" by force
      with True hit [OF r(1) True r(3)] rest fresh show ?thesis by fastforce
    next
      case False
      with r x have "(pc_id r, c', t') \<in> set xs" by auto
      from got [OF keep [OF r(1) False] this r(3)] show ?thesis by auto
    qed
  qed
qed

text \<open>
  C6: a property command recorded as sent has reached the broker. When the database answers,
  and commands can be serialised, \<open>send_property_command_to_device\<close> returns without an error and
  takes every pending command of the device out of \<open>Pending\<close>: afterwards it is \<open>Failed\<close>, or it is
  \<open>Sent\<close> and the broker has accepted, during this call, a request on the device's topic that carries
  the id \<open>property:{id}\<close> and the command.
\<close>

theorem sent_command_was_published:
  assumes "reliable env" and "\<And>i c. ser (command_payload ''property'' i c) \<noteq> None"
    and "wf_commands (db w)"
    and "send_property_command_to_device ser cfg p dv env w = (res, w')"
    and "r \<in> set (property_commands (db w))"
    and "pc_product_id r = p" "pc_device_id r = dv" "pc_status r = Pending"
  shows "res = Inr () \<and>
    (\<exists>r'\<in>set (property_commands (db w')). pc_id r' = pc_id r \<and>
      (pc_status r' = Failed \<or>
       pc_status r' = Sent \<and>
       property_request ser cfg (device_topic (mq_property_command cfg) p dv) (pc_id r) (pc_command r)
         \<in> set (drop (length (published w)) (published w'))))"
proof -
  let ?mine = "\<lambda>r. (pc_product_id r = p \<and> pc_device_id r = dv) \<and> pc_status r = Pending"
  let ?now = "now_at env (tick w)"
  let ?w1 = "w\<lparr>tick := Suc (tick w), db := (db w)\<lparr>property_commands :=
      update_where ?mine (set_pc_status Sent ?now) (property_commands (db w))\<rparr>\<rparr>"
  let ?topic = "device_topic (mq_property_command cfg) p dv"
  define xs where "xs = sort_key (\<lambda>(i, _ :: json, t). (t, i)) (map (\<lambda>r. (pc_id r, pc_command r, pc_created_time r))
      (map (set_pc_status Sent ?now) (filter ?mine (property_commands (db w)))))"
  have claim: "update_pending_commands_to_sent p dv env w = (Inr xs, ?w1)"
    using assms(1)
    by (simp add: update_pending_commands_to_sent_def bindE_def db_exec_reliable ret_def move_commands_def
      Let_def xs_def)
  have ids: "distinct (map pc_id (property_commands (db w)))"
    using assms(3) by (simp add: wf_commands_def pcs.wf_rows_def)
  have sent: "set_pc_status Sent ?now r \<in> set (property_commands (db ?w1))"
    using assms(5-8) by (auto simp: set_update_where)
  have mem: "(pc_id r, pc_command r, pc_created_time r) \<in> set xs"
    using assms(5-8) by (force simp: xs_def set_pc_status_def)
  then have run: "send_property_command_to_device ser cfg p dv env w =
      forE xs (publish_property_row ser cfg ?topic) env ?w1"
    by (auto simp: send_property_command_to_device_def bindE_def claim)
  have "mset (map fst xs) = mset (map pc_id (filter ?mine (property_commands (db w))))"
    unfolding xs_def mset_map mset_sort by (simp add: comp_def set_pc_status_def image_mset.compositionality)
  from mset_eq_imp_distinct_iff [OF this] have "distinct (map fst xs)"
    using distinct_map_filter [OF ids] by simp
  moreover have "distinct (map pc_id (property_commands (db ?w1)))"
    using ids by (simp add: map_update_where set_pc_status_def)
  ultimately obtain w2 ps where rows: "forE xs (publish_property_row ser cfg ?topic) env ?w1 = (Inr (), w2)"
    "published w2 = published ?w1 @ ps"
    "\<forall>r\<in>set (property_commands (db ?w1)). \<forall>c t. (pc_id r, c, t) \<in> set xs \<longrightarrow> pc_status r = Sent \<longrightarrow>
      (\<exists>r'\<in>set (property_commands (db w2)). pc_id r' = pc_id r \<and>
        (pc_status r' = Failed \<or> pc_status r' = Sent \<and> property_request ser cfg ?topic (pc_id r) c \<in> set ps))"
    using publish_property_rows_run [where ser = ser and xs = xs and w = ?w1 and cfg = cfg and topic = ?topic,
      OF assms(1) assms(2)] by blast
  with run assms(4) have "res = Inr ()" "w' = w2" by auto
  with rows sent mem show ?thesis by (force simp: set_pc_status_def)
qed

theorem sent_command_was_published_witness:
  "fst (send_property_command_to_device (\<lambda>_. Some ''x'') sample_mqtt ''p'' ''d'' all_done
     (empty_world\<lparr>db := two_commands\<rparr>)) = Inr ()"
proof -
  let ?m = "send_property_command_to_device (\<lambda>_. Some ''x'') sample_mqtt ''p'' ''d'' :: (unit, _, _) io"
  obtain res w' where run: "?m all_done (empty_world\<lparr>db := two_commands\<rparr>) = (res, w')" by fastforce
  have "res = Inr ()"
    by (rule sent_command_was_published [OF reliable_all_done _ _ run, THEN conjunct1,
        of "hd (property_commands two_commands)"])
      (simp_all add: wf_two_commands, simp_all add: two_commands_def insert_property_command_sql_def empty_db_def Let_def)
  with run show ?thesis by simp
qed

text \<open>
  Without the assumption that the database answers a command can be recorded as sent and never reach the
  broker: when the acknowledgement of the claim is lost, the pending commands of the device are \<open>Sent\<close>,
  the call ends with an error and nothing is published.
\<close>

lemma unacknowledged_claim_strands_commands:
  assumes "outcome_at env (tick w) = Unacked"
  shows "\<exists>e w'. send_property_command_to_device ser cfg p dv env w = (Inl e, w') \<and> published w' = published w \<and>
    db w' = snd (move_commands (\<lambda>r. pc_product_id r = p \<and> pc_device_id r = dv) Pending Sent (now_at env (tick w)) (db w))"
  using assms
  by (simp add: send_property_command_to_device_def update_pending_commands_to_sent_def bindE_def db_exec_def
    ext_call_def Let_def split: prod.split)

text \<open>The same holds for the rows after one whose failure cannot be recorded: the loop ends there.\<close>

lemma unrecorded_failure_ends_delivery:
  assumes "publish_property_row ser cfg topic x env w = (Inl e, w')"
  shows "forE (x # xs) (publish_property_row ser cfg topic) env w = (Inl e, w')"
  using assms by (simp add: bindE_def)

section \<open>The unified list\<close>

lemma operation_view_of_property:
  "operation_view (property_operation_row r) =
     Inr \<lparr>ow_operation_id = ''property:'' @ show_int (pc_id r),
          ow_operation_type = (case pc_source r of OneShot \<Rightarrow> DirectPropertyWrite | DesiredDelta \<Rightarrow> TargetSync),
          ow_name = or_name (property_operation_row r), ow_payload = pc_command r, ow_status = pc_status r,
          ow_created_time = pc_created_time r, ow_updated_time = pc_updated_time r\<rparr>"
  by (simp add: operation_view_def property_operation_row_def Let_def split: command_source.split)

lemma operation_view_of_action:
  "operation_view (action_operation_row r) =
     Inr \<lparr>ow_operation_id = ''action:'' @ show_int (ai_id r), ow_operation_type = ActionInvocation,
          ow_name = ai_service_type r, ow_payload = ai_params r, ow_status = ai_status r,
          ow_created_time = ai_created_time r, ow_updated_time = ai_updated_time r\<rparr>"
  by (simp add: operation_view_def action_operation_row_def Let_def)

lemma operation_views_map:
  "(\<And>r. r \<in> set rows \<Longrightarrow> operation_view r = Inr (f r)) \<Longrightarrow> operation_views rows = Inr (map f rows)"
  by (induction rows) auto

text \<open>What the list should show for a command and for an action.\<close>

definition operation_of_command :: "property_command \<Rightarrow> device_operation_view" where
  "operation_of_command r =
     (let (ty, name) = (if pc_source r = DesiredDelta then (TargetSync, ''Sync target'')
                        else (DirectPropertyWrite, ''Set properties''))
      in \<lparr>ow_operation_id = ''property:'' @ show_int (pc_id r), ow_operation_type = ty, ow_name = name,
          ow_payload = pc_command r, ow_status = pc_status r,
          ow_created_time = pc_created_time r, ow_updated_time = pc_updated_time r\<rparr>)"

definition operation_of_action :: "action_invocation \<Rightarrow> device_operation_view" where
  "operation_of_action r =
     \<lparr>ow_operation_id = ''action:'' @ show_int (ai_id r), ow_operation_type = ActionInvocation,
      ow_name = ai_service_type r, ow_payload = ai_params r, ow_status = ai_status r,
      ow_created_time = ai_created_time r, ow_updated_time = ai_updated_time r\<rparr>"

definition operations_of :: "device_operation_query \<Rightarrow> database \<Rightarrow> device_operation_view set" where
  "operations_of q d =
     {v. oq_operation_type q \<in> {None, Some (ow_operation_type v)} \<and> oq_status q \<in> {None, Some (ow_status v)} \<and>
         ((\<exists>r\<in>set (property_commands d). v = operation_of_command r \<and> pc_product_id r = oq_product_id q \<and>
             oq_device_id q \<in> {None, Some (pc_device_id r)}) \<or>
          (\<exists>r\<in>set (action_invocations d). v = operation_of_action r \<and> ai_product_id r = oq_product_id q \<and>
             oq_device_id q \<in> {None, Some (ai_device_id r)}))}"

lemma opt_eq_iff: "opt_eq x y \<longleftrightarrow> x \<in> {None, Some y}"
  by (cases x) (auto simp: opt_eq_def)

lemma view_of_property: "operation_view (property_operation_row r) = Inr (operation_of_command r)"
  unfolding operation_view_of_property
  by (simp add: operation_of_command_def property_operation_row_def split: command_source.split)

lemma view_of_action: "operation_view (action_operation_row r) = Inr (operation_of_action r)"
  unfolding operation_view_of_action by (simp add: operation_of_action_def)

lemma operation_fields [simp]:
  "ow_operation_id (operation_of_command r) = ''property:'' @ show_int (pc_id r)"
  "ow_operation_id (operation_of_action a) = ''action:'' @ show_int (ai_id a)"
  "ow_status (operation_of_command r) = pc_status r" "ow_status (operation_of_action a) = ai_status a"
  "ow_operation_type (operation_of_action a) = ActionInvocation"
  "ow_operation_type (operation_of_command r) = (if pc_source r = DesiredDelta then TargetSync else DirectPropertyWrite)"
  "ow_updated_time (operation_of_command r) = pc_updated_time r" "ow_updated_time (operation_of_action a) = ai_updated_time a"
  by (simp_all add: operation_of_command_def operation_of_action_def)

lemma row_fields [simp]:
  "or_operation_id (property_operation_row r) = ''property:'' @ show_int (pc_id r)"
  "or_operation_id (action_operation_row a) = ''action:'' @ show_int (ai_id a)"
  "or_updated_time (property_operation_row r) = pc_updated_time r" "or_updated_time (action_operation_row a) = ai_updated_time a"
  by (simp_all add: property_operation_row_def action_operation_row_def)

lemma type_filter:
  "(case oq_operation_type q of Some DirectPropertyWrite \<Rightarrow> pc_source r = OneShot
     | Some TargetSync \<Rightarrow> pc_source r = DesiredDelta | Some ActionInvocation \<Rightarrow> False | None \<Rightarrow> True) \<longleftrightarrow>
   oq_operation_type q \<in> {None, Some (ow_operation_type (operation_of_command r))}"
  "(case oq_operation_type q of Some DirectPropertyWrite \<Rightarrow> False | Some TargetSync \<Rightarrow> False | _ \<Rightarrow> True) \<longleftrightarrow>
   oq_operation_type q \<in> {None, Some ActionInvocation}"
  by (cases "pc_source r"; auto split: option.split device_operation_type.split)
    (auto split: option.split device_operation_type.split)

definition listed_operations :: "device_operation_query \<Rightarrow> database \<Rightarrow> device_operation_view list" where
  "listed_operations q d = map (\<lambda>r. projr (operation_view r)) (order_operations (push_device_operation_union q d))"

lemma union_views:
  "r \<in> set (push_device_operation_union q d) \<Longrightarrow>
   operation_view r = Inr (projr (operation_view r)) \<and>
   ow_operation_id (projr (operation_view r)) = or_operation_id r \<and>
   ow_updated_time (projr (operation_view r)) = or_updated_time r"
  by (auto simp: push_device_operation_union_def view_of_property view_of_action)

lemma set_listed: "set (listed_operations q d) = operations_of q d"
proof -
  have "set (listed_operations q d) = (\<lambda>r. projr (operation_view r)) ` set (push_device_operation_union q d)"
    by (simp add: listed_operations_def order_operations_def)
  also have "\<dots> = operations_of q d"
    unfolding push_device_operation_union_def set_append image_Un set_map image_image view_of_property view_of_action
      sum.sel set_filter opt_eq_iff operations_of_def type_filter
    by (rule set_eqI) (auto simp del: insert_iff)
  finally show ?thesis .
qed

lemma operation_ids_distinct:
  assumes "wf_commands d"
  shows "distinct (map ow_operation_id (listed_operations q d))"
proof -
  let ?U = "push_device_operation_union q d"
  have "map ow_operation_id (listed_operations q d) = map or_operation_id (order_operations ?U)"
    unfolding listed_operations_def using union_views [of _ q d] by (simp add: order_operations_def)
  moreover have "mset (map or_operation_id (order_operations ?U)) = mset (map or_operation_id ?U)"
    by (simp add: order_operations_def)
  moreover have "distinct (map or_operation_id ?U)"
    using assms
    by (auto simp: push_device_operation_union_def wf_commands_def pcs.wf_rows_def ais.wf_rows_def
      distinct_map inj_on_def show_int_inject)
  ultimately show ?thesis by (metis mset_eq_imp_distinct_iff)
qed

lemma listed_newest_first: "sorted_wrt (\<ge>) (map ow_updated_time (listed_operations q d))"
proof -
  let ?U = "push_device_operation_union q d"
  have "map ow_updated_time (listed_operations q d) = map or_updated_time (order_operations ?U)"
    unfolding listed_operations_def using union_views [of _ q d] by (simp add: order_operations_def)
  moreover have "sorted (map (\<lambda>r. (or_updated_time r, or_operation_id r)) (sort_key (\<lambda>r. (or_updated_time r, or_operation_id r)) ?U))"
    by (rule sorted_sort_key)
  then have "sorted_wrt (\<lambda>r r'. or_updated_time r \<le> or_updated_time r') (sort_key (\<lambda>r. (or_updated_time r, or_operation_id r)) ?U)"
    unfolding sorted_map by (rule sorted_wrt_mono_rel [rotated]) (auto simp: less_eq_prod_def)
  ultimately show ?thesis by (simp add: order_operations_def sorted_wrt_map sorted_wrt_rev rev_map [symmetric])
qed

lemma operation_views_page:
  "operation_views (take n (drop m (order_operations (push_device_operation_union q d)))) =
     Inr (take n (drop m (listed_operations q d)))"
proof -
  have "operation_view r = Inr (projr (operation_view r))"
    if "r \<in> set (take n (drop m (order_operations (push_device_operation_union q d))))" for r
    using that union_views by (metis in_set_dropD in_set_takeD order_operations_def set_rev set_sort)
  then show ?thesis by (subst operation_views_map [where f = "\<lambda>r. projr (operation_view r)"]) (simp_all add: listed_operations_def take_map drop_map)
qed

text \<open>
  C40: the unified list of operations is sound and complete. When the database answers and the page
  exists, \<open>query_device_operations\<close> returns this page of a list, newest update first, in which every
  property command and every action of the asked product, device and status appears exactly once: a
  command under the type its source stands for (a one-shot command as a direct write, a desired delta as
  a target sync), an action as an invocation under its service type, each with its own content, status
  and times, and, when a type is asked for, only the operations of that type. The total is the length of
  the whole list.
\<close>

theorem operations_listed_once:
  assumes "reliable env" and "wf_commands (db w)"
    and "1 \<le> oq_page q" "0 \<le> oq_page_size q" "(oq_page q - 1) * oq_page_size q \<le> i64_max"
  shows "\<exists>vs w'. query_device_operations q env w =
      (Inr (take (nat (oq_page_size q)) (drop (nat ((oq_page q - 1) * oq_page_size q)) vs),
        \<lparr>pg_page = oq_page q, pg_page_size = oq_page_size q, pg_total = int (length vs)\<rparr>), w') \<and>
    db w' = db w \<and> set vs = operations_of q (db w) \<and> distinct (map ow_operation_id vs) \<and>
    sorted_wrt (\<ge>) (map ow_updated_time vs)"
proof -
  have pos: "0 \<le> (oq_page q - 1) * oq_page_size q" using assms(3,4) by simp
  then have off: "wrap_i64 ((oq_page q - 1) * oq_page_size q) = (oq_page q - 1) * oq_page_size q"
    using assms(5) by (intro wrap_i64_id) (simp_all add: i64_min_def)
  have len: "length (listed_operations q (db w)) = length (push_device_operation_union q (db w))"
    by (simp add: listed_operations_def order_operations_def)
  have page: "paginate (oq_page q) (oq_page_size q) rows =
      Some (take (nat (oq_page_size q)) (drop (nat ((oq_page q - 1) * oq_page_size q)) rows))" for rows :: "device_operation_row list"
    using assms(4) pos by (simp only: paginate_def off Let_def) simp
  show ?thesis
    using assms(1)
    by (intro exI [of _ "listed_operations q (db w)"] exI [of _ "w\<lparr>tick := Suc (Suc (tick w))\<rparr>"] conjI set_listed operation_ids_distinct [OF assms(2)]
        listed_newest_first)
      (simp_all add: query_device_operations_def query_page_def query_count_def bindE_def db_query_reliable
        page ok_or_def ret_def operation_views_page lift_res_def len)
qed

theorem operations_listed_once_witness:
  "\<exists>vs. set vs = operations_of \<lparr>oq_product_id = ''p'', oq_device_id = Some ''d'', oq_operation_type = Some TargetSync,
      oq_status = None, oq_page = 1, oq_page_size = 10\<rparr> two_commands \<and>
    fst (query_device_operations \<lparr>oq_product_id = ''p'', oq_device_id = Some ''d'', oq_operation_type = Some TargetSync,
      oq_status = None, oq_page = 1, oq_page_size = 10\<rparr> all_done (empty_world\<lparr>db := two_commands\<rparr>)) =
      Inr (take 10 vs, \<lparr>pg_page = 1, pg_page_size = 10, pg_total = int (length vs)\<rparr>)"
  using operations_listed_once [of all_done "empty_world\<lparr>db := two_commands\<rparr>"
      "\<lparr>oq_product_id = ''p'', oq_device_id = Some ''d'', oq_operation_type = Some TargetSync,
        oq_status = None, oq_page = 1, oq_page_size = 10\<rparr>"]
  by (auto simp: reliable_all_done wf_two_commands i64_max_def)

text \<open>
  Paging loses and repeats nothing while the offsets fit 64 bits: the first \<open>n\<close> pages of a list, put
  together, are its first \<open>n * page_size\<close> rows, and no page has more than \<open>page_size\<close> rows.
\<close>

theorem pages_partition:
  assumes "0 < sz" "int n * sz \<le> i64_max"
  shows "concat (map (\<lambda>i. the (paginate (int i + 1) sz rows)) [0..<n]) = take (n * nat sz) rows \<and>
     (\<forall>i<n. \<exists>rs. paginate (int i + 1) sz rows = Some rs \<and> length rs \<le> nat sz)"
proof -
  have off: "wrap_i64 (int i * sz) = int i * sz" if "i < n" for i
  proof (rule wrap_i64_id)
    have "int i * sz \<le> int n * sz" using that assms(1) by (intro mult_right_mono) auto
    then show "int i * sz \<le> i64_max" using assms(2) by simp
    have "0 \<le> int i * sz" using assms(1) by simp
    then show "i64_min \<le> int i * sz" by (simp add: i64_min_def)
  qed
  have page: "paginate (int i + 1) sz rows = Some (take (nat sz) (drop (i * nat sz) rows))" if "i < n" for i
    using assms(1) off [OF that] by (simp add: paginate_def nat_mult_distrib Let_def mult_less_0_iff)
  have "concat (map (\<lambda>i. take (nat sz) (drop (i * nat sz) rows)) [0..<n]) = take (n * nat sz) rows" for n
  proof (induction n)
    case (Suc n)
    have "Suc n * nat sz = n * nat sz + nat sz" by simp
    then show ?case by (simp only: take_add) (use Suc in simp)
  qed simp
  note parts = this
  have "map (\<lambda>i. the (paginate (int i + 1) sz rows)) [0..<n] = map (\<lambda>i. take (nat sz) (drop (i * nat sz) rows)) [0..<n]"
    using page by simp
  then have "concat (map (\<lambda>i. the (paginate (int i + 1) sz rows)) [0..<n]) = take (n * nat sz) rows"
    unfolding parts [symmetric] by (rule arg_cong)
  with page show ?thesis by auto
qed

theorem pages_partition_witness:
  "concat (map (\<lambda>i. the (paginate (int i + 1) 2 [1, 2, 3, 4, 5 :: nat])) [0..<2]) = [1, 2, 3, 4]"
  using pages_partition [of 2 2 "[1, 2, 3, 4, 5 :: nat]"] by (simp add: numeral_eq_Suc i64_max_def)

text \<open>Beyond that the offset wraps: page \<open>2 ^ 62 + 1\<close> of four rows each is the first page again.\<close>

lemma huge_page_wraps: "paginate (2 ^ 62 + 1) 4 rows = paginate 1 4 rows"
  by (simp add: paginate_def wrap_i64_def)

end
