(* ===== verification/Shadow.thy ===== *)
theory Shadow
  imports Hoare
begin

text \<open>
  The device shadow: \<open>compute_delta\<close> of \<open>backend/src/api/shadow.rs\<close>, \<open>merge_desired\<close> and the
  statements on the tables \<open>property_latest\<close>, \<open>property_history\<close> and \<open>property_desired\<close> of
  \<open>backend/src/db/database.rs\<close>. A transaction is one atomic statement. \<open>rfc3339\<close> stands for the
  formatter of the \<open>time\<close> crate.
\<close>

section \<open>Documents\<close>

definition compute_delta :: "jmap \<Rightarrow> jmap \<Rightarrow> jmap" where
  "compute_delta desired reported =
     foldl (\<lambda>delta (key, dval).
       if is_null dval then delta
       else let diverged = (case jmap_get reported key of
                              None \<Rightarrow> True
                            | Some obj \<Rightarrow> json_get obj ''value'' \<noteq> Some dval)
            in if diverged then jmap_insert key dval delta else delta) [] desired"

definition merge_desired :: "jmap \<Rightarrow> jmap \<Rightarrow> jmap" where
  "merge_desired current patch =
     foldl (\<lambda>result (key, val).
       if is_null val then jmap_remove key result else jmap_insert key val result) current patch"

text \<open>The loop of \<open>upsert_property_latest\<close> that stamps each property with its time.\<close>

definition with_time :: "string \<Rightarrow> jmap \<Rightarrow> jmap" where
  "with_time timestamp_str properties =
     foldl (\<lambda>acc (key, value).
       jmap_insert key (json_obj [(''value'', value), (''time'', JString timestamp_str)]) acc)
       [] properties"

text \<open>PostgreSQL's \<open>||\<close> on JSONB.\<close>

definition jsonb_concat :: "json \<Rightarrow> json \<Rightarrow> json" where
  "jsonb_concat a b =
     (case (a, b) of
        (JObject m, JObject n) \<Rightarrow> JObject (foldl (\<lambda>acc (k, v). jmap_insert k v acc) m n)
      | _ \<Rightarrow> JArray ((case a of JArray xs \<Rightarrow> xs | _ \<Rightarrow> [a]) @ (case b of JArray ys \<Rightarrow> ys | _ \<Rightarrow> [b])))"

section \<open>Statements\<close>

definition latest_for :: "string \<Rightarrow> string \<Rightarrow> property_latest \<Rightarrow> bool" where
  "latest_for p d r \<longleftrightarrow> pl_product_id r = p \<and> pl_device_id r = d"

definition desired_for :: "string \<Rightarrow> string \<Rightarrow> property_desired \<Rightarrow> bool" where
  "desired_for p d r \<longleftrightarrow> pd_product_id r = p \<and> pd_device_id r = d"

definition upsert_property_latest_sql ::
  "string \<Rightarrow> string \<Rightarrow> jmap \<Rightarrow> string \<Rightarrow> instant \<Rightarrow> instant \<Rightarrow> database \<Rightarrow> unit \<times> database" where
  "upsert_property_latest_sql product_id device_id properties timestamp_str timestamp now d =
     (let new_properties = JObject (with_time timestamp_str properties);
          P = latest_for product_id device_id;
          latest = (if count_where P (property_latests d) = 0
                    then property_latests d @
                      [\<lparr>pl_product_id = product_id, pl_device_id = device_id,
                        pl_properties = new_properties, pl_updated_time = timestamp\<rparr>]
                    else update_where P (\<lambda>r. r\<lparr>pl_properties := jsonb_concat (pl_properties r) new_properties,
                                               pl_updated_time := timestamp\<rparr>) (property_latests d));
          i = next_property_history_id d;
          row = \<lparr>ph_id = i, ph_product_id = product_id, ph_device_id = device_id,
                 ph_properties = JObject properties, ph_reported_time = Some timestamp,
                 ph_created_time = now\<rparr>
      in ((), d\<lparr>property_latests := latest,
               property_histories := property_histories d @ [row],
               next_property_history_id := i + 1\<rparr>))"

definition upsert_property_latest ::
  "(instant \<Rightarrow> string option) \<Rightarrow> string \<Rightarrow> string \<Rightarrow> jmap \<Rightarrow> instant \<Rightarrow> ('s, io_error, unit) io" where
  "upsert_property_latest rfc3339 product_id device_id properties timestamp =
     bindE (ok_or CallFailed (rfc3339 timestamp)) (\<lambda>timestamp_str.
       db_exec (upsert_property_latest_sql product_id device_id properties timestamp_str timestamp))"

definition get_property_latest_one ::
  "string \<Rightarrow> string \<Rightarrow> ('s, io_error, property_latest option) io" where
  "get_property_latest_one product_id device_id =
     db_query (\<lambda>now d. find (latest_for product_id device_id) (property_latests d))"

definition get_property_desired ::
  "string \<Rightarrow> string \<Rightarrow> ('s, io_error, property_desired option) io" where
  "get_property_desired product_id device_id =
     db_query (\<lambda>now d. find (desired_for product_id device_id) (property_desireds d))"

text \<open>
  Set-Desired: ensure the row exists, lock and read it, merge, write it back. The row lock
  makes the transaction atomic with respect to other patches of the same device.
\<close>

definition upsert_property_desired_sql ::
  "string \<Rightarrow> string \<Rightarrow> jmap \<Rightarrow> instant \<Rightarrow> database \<Rightarrow> property_desired option \<times> database" where
  "upsert_property_desired_sql product_id device_id desired_patch now d =
     (let P = desired_for product_id device_id;
          rows = (if count_where P (property_desireds d) = 0
                  then property_desireds d @
                    [\<lparr>pd_product_id = product_id, pd_device_id = device_id,
                      pd_desired = JObject [], pd_updated_time = now\<rparr>]
                  else property_desireds d)
      in case find P rows of
           None \<Rightarrow> (None, d)
         | Some existing \<Rightarrow>
             let current_map = (case as_object (pd_desired existing) of Some m \<Rightarrow> m | None \<Rightarrow> []);
                 merged_value = JObject (merge_desired current_map desired_patch);
                 rows' = update_where P (\<lambda>r. r\<lparr>pd_desired := merged_value, pd_updated_time := now\<rparr>) rows
             in (find P rows', d\<lparr>property_desireds := rows'\<rparr>))"

definition upsert_property_desired ::
  "string \<Rightarrow> string \<Rightarrow> jmap \<Rightarrow> ('s, io_error, property_desired) io" where
  "upsert_property_desired product_id device_id desired_patch =
     bindE (db_exec (upsert_property_desired_sql product_id device_id desired_patch)) (\<lambda>row.
       ok_or CallFailed row)"

section \<open>Documents as lookups\<close>

abbreviation jedits where "jedits \<equiv> fold_edits jmap_insert jmap_remove"

lemma compute_delta_edits:
  "compute_delta desired reported =
     jedits (\<lambda>k v. if v \<noteq> JNull \<and> Option.bind (jmap_get reported k) (\<lambda>obj. json_get obj ''value'') \<noteq> Some v
                   then Some (Some v) else None) [] desired"
proof -
  have "foldl (\<lambda>delta (key, dval).
       if is_null dval then delta
       else let diverged = (case jmap_get reported key of
                              None \<Rightarrow> True
                            | Some obj \<Rightarrow> json_get obj ''value'' \<noteq> Some dval)
            in if diverged then jmap_insert key dval delta else delta) m desired =
     jedits (\<lambda>k v. if v \<noteq> JNull \<and> Option.bind (jmap_get reported k) (\<lambda>obj. json_get obj ''value'') \<noteq> Some v
                   then Some (Some v) else None) m desired" for m
    by (induction desired arbitrary: m) (auto simp: Let_def split: option.split)
  then show ?thesis by (simp add: compute_delta_def)
qed

lemma merge_desired_edits:
  "merge_desired current patch = jedits (\<lambda>k v. Some (if v = JNull then None else Some v)) current patch"
  unfolding merge_desired_def by (induction patch arbitrary: current) auto

lemma foldl_insert_edits:
  "foldl (\<lambda>acc (k, v). jmap_insert k (g k v) acc) m n = jedits (\<lambda>k v. Some (Some (g k v))) m n"
  by (induction n arbitrary: m) auto

lemma with_time_edits:
  "with_time ts ps =
     jedits (\<lambda>k v. Some (Some (json_obj [(''value'', v), (''time'', JString ts)]))) [] ps"
  unfolding with_time_def by (rule foldl_insert_edits)

lemma compute_delta_get:
  "wf_jmap desired \<Longrightarrow>
   jmap_get (compute_delta desired reported) k =
     (case jmap_get desired k of
        None \<Rightarrow> None
      | Some v \<Rightarrow> if v \<noteq> JNull \<and> Option.bind (jmap_get reported k) (\<lambda>obj. json_get obj ''value'') \<noteq> Some v
                  then Some v else None)"
  by (simp add: compute_delta_edits jm.get_fold_edits wf_jmap_distinct split: option.split)

lemma wf_compute_delta: "wf_jmap (compute_delta desired reported)"
  by (simp add: compute_delta_edits jm.inv_fold_edits)

lemma merge_desired_get:
  "wf_jmap current \<Longrightarrow> wf_jmap patch \<Longrightarrow>
   jmap_get (merge_desired current patch) k =
     (case jmap_get patch k of
        None \<Rightarrow> jmap_get current k
      | Some v \<Rightarrow> if v = JNull then None else Some v)"
  by (simp add: merge_desired_edits jm.get_fold_edits wf_jmap_distinct split: option.split)

lemma wf_merge_desired: "wf_jmap current \<Longrightarrow> wf_jmap (merge_desired current patch)"
  by (simp add: merge_desired_edits jm.inv_fold_edits)

lemma with_time_get:
  "wf_jmap ps \<Longrightarrow>
   jmap_get (with_time ts ps) k =
     map_option (\<lambda>v. json_obj [(''value'', v), (''time'', JString ts)]) (jmap_get ps k)"
  by (simp add: with_time_edits jm.get_fold_edits wf_jmap_distinct split: option.split)

lemma wf_with_time: "wf_jmap (with_time ts ps)"
  by (simp add: with_time_edits jm.inv_fold_edits)

lemma jsonb_concat_objects:
  assumes "wf_jmap m" "wf_jmap n"
  shows "\<exists>r. jsonb_concat (JObject m) (JObject n) = JObject r \<and> wf_jmap r \<and>
    (\<forall>k. jmap_get r k = (case jmap_get n k of None \<Rightarrow> jmap_get m k | Some v \<Rightarrow> Some v))"
  using assms foldl_insert_edits [of "\<lambda>k v. v" m n]
  by (auto simp: jsonb_concat_def jm.get_fold_edits jm.inv_fold_edits wf_jmap_distinct split: option.split)

section \<open>Reported and desired state of a device\<close>

definition reported_doc :: "string \<Rightarrow> string \<Rightarrow> database \<Rightarrow> jmap" where
  "reported_doc p d D =
     (case find (latest_for p d) (property_latests D) of
        Some r \<Rightarrow> (case as_object (pl_properties r) of Some m \<Rightarrow> m | None \<Rightarrow> [])
      | None \<Rightarrow> [])"

definition desired_doc :: "string \<Rightarrow> string \<Rightarrow> database \<Rightarrow> jmap" where
  "desired_doc p d D =
     (case find (desired_for p d) (property_desireds D) of
        Some r \<Rightarrow> (case as_object (pd_desired r) of Some m \<Rightarrow> m | None \<Rightarrow> [])
      | None \<Rightarrow> [])"

text \<open>The stored documents are objects in canonical form.\<close>

definition wf_shadow :: "database \<Rightarrow> bool" where
  "wf_shadow D \<longleftrightarrow>
     (\<forall>r\<in>set (property_latests D). \<exists>m. pl_properties r = JObject m \<and> wf_jmap m) \<and>
     (\<forall>r\<in>set (property_desireds D). \<exists>m. pd_desired r = JObject m \<and> wf_jmap m)"

lemma reported_doc_upsert:
  assumes wf: "wf_shadow D"
  shows "\<exists>m. reported_doc p d (snd (upsert_property_latest_sql p d ps ts t now D)) = m \<and> wf_jmap m \<and>
    (\<forall>k. jmap_get m k = (case jmap_get (with_time ts ps) k of
       None \<Rightarrow> jmap_get (reported_doc p d D) k | Some v \<Rightarrow> Some v))"
proof (cases "find (latest_for p d) (property_latests D)")
  case None
  then have new: "count_where (latest_for p d) (property_latests D) = 0" by (simp add: count_where_find)
  then show ?thesis using None find_append_new [OF new]
    by (auto simp: reported_doc_def upsert_property_latest_sql_def Let_def latest_for_def as_object_def
        wf_with_time split: option.split)
next
  case (Some r)
  then obtain m where m: "pl_properties r = JObject m" "wf_jmap m"
    using wf by (auto simp: wf_shadow_def find_Some_iff) (metis nth_mem)
  have old: "count_where (latest_for p d) (property_latests D) \<noteq> 0" using Some by (simp add: count_where_find)
  obtain n where n: "jsonb_concat (JObject m) (JObject (with_time ts ps)) = JObject n" "wf_jmap n"
    "\<forall>k. jmap_get n k = (case jmap_get (with_time ts ps) k of None \<Rightarrow> jmap_get m k | Some v \<Rightarrow> Some v)"
    using jsonb_concat_objects [OF m(2) wf_with_time] by metis
  have "reported_doc p d D = m" using Some m by (simp add: reported_doc_def as_object_def)
  moreover have "reported_doc p d (snd (upsert_property_latest_sql p d ps ts t now D)) = n"
    using Some old m n
    by (simp add: reported_doc_def upsert_property_latest_sql_def Let_def as_object_def
        find_update_where_same latest_for_def)
  ultimately show ?thesis using n(2,3) by blast
qed

lemma wf_reported_doc: "wf_shadow D \<Longrightarrow> wf_jmap (reported_doc p d D)"
  and wf_desired_doc: "wf_shadow D \<Longrightarrow> wf_jmap (desired_doc p d D)"
  by (force simp: reported_doc_def desired_doc_def wf_shadow_def find_Some_iff as_object_def
      dest: nth_mem split: option.splits json.splits)+

lemma desired_doc_upsert:
  "desired_doc p' d' (snd (upsert_property_desired_sql p d patch now D)) =
     (if p' = p \<and> d' = d then merge_desired (desired_doc p d D) patch else desired_doc p' d' D)"
proof -
  let ?P = "desired_for p d"
  let ?rows = "if count_where ?P (property_desireds D) = 0
    then property_desireds D @ [\<lparr>pd_product_id = p, pd_device_id = d, pd_desired = JObject [], pd_updated_time = now\<rparr>]
    else property_desireds D"
  obtain r where r: "find ?P ?rows = Some r"
    and doc: "(case as_object (pd_desired r) of Some m \<Rightarrow> m | None \<Rightarrow> []) = desired_doc p d D"
    by (cases "find ?P (property_desireds D)")
      (auto simp: find_append_new count_where_find desired_for_def desired_doc_def as_object_def)
  have other: "find (desired_for p' d') ?rows = find (desired_for p' d') (property_desireds D)"
    if "\<not> (p' = p \<and> d' = d)"
    using that by (auto simp: find_append_other desired_for_def)
  show ?thesis
  proof (cases "p' = p \<and> d' = d")
    case True
    then show ?thesis using r doc
      by (simp add: upsert_property_desired_sql_def Let_def desired_doc_def [of _ _ "_\<lparr>property_desireds := _\<rparr>"]
          find_update_where_same desired_for_def as_object_def)
  next
    case False
    then have upd: "find (desired_for p' d') (update_where ?P (\<lambda>r. r\<lparr>pd_desired := v, pd_updated_time := now\<rparr>) xs) =
        find (desired_for p' d') xs" for v xs
      by (intro find_update_where_other) (auto simp: desired_for_def)
    show ?thesis using r other [OF False] False
      by (simp add: upsert_property_desired_sql_def Let_def desired_doc_def upd cong: if_cong)
        (auto split: option.split)
  qed
qed

section \<open>Properties\<close>

text \<open>
  C20. The delta is exactly what has not converged: it maps a property to its desired value if
  that value is not the deletion marker \<open>null\<close> and the reported document does not hold it, and
  holds nothing else; it is empty exactly when every desired value is the reported one.
\<close>

theorem compute_delta_exact:
  assumes "wf_jmap desired"
  shows "wf_jmap (compute_delta desired reported) \<and>
    jmap_get (compute_delta desired reported) k =
      (case jmap_get desired k of
         Some v \<Rightarrow> if v = JNull \<or> Option.bind (jmap_get reported k) (\<lambda>obj. json_get obj ''value'') = Some v
                   then None else Some v
       | None \<Rightarrow> None) \<and>
    (compute_delta desired reported = [] \<longleftrightarrow>
      (\<forall>k v. jmap_get desired k = Some v \<and> v \<noteq> JNull \<longrightarrow>
         Option.bind (jmap_get reported k) (\<lambda>obj. json_get obj ''value'') = Some v))"
proof (intro conjI)
  show "wf_jmap (compute_delta desired reported)" by (rule wf_compute_delta)
  show "jmap_get (compute_delta desired reported) k =
      (case jmap_get desired k of
         Some v \<Rightarrow> if v = JNull \<or> Option.bind (jmap_get reported k) (\<lambda>obj. json_get obj ''value'') = Some v
                   then None else Some v
       | None \<Rightarrow> None)"
    by (simp add: compute_delta_get [OF assms] split: option.split)
  have "compute_delta desired reported = [] \<longleftrightarrow> (\<forall>k. jmap_get (compute_delta desired reported) k = None)"
    by (metis map_of_eq_empty_iff)
  also have "\<dots> \<longleftrightarrow> (\<forall>k v. jmap_get desired k = Some v \<and> v \<noteq> JNull \<longrightarrow>
         Option.bind (jmap_get reported k) (\<lambda>obj. json_get obj ''value'') = Some v)"
    by (simp add: compute_delta_get [OF assms] split: option.split) blast
  finally show "compute_delta desired reported = [] \<longleftrightarrow> (\<forall>k v. jmap_get desired k = Some v \<and> v \<noteq> JNull \<longrightarrow>
         Option.bind (jmap_get reported k) (\<lambda>obj. json_get obj ''value'') = Some v)" .
qed

theorem compute_delta_exact_witness:
  "jmap_get (compute_delta [(''mode'', JString ''eco''), (''on'', JBool True)]
     [(''on'', JObject [(''time'', JString ''t''), (''value'', JBool True)])]) ''mode'' = Some (JString ''eco'')"
  using compute_delta_exact [of "[(''mode'', JString ''eco''), (''on'', JBool True)]"
      "[(''on'', JObject [(''time'', JString ''t''), (''value'', JBool True)])]" "''mode''"]
  by (simp add: wf_jmap_def less_char_def)

text \<open>
  C21. The shadow loop closes: when a device reports exactly the delta between its desired and
  its reported state, the stored reported state has no delta left, whatever it held before.
\<close>

theorem reporting_the_delta_converges:
  assumes "wf_shadow D"
  shows "compute_delta (desired_doc p d D)
    (reported_doc p d (snd (upsert_property_latest_sql p d
       (compute_delta (desired_doc p d D) (reported_doc p d D)) ts t now D))) = []"
proof -
  let ?des = "desired_doc p d D" and ?rep = "reported_doc p d D"
  let ?delta = "compute_delta ?des ?rep"
  have wf: "wf_jmap ?des" by (rule wf_desired_doc [OF assms])
  obtain m where m: "reported_doc p d (snd (upsert_property_latest_sql p d ?delta ts t now D)) = m"
    "\<And>k. jmap_get m k = (case jmap_get (with_time ts ?delta) k of None \<Rightarrow> jmap_get ?rep k | Some v \<Rightarrow> Some v)"
    using reported_doc_upsert [OF assms] by metis
  have val: "json_get (json_obj [(''value'', v), (''time'', JString ts)]) ''value'' = Some v" for v
    by (simp add: json_obj_def less_char_def)
  have "jmap_get (compute_delta ?des m) k = None" for k
    by (auto simp: compute_delta_get [OF wf] m(2) with_time_get [OF wf_compute_delta] val
        split: option.split)
  then show ?thesis unfolding m(1) by (metis map_of_eq_empty_iff)
qed

text \<open>A device that reported the mode \<open>on\<close> and shall be in the mode \<open>eco\<close> with the fan at 2.\<close>

definition diverged_shadow :: database where
  "diverged_shadow = empty_db\<lparr>
     property_latests := [\<lparr>pl_product_id = ''p'', pl_device_id = ''d'',
       pl_properties = JObject [(''mode'', JObject [(''time'', JString ''s''), (''value'', JString ''on'')])],
       pl_updated_time = 0\<rparr>],
     property_desireds := [\<lparr>pd_product_id = ''p'', pd_device_id = ''d'',
       pd_desired = JObject [(''fan'', JNumber (PosInt 2)), (''mode'', JString ''eco'')], pd_updated_time = 0\<rparr>]\<rparr>"

theorem reporting_the_delta_converges_witness:
  "compute_delta (desired_doc ''p'' ''d'' diverged_shadow) (reported_doc ''p'' ''d'' diverged_shadow) =
     [(''fan'', JNumber (PosInt 2)), (''mode'', JString ''eco'')] \<and>
   compute_delta (desired_doc ''p'' ''d'' diverged_shadow)
    (reported_doc ''p'' ''d'' (snd (upsert_property_latest_sql ''p'' ''d''
       [(''fan'', JNumber (PosInt 2)), (''mode'', JString ''eco'')] ''t'' 1 1 diverged_shadow))) = []"
proof -
  have "wf_shadow diverged_shadow"
    by (simp add: wf_shadow_def diverged_shadow_def empty_db_def wf_jmap_def less_char_def)
  note converges = reporting_the_delta_converges [OF this, of "''p''" "''d''" "''t''" 1 1]
  have delta: "compute_delta (desired_doc ''p'' ''d'' diverged_shadow) (reported_doc ''p'' ''d'' diverged_shadow) =
     [(''fan'', JNumber (PosInt 2)), (''mode'', JString ''eco'')]"
    by (simp add: compute_delta_def desired_doc_def reported_doc_def diverged_shadow_def empty_db_def desired_for_def
      latest_for_def as_object_def less_char_def)
  show ?thesis using converges unfolding delta by simp
qed

text \<open>
  Concurrent Set-Desired patches. In whatever order the patches of a device are committed,
  its desired document holds for each property the value of the last patch that mentions the
  property (nothing if that patch deletes it), and the value from before if none does; patches
  of other devices in between change nothing.
\<close>

theorem desired_last_patch_wins:
  assumes "wf_jmap (desired_doc p d D)" and "\<forall>(p', d', patch, now)\<in>set patches. wf_jmap patch"
  shows "jmap_get (desired_doc p d (foldl (\<lambda>D (p', d', patch, now).
      snd (upsert_property_desired_sql p' d' patch now D)) D patches)) k =
    (case find_map (\<lambda>(p', d', patch, now). if p' = p \<and> d' = d then jmap_get patch k else None) (rev patches) of
       None \<Rightarrow> jmap_get (desired_doc p d D) k
     | Some v \<Rightarrow> if v = JNull then None else Some v)"
proof -
  let ?run = "foldl (\<lambda>D (p', d', patch, now). snd (upsert_property_desired_sql p' d' patch now D)) D"
  have "wf_jmap (desired_doc p d (?run patches)) \<and>
    jmap_get (desired_doc p d (?run patches)) k =
      (case find_map (\<lambda>(p', d', patch, now). if p' = p \<and> d' = d then jmap_get patch k else None) (rev patches) of
         None \<Rightarrow> jmap_get (desired_doc p d D) k
       | Some v \<Rightarrow> if v = JNull then None else Some v)"
    using assms(2)
  proof (induction patches rule: rev_induct)
    case (snoc x patches)
    obtain p' d' patch now where x: "x = (p', d', patch, now)" by (cases x)
    with snoc show ?case
      by (auto simp: desired_doc_upsert merge_desired_get wf_merge_desired split: option.split)
  qed (simp add: assms(1))
  then show ?thesis by blast
qed

theorem desired_last_patch_wins_witness:
  "jmap_get (desired_doc ''p'' ''d'' (foldl (\<lambda>D (p', d', patch, now).
      snd (upsert_property_desired_sql p' d' patch now D)) empty_db
      [(''p'', ''d'', [(''mode'', JString ''eco'')], 1), (''p'', ''e'', [(''mode'', JNull)], 2)])) ''mode'' =
    Some (JString ''eco'')"
  by (subst desired_last_patch_wins) (simp_all add: desired_doc_def empty_db_def wf_jmap_def)

end
