(* ===== verification/Telemetry.thy ===== *)
theory Telemetry
  imports Hoare "HOL-Library.Product_Lexorder"
begin

text \<open>
  Histories, charts and connection status of devices: the remaining statements of
  \<open>backend/src/db/database.rs\<close> and the device registry \<open>backend/src/db/device.rs\<close>. The conversion
  \<open>OffsetDateTime::from_unix_timestamp\<close> of the \<open>time\<close> crate is a parameter.
\<close>

section \<open>Histories\<close>

definition insert_event_history_sql ::
  "string \<Rightarrow> string \<Rightarrow> json \<Rightarrow> instant \<Rightarrow> instant \<Rightarrow> database \<Rightarrow> unit \<times> database" where
  "insert_event_history_sql product_id device_id events timestamp now d =
     (let i = next_event_history_id d;
          row = \<lparr>eh_id = i, eh_product_id = product_id, eh_device_id = device_id, eh_events = events,
                 eh_reported_time = Some timestamp, eh_created_time = now\<rparr>
      in ((), d\<lparr>event_histories := event_histories d @ [row], next_event_history_id := i + 1\<rparr>))"

definition insert_event_history ::
  "string \<Rightarrow> string \<Rightarrow> json \<Rightarrow> instant \<Rightarrow> ('s, io_error, unit) io" where
  "insert_event_history product_id device_id events timestamp =
     db_exec (insert_event_history_sql product_id device_id events timestamp)"

definition query_property_latest ::
  "string \<Rightarrow> string option \<Rightarrow> int \<Rightarrow> int \<Rightarrow> ('s, io_error, property_latest list) io" where
  "query_property_latest product_id device_id page page_size =
     query_page (\<lambda>d. sort_key (\<lambda>r. - pl_updated_time r)
       (filter (\<lambda>r. pl_product_id r = product_id \<and> opt_eq device_id (pl_device_id r)) (property_latests d)))
       page page_size"

definition query_property_history ::
  "string \<Rightarrow> string option \<Rightarrow> int \<Rightarrow> int \<Rightarrow> ('s, io_error, property_history list) io" where
  "query_property_history product_id device_id page page_size =
     query_page (\<lambda>d. sort_key (\<lambda>r. - ph_created_time r)
       (filter (\<lambda>r. ph_product_id r = product_id \<and> opt_eq device_id (ph_device_id r)) (property_histories d)))
       page page_size"

definition query_event_history ::
  "string \<Rightarrow> string option \<Rightarrow> int \<Rightarrow> int \<Rightarrow> ('s, io_error, event_history list) io" where
  "query_event_history product_id device_id page page_size =
     query_page (\<lambda>d. sort_key (\<lambda>r. - eh_created_time r)
       (filter (\<lambda>r. eh_product_id r = product_id \<and> opt_eq device_id (eh_device_id r)) (event_histories d)))
       page page_size"

section \<open>Charts\<close>

text \<open>\<open>EFFECTIVE_TIME_EXPR\<close> and \<open>jsonb_typeof\<close>.\<close>

definition effective_time :: "property_history \<Rightarrow> instant" where
  "effective_time r = (case ph_reported_time r of Some t \<Rightarrow> t | None \<Rightarrow> ph_created_time r)"

definition is_json_number :: "json \<Rightarrow> bool" where
  "is_json_number v \<longleftrightarrow> (case v of JNumber _ \<Rightarrow> True | _ \<Rightarrow> False)"

definition push_series_filter ::
  "string \<Rightarrow> string \<Rightarrow> string \<Rightarrow> instant \<Rightarrow> instant \<Rightarrow> property_history \<Rightarrow> bool" where
  "push_series_filter product_id device_id key start fin r \<longleftrightarrow>
     ph_product_id r = product_id \<and> ph_device_id r = device_id \<and>
     start \<le> effective_time r \<and> effective_time r \<le> fin \<and>
     (case json_get (ph_properties r) key of Some v \<Rightarrow> is_json_number v | None \<Rightarrow> False)"

record property_chart_key =
  ck_key :: string
  ck_sample_count :: int

record property_series_point =
  sp_time :: instant
  sp_value :: json

text \<open>\<open>jsonb_each\<close> over the rows of the window, grouped by key; a group is kept when all its
  values are numbers.\<close>

definition chart_samples :: "string \<Rightarrow> string \<Rightarrow> instant \<Rightarrow> database \<Rightarrow> (string \<times> json) list" where
  "chart_samples product_id device_id since d =
     concat (map (\<lambda>r. case ph_properties r of JObject m \<Rightarrow> m | _ \<Rightarrow> [])
       (filter (\<lambda>r. ph_product_id r = product_id \<and> ph_device_id r = device_id \<and> since \<le> effective_time r)
         (property_histories d)))"

definition query_property_chart_keys ::
  "string \<Rightarrow> string \<Rightarrow> int \<Rightarrow> ('s, io_error, property_chart_key list) io" where
  "query_property_chart_keys product_id device_id lookback_days =
     db_query (\<lambda>now d.
       let samples = chart_samples product_id device_id (now - lookback_days * 86400 * ns_per_sec) d;
           group = (\<lambda>k. filter (\<lambda>(k', v). k' = k) samples);
           keys = filter (\<lambda>k. list_all (\<lambda>(_, v). is_json_number v) (group k)) (remdups (map fst samples))
       in sort_key (\<lambda>c. - ck_sample_count c)
            (map (\<lambda>k. \<lparr>ck_key = k, ck_sample_count = int (length (group k))\<rparr>) keys))"

definition count_property_series_points ::
  "string \<Rightarrow> string \<Rightarrow> string \<Rightarrow> instant \<Rightarrow> instant \<Rightarrow> ('s, io_error, int) io" where
  "count_property_series_points product_id device_id key start fin =
     query_count (\<lambda>d. filter (push_series_filter product_id device_id key start fin) (property_histories d))"

text \<open>Every \<open>stride\<close>-th row of the list, from the first; SQL's \<open>%\<close> by zero is an error.\<close>

definition every_nth :: "int \<Rightarrow> 'r list \<Rightarrow> 'r list" where
  "every_nth stride rows = map snd (filter (\<lambda>(i, _). int i mod stride = 0) (enumerate 0 rows))"

definition series_points ::
  "string \<Rightarrow> string \<Rightarrow> string \<Rightarrow> instant \<Rightarrow> instant \<Rightarrow> int \<Rightarrow> int \<Rightarrow> database \<Rightarrow> property_series_point list option" where
  "series_points product_id device_id key start fin stride limit d =
     (let matched = filter (push_series_filter product_id device_id key start fin) (property_histories d);
          numbered = sort_key (\<lambda>r. (effective_time r, ph_id r)) matched
      in if limit < 0 \<or> (stride = 0 \<and> matched \<noteq> []) then None
         else Some (take (nat limit)
           (map (\<lambda>r. \<lparr>sp_time = effective_time r,
                      sp_value = (case json_get (ph_properties r) key of Some v \<Rightarrow> v | None \<Rightarrow> JNull)\<rparr>)
             (every_nth stride numbered))))"

definition query_property_series_points ::
  "string \<Rightarrow> string \<Rightarrow> string \<Rightarrow> instant \<Rightarrow> instant \<Rightarrow> int \<Rightarrow> int \<Rightarrow>
   ('s, io_error, property_series_point list) io" where
  "query_property_series_points product_id device_id key start fin stride limit =
     bindE (db_query (\<lambda>now d. series_points product_id device_id key start fin stride limit d)) (\<lambda>r.
       ok_or CallFailed r)"

section \<open>Connection status\<close>

definition UNIX_TIMESTAMP_MS_THRESHOLD :: int where
  "UNIX_TIMESTAMP_MS_THRESHOLD = 9999999999"

text \<open>Seconds or milliseconds; \<open>None\<close> is the panic of \<open>unwrap\<close>.\<close>

definition timestamp_to_datetime :: "(int \<Rightarrow> instant option) \<Rightarrow> int \<Rightarrow> instant option" where
  "timestamp_to_datetime from_unix_timestamp ts =
     (let seconds = (if ts > UNIX_TIMESTAMP_MS_THRESHOLD then ts div 1000 else ts)
      in from_unix_timestamp seconds)"

record device_connect_request =
  cn_ipaddress :: string
  cn_client_id :: "string option"
  cn_product_id :: string
  cn_device_id :: string
  cn_username :: "string option"
  cn_connected_at :: int

record device_disconnect_request =
  dc_ipaddress :: "string option"
  dc_client_id :: "string option"
  dc_product_id :: string
  dc_device_id :: string
  dc_username :: string
  dc_disconnected_at :: int
  dc_reason :: string

definition status_for :: "string \<Rightarrow> string \<Rightarrow> device_status \<Rightarrow> bool" where
  "status_for p dv r \<longleftrightarrow> ds_product_id r = p \<and> ds_device_id r = dv"

definition connect_sql ::
  "device_connect_request \<Rightarrow> string \<Rightarrow> instant \<Rightarrow> instant \<Rightarrow> instant \<Rightarrow> database \<Rightarrow> unit \<times> database" where
  "connect_sql req ip connected_at now db_now d =
     (let P = status_for (cn_product_id req) (cn_device_id req);
          rows = (if count_where P (device_statuses d) = 0
                  then device_statuses d @
                    [\<lparr>ds_product_id = cn_product_id req, ds_device_id = cn_device_id req, ds_status = Online,
                      ds_ip_address = Some ip, ds_last_online_at = Some connected_at,
                      ds_last_offline_at = None, ds_created_at = now, ds_updated_at = now\<rparr>]
                  else update_where P (\<lambda>r. r\<lparr>ds_status := Online, ds_ip_address := Some ip,
                    ds_last_online_at := Some connected_at, ds_updated_at := now\<rparr>) (device_statuses d));
          i = next_device_status_history_id d;
          row = \<lparr>dh_id = i, dh_product_id = cn_product_id req, dh_device_id = cn_device_id req,
                 dh_status = Online, dh_ip_address = Some (cn_ipaddress req), dh_reason = None,
                 dh_connected_at = Some connected_at, dh_disconnected_at = None, dh_created_at = db_now\<rparr>
      in ((), d\<lparr>device_statuses := rows, device_status_histories := device_status_histories d @ [row],
               next_device_status_history_id := i + 1\<rparr>))"

definition upsert_device_status_connect ::
  "(int \<Rightarrow> instant option) \<Rightarrow> device_connect_request \<Rightarrow> ('s, io_error, unit) io" where
  "upsert_device_status_connect from_unix_timestamp req =
     bindE now_utc (\<lambda>now.
     bindE (ok_or Panicked (timestamp_to_datetime from_unix_timestamp (cn_connected_at req))) (\<lambda>connected_at.
     bindE (ok_or Panicked (map_option fst (rsplit_once CHR '':'' (cn_ipaddress req)))) (\<lambda>ip.
     db_exec (connect_sql req ip connected_at now))))"

definition disconnect_sql ::
  "device_disconnect_request \<Rightarrow> instant \<Rightarrow> instant \<Rightarrow> instant \<Rightarrow> database \<Rightarrow> unit \<times> database" where
  "disconnect_sql req disconnected_at now db_now d =
     (let rows = update_where (status_for (dc_product_id req) (dc_device_id req))
            (\<lambda>r. r\<lparr>ds_status := Offline, ds_last_offline_at := Some disconnected_at, ds_updated_at := now\<rparr>)
            (device_statuses d);
          i = next_device_status_history_id d;
          row = \<lparr>dh_id = i, dh_product_id = dc_product_id req, dh_device_id = dc_device_id req,
                 dh_status = Offline, dh_ip_address = dc_ipaddress req, dh_reason = Some (dc_reason req),
                 dh_connected_at = None, dh_disconnected_at = Some disconnected_at, dh_created_at = db_now\<rparr>
      in ((), d\<lparr>device_statuses := rows, device_status_histories := device_status_histories d @ [row],
               next_device_status_history_id := i + 1\<rparr>))"

definition update_device_status_disconnect ::
  "(int \<Rightarrow> instant option) \<Rightarrow> device_disconnect_request \<Rightarrow> ('s, io_error, unit) io" where
  "update_device_status_disconnect from_unix_timestamp req =
     bindE now_utc (\<lambda>now.
     bindE (ok_or Panicked (timestamp_to_datetime from_unix_timestamp (dc_disconnected_at req))) (\<lambda>disconnected_at.
     db_exec (disconnect_sql req disconnected_at now)))"

record device_status_with_source =
  sw_product_id :: string
  sw_device_id :: string
  sw_status :: "device_connection_status option"
  sw_ip_address :: "string option"
  sw_last_online_at :: "instant option"
  sw_last_offline_at :: "instant option"
  sw_registration_source :: registration_source
  sw_created_at :: instant
  sw_updated_at :: instant

text \<open>\<open>devices d LEFT JOIN device_status ds\<close>: the status row of a device, if it has one.\<close>

definition with_status :: "database \<Rightarrow> device \<Rightarrow> device_status_with_source" where
  "with_status d r =
     (let ds = find (status_for (dv_product_id r) (dv_device_id r)) (device_statuses d)
      in \<lparr>sw_product_id = dv_product_id r, sw_device_id = dv_device_id r,
          sw_status = map_option ds_status ds, sw_ip_address = Option.bind ds ds_ip_address,
          sw_last_online_at = Option.bind ds ds_last_online_at,
          sw_last_offline_at = Option.bind ds ds_last_offline_at,
          sw_registration_source = dv_registration_source r, sw_created_at = dv_created_at r,
          sw_updated_at = (case ds of Some x \<Rightarrow> ds_updated_at x | None \<Rightarrow> dv_updated_at r)\<rparr>)"

definition add_device_status_filter ::
  "string option \<Rightarrow> string option \<Rightarrow> device_connection_status option \<Rightarrow> registration_source option \<Rightarrow>
   device_status_with_source \<Rightarrow> bool" where
  "add_device_status_filter product_id device_id st source r \<longleftrightarrow>
     opt_eq product_id (sw_product_id r) \<and> opt_eq device_id (sw_device_id r) \<and>
     (case st of None \<Rightarrow> True | Some s \<Rightarrow> sw_status r = Some s) \<and> opt_eq source (sw_registration_source r)"

definition device_status_rows ::
  "string option \<Rightarrow> string option \<Rightarrow> device_connection_status option \<Rightarrow> registration_source option \<Rightarrow>
   database \<Rightarrow> device_status_with_source list" where
  "device_status_rows product_id device_id st source d =
     filter (add_device_status_filter product_id device_id st source) (map (with_status d) (devices d))"

definition query_device_status ::
  "string option \<Rightarrow> string option \<Rightarrow> device_connection_status option \<Rightarrow> registration_source option \<Rightarrow>
   int \<Rightarrow> int \<Rightarrow> ('s, io_error, device_status_with_source list \<times> int) io" where
  "query_device_status product_id device_id st source page page_size =
     bindE (query_page (\<lambda>d. sort_key (\<lambda>r. - sw_updated_at r) (device_status_rows product_id device_id st source d))
       page page_size) (\<lambda>rows.
     bindE (if st = None
            then query_count (\<lambda>d. filter (\<lambda>r. opt_eq product_id (dv_product_id r) \<and>
                   opt_eq device_id (dv_device_id r) \<and> opt_eq source (dv_registration_source r)) (devices d))
            else query_count (device_status_rows product_id device_id st source)) (\<lambda>total.
     ret (rows, total)))"

definition query_device_status_history ::
  "string \<Rightarrow> string option \<Rightarrow> int \<Rightarrow> int \<Rightarrow> ('s, io_error, device_status_history list) io" where
  "query_device_status_history product_id device_id page page_size =
     query_page (\<lambda>d. sort_key (\<lambda>r. - dh_created_at r)
       (filter (\<lambda>r. dh_product_id r = product_id \<and> opt_eq device_id (dh_device_id r)) (device_status_histories d)))
       page page_size"

section \<open>The device registry\<close>

definition admission_check :: "string \<Rightarrow> string \<Rightarrow> ('s, io_error, bool \<times> bool option) io" where
  "admission_check product_id device_id =
     db_query (\<lambda>now d.
       (list_ex (\<lambda>r. dv_product_id r = product_id \<and> dv_device_id r = device_id) (devices d),
        map_option pt_auto_provisioning (find (\<lambda>p. pt_model_no p = product_id) (products d))))"

text \<open>\<open>ON CONFLICT DO NOTHING\<close> still draws an id from the sequence.\<close>

definition device_upsert_sql ::
  "string \<Rightarrow> string \<Rightarrow> registration_source \<Rightarrow> instant \<Rightarrow> database \<Rightarrow> unit \<times> database" where
  "device_upsert_sql product_id device_id source now d =
     (let i = next_device_id d;
          row = \<lparr>dv_id = i, dv_product_id = product_id, dv_device_id = device_id,
                 dv_registration_source = source, dv_created_at = now, dv_updated_at = now\<rparr>
      in ((), d\<lparr>devices := (if list_ex (\<lambda>r. dv_product_id r = product_id \<and> dv_device_id r = device_id) (devices d)
                           then devices d else devices d @ [row]),
               next_device_id := i + 1\<rparr>))"

definition device_upsert :: "string \<Rightarrow> string \<Rightarrow> registration_source \<Rightarrow> ('s, io_error, unit) io" where
  "device_upsert product_id device_id source = db_exec (device_upsert_sql product_id device_id source)"

section \<open>Lemmas\<close>

lemma query_device_status_total:
  "length (device_status_rows p dv None src d) =
     length (filter (\<lambda>r. opt_eq p (dv_product_id r) \<and> opt_eq dv (dv_device_id r) \<and>
       opt_eq src (dv_registration_source r)) (devices d))"
  by (simp add: device_status_rows_def filter_map_swap add_device_status_filter_def with_status_def Let_def)

text \<open>What a device's status row says after a connect or a disconnect.\<close>

definition device_state :: "string \<Rightarrow> string \<Rightarrow> database \<Rightarrow> device_status option" where
  "device_state p dv d = find (status_for p dv) (device_statuses d)"

lemma connect_own:
  "device_state (cn_product_id req) (cn_device_id req) (snd (connect_sql req ip since now t d)) =
     Some (case device_state (cn_product_id req) (cn_device_id req) d of
       None \<Rightarrow> \<lparr>ds_product_id = cn_product_id req, ds_device_id = cn_device_id req, ds_status = Online,
         ds_ip_address = Some ip, ds_last_online_at = Some since, ds_last_offline_at = None,
         ds_created_at = now, ds_updated_at = now\<rparr>
     | Some r \<Rightarrow> r\<lparr>ds_status := Online, ds_ip_address := Some ip, ds_last_online_at := Some since,
         ds_updated_at := now\<rparr>)"
proof (cases "device_state (cn_product_id req) (cn_device_id req) d")
  case None
  then have "count_where (status_for (cn_product_id req) (cn_device_id req)) (device_statuses d) = 0"
    by (simp add: device_state_def count_where_find)
  with None show ?thesis
    by (simp add: connect_sql_def Let_def device_state_def find_append_new status_for_def)
next
  case (Some r)
  then have "count_where (status_for (cn_product_id req) (cn_device_id req)) (device_statuses d) \<noteq> 0"
    by (simp add: device_state_def count_where_find)
  with Some show ?thesis
    by (simp add: connect_sql_def Let_def device_state_def find_update_where_same status_for_def)
qed

lemma disconnect_own:
  "device_state (dc_product_id req) (dc_device_id req) (snd (disconnect_sql req since now t d)) =
     map_option (\<lambda>r. r\<lparr>ds_status := Offline, ds_last_offline_at := Some since, ds_updated_at := now\<rparr>)
       (device_state (dc_product_id req) (dc_device_id req) d)"
  by (cases "device_state (dc_product_id req) (dc_device_id req) d")
    (simp_all add: disconnect_sql_def Let_def device_state_def find_update_where_same status_for_def
      update_where_none count_where_find)

lemma connect_other:
  "(p, dv) \<noteq> (cn_product_id req, cn_device_id req) \<Longrightarrow>
   device_state p dv (snd (connect_sql req ip since now t d)) = device_state p dv d"
  unfolding connect_sql_def Let_def device_state_def
  by (auto simp: find_append_other status_for_def intro!: find_update_where_other)

lemma disconnect_other:
  "(p, dv) \<noteq> (dc_product_id req, dc_device_id req) \<Longrightarrow>
   device_state p dv (snd (disconnect_sql req since now t d)) = device_state p dv d"
  unfolding disconnect_sql_def Let_def device_state_def
  by (auto simp: status_for_def intro!: find_update_where_other)

text \<open>
  The status row of a device follows its last connection event: after a connect it is online with
  the address and time of the request, after a disconnect a known device is offline since the
  given time and its last online time is kept, a disconnect of an unknown device creates no row,
  the rows of all other devices are untouched, and every event is appended to the history.
\<close>

theorem status_follows_last_event:
  assumes "d1 = snd (connect_sql req ip since now t d)" and "d2 = snd (disconnect_sql rq since now t d)"
  shows "map_option (\<lambda>r. (ds_status r, ds_ip_address r, ds_last_online_at r))
       (device_state (cn_product_id req) (cn_device_id req) d1) = Some (Online, Some ip, Some since) \<and>
     map_option (\<lambda>r. (ds_status r, ds_last_offline_at r, ds_last_online_at r))
       (device_state (dc_product_id rq) (dc_device_id rq) d2) =
       map_option (\<lambda>r. (Offline, Some since, ds_last_online_at r))
         (device_state (dc_product_id rq) (dc_device_id rq) d) \<and>
     (\<forall>p dv. (p, dv) \<noteq> (cn_product_id req, cn_device_id req) \<longrightarrow> device_state p dv d1 = device_state p dv d) \<and>
     (\<forall>p dv. (p, dv) \<noteq> (dc_product_id rq, dc_device_id rq) \<longrightarrow> device_state p dv d2 = device_state p dv d) \<and>
     map dh_status (device_status_histories d1) = map dh_status (device_status_histories d) @ [Online] \<and>
     map dh_status (device_status_histories d2) = map dh_status (device_status_histories d) @ [Offline]"
proof -
  have "map dh_status (device_status_histories (snd (connect_sql req ip since now t d))) =
      map dh_status (device_status_histories d) @ [Online]"
    "map dh_status (device_status_histories (snd (disconnect_sql rq since now t d))) =
      map dh_status (device_status_histories d) @ [Offline]"
    by (simp_all add: connect_sql_def disconnect_sql_def Let_def)
  moreover have "map_option (\<lambda>r. (ds_status r, ds_ip_address r, ds_last_online_at r))
       (device_state (cn_product_id req) (cn_device_id req) d1) = Some (Online, Some ip, Some since)"
    unfolding assms(1) connect_own by (simp split: option.split)
  moreover have "map_option (\<lambda>r. (ds_status r, ds_last_offline_at r, ds_last_online_at r))
       (device_state (dc_product_id rq) (dc_device_id rq) d2) =
       map_option (\<lambda>r. (Offline, Some since, ds_last_online_at r))
         (device_state (dc_product_id rq) (dc_device_id rq) d)"
    unfolding assms(2) disconnect_own by (simp add: option.map_comp comp_def)
  ultimately show ?thesis unfolding assms using connect_other disconnect_other by blast
qed

theorem status_follows_last_event_witness:
  "device_state ''p'' ''other'' (snd (connect_sql
     \<lparr>cn_ipaddress = ''1.2.3.4:5'', cn_client_id = None, cn_product_id = ''p'', cn_device_id = ''d'',
      cn_username = None, cn_connected_at = 7\<rparr> ''1.2.3.4'' 7 8 9 empty_db)) = device_state ''p'' ''other'' empty_db"
  using status_follows_last_event [OF refl refl, where d = empty_db and since = 7 and now = 8 and t = 9 and
    ip = "''1.2.3.4''" and req = "\<lparr>cn_ipaddress = ''1.2.3.4:5'', cn_client_id = None, cn_product_id = ''p'',
      cn_device_id = ''d'', cn_username = None, cn_connected_at = 7\<rparr>"] by auto

end
