(* ===== verification/Templates.thy ===== *)
theory Templates
  imports Hoare
begin

text \<open>
  Validation templates: the table \<open>event_valid_template\<close> of \<open>backend/src/db/database.rs\<close>. A
  transaction that starts by locking the row it is about is one atomic statement. The partial
  unique index of the migration (one active template per product and event) is not assumed: the
  statements keep it.
\<close>

definition ACTIVE_TEMPLATE_SCHEMA_ERR :: string where
  "ACTIVE_TEMPLATE_SCHEMA_ERR = ''Cannot update schema of active template''"

definition template_rows :: "string option \<Rightarrow> string option \<Rightarrow> database \<Rightarrow> event_valid_template list" where
  "template_rows product_id event d =
     filter (\<lambda>t. opt_eq product_id (vt_product_id t) \<and> opt_eq event (vt_event t)) (event_valid_templates d)"

definition query_event_valid_templates ::
  "string option \<Rightarrow> string option \<Rightarrow> int \<Rightarrow> int \<Rightarrow> ('s, io_error, event_valid_template list \<times> int) io" where
  "query_event_valid_templates product_id event page page_size =
     bindE (query_page (\<lambda>d. sort_key (\<lambda>t. - vt_updated_at t) (template_rows product_id event d)) page page_size) (\<lambda>templates.
     bindE (query_count (template_rows product_id event)) (\<lambda>total. ret (templates, total)))"

definition template_by_id :: "int \<Rightarrow> database \<Rightarrow> event_valid_template option" where
  "template_by_id i d = find (\<lambda>t. vt_id t = i) (event_valid_templates d)"

definition get_event_valid_template_by_id :: "int \<Rightarrow> ('s, io_error, event_valid_template option) io" where
  "get_event_valid_template_by_id i = db_query (\<lambda>now d. template_by_id i d)"

definition delete_event_valid_template_sql :: "int \<Rightarrow> instant \<Rightarrow> database \<Rightarrow> nat \<times> database" where
  "delete_event_valid_template_sql i now d =
     (count_where (\<lambda>t. vt_id t = i) (event_valid_templates d),
      d\<lparr>event_valid_templates := filter (\<lambda>t. vt_id t \<noteq> i) (event_valid_templates d)\<rparr>)"

definition delete_event_valid_template :: "int \<Rightarrow> ('s, io_error, nat) io" where
  "delete_event_valid_template i = db_exec (delete_event_valid_template_sql i)"

definition insert_event_valid_template_sql ::
  "string \<Rightarrow> string \<Rightarrow> string option \<Rightarrow> json \<Rightarrow> instant \<Rightarrow> database \<Rightarrow> int \<times> database" where
  "insert_event_valid_template_sql product_id event description schema now d =
     (let i = next_template_id d;
          row = \<lparr>vt_id = i, vt_product_id = product_id, vt_event = event, vt_description = description,
                 vt_schema = schema, vt_status = Draft, vt_created_at = now, vt_updated_at = now\<rparr>
      in (i, d\<lparr>event_valid_templates := event_valid_templates d @ [row], next_template_id := i + 1\<rparr>))"

definition insert_event_valid_template ::
  "string \<Rightarrow> string \<Rightarrow> string option \<Rightarrow> json \<Rightarrow> ('s, io_error, int) io" where
  "insert_event_valid_template product_id event description schema =
     db_exec (insert_event_valid_template_sql product_id event description schema)"

definition update_event_valid_template_status_sql ::
  "int \<Rightarrow> template_status \<Rightarrow> instant \<Rightarrow> database \<Rightarrow> nat \<times> database" where
  "update_event_valid_template_status_sql i st now d =
     (case template_by_id i d of
        None \<Rightarrow> (0, d)
      | Some template \<Rightarrow>
          let rows1 = (if st = Active
                       then update_where (\<lambda>t. vt_product_id t = vt_product_id template \<and> vt_status t = Active \<and>
                              vt_id t \<noteq> i \<and> vt_event t = vt_event template)
                              (\<lambda>t. t\<lparr>vt_status := Inactive\<rparr>) (event_valid_templates d)
                       else event_valid_templates d);
              rows2 = update_where (\<lambda>t. vt_id t = i) (\<lambda>t. t\<lparr>vt_status := st\<rparr>) rows1
          in (count_where (\<lambda>t. vt_id t = i) rows1, d\<lparr>event_valid_templates := rows2\<rparr>))"

definition update_event_valid_template_status :: "int \<Rightarrow> template_status \<Rightarrow> ('s, io_error, nat) io" where
  "update_event_valid_template_status i st = db_exec (update_event_valid_template_status_sql i st)"

text \<open>The columns of the \<open>SET\<close> clause the builder pushes.\<close>

definition edit_template :: "json option \<Rightarrow> string option \<Rightarrow> event_valid_template \<Rightarrow> event_valid_template" where
  "edit_template schema description t =
     t\<lparr>vt_schema := (case schema of Some s \<Rightarrow> s | None \<Rightarrow> vt_schema t),
       vt_description := (case description of Some s \<Rightarrow> Some s | None \<Rightarrow> vt_description t)\<rparr>"

definition update_event_valid_template_sql ::
  "int \<Rightarrow> json option \<Rightarrow> string option \<Rightarrow> instant \<Rightarrow> database \<Rightarrow> (io_error + nat) \<times> database" where
  "update_event_valid_template_sql i schema description now d =
     (case template_by_id i d of
        None \<Rightarrow> (Inr 0, d)
      | Some template \<Rightarrow>
          if schema = None \<and> description = None then (Inr 0, d)
          else if schema \<noteq> None \<and> vt_status template = Active then (Inl (Bail ACTIVE_TEMPLATE_SCHEMA_ERR), d)
          else (Inr (count_where (\<lambda>t. vt_id t = i) (event_valid_templates d)),
                d\<lparr>event_valid_templates :=
                     update_where (\<lambda>t. vt_id t = i) (edit_template schema description) (event_valid_templates d)\<rparr>))"

definition update_event_valid_template ::
  "int \<Rightarrow> json option \<Rightarrow> string option \<Rightarrow> ('s, io_error, nat) io" where
  "update_event_valid_template i schema description =
     bindE (db_exec (update_event_valid_template_sql i schema description)) lift_res"

definition active_template :: "string \<Rightarrow> string \<Rightarrow> database \<Rightarrow> event_valid_template option" where
  "active_template product_id event d =
     find (\<lambda>t. vt_product_id t = product_id \<and> vt_event t = event \<and> vt_status t = Active) (event_valid_templates d)"

definition get_property_schema :: "string \<Rightarrow> ('s, io_error, event_valid_template option) io" where
  "get_property_schema product_id = db_query (\<lambda>now d. active_template product_id ''property'' d)"

definition get_event_valid_template ::
  "string \<Rightarrow> string \<Rightarrow> ('s, io_error, event_valid_template option) io" where
  "get_event_valid_template product_id event = db_query (\<lambda>now d. active_template product_id event d)"

section \<open>One active template per product and event\<close>

inductive template_step :: "database \<Rightarrow> database \<Rightarrow> bool" where
  ts_insert: "template_step d (snd (insert_event_valid_template_sql p e ds s now d))"
| ts_delete: "template_step d (snd (delete_event_valid_template_sql i now d))"
| ts_status: "template_step d (snd (update_event_valid_template_status_sql i st now d))"
| ts_update: "template_step d (snd (update_event_valid_template_sql i s ds now d))"

definition rivals :: "event_valid_template \<Rightarrow> event_valid_template \<Rightarrow> bool" where
  "rivals t u \<longleftrightarrow> vt_status t = Active \<and> vt_status u = Active \<and>
     vt_product_id t = vt_product_id u \<and> vt_event t = vt_event u"

definition one_active :: "event_valid_template list \<Rightarrow> bool" where
  "one_active ts \<longleftrightarrow> (\<forall>t\<in>set ts. \<forall>u\<in>set ts. rivals t u \<longrightarrow> vt_id t = vt_id u)"

definition wf_templates :: "database \<Rightarrow> bool" where
  "wf_templates d \<longleftrightarrow>
     (\<forall>t\<in>set (event_valid_templates d). vt_id t < next_template_id d) \<and>
     distinct (map vt_id (event_valid_templates d)) \<and> one_active (event_valid_templates d)"

lemma template_by_id_Some:
  "template_by_id i d = Some t \<Longrightarrow> t \<in> set (event_valid_templates d) \<and> vt_id t = i"
  unfolding template_by_id_def by (auto simp: find_Some_iff)

lemma one_activeD:
  "one_active ts \<Longrightarrow> t \<in> set ts \<Longrightarrow> u \<in> set ts \<Longrightarrow> rivals t u \<Longrightarrow> vt_id t = vt_id u"
  by (simp add: one_active_def)

lemma wf_templates_update:
  assumes "wf_templates d" and id: "\<And>t. vt_id (f t) = vt_id t"
    and riv: "\<And>t u. t \<in> set (event_valid_templates d) \<Longrightarrow> u \<in> set (event_valid_templates d) \<Longrightarrow>
      rivals (f t) (f u) \<Longrightarrow> vt_id t = vt_id u"
  shows "wf_templates (d\<lparr>event_valid_templates := map f (event_valid_templates d)\<rparr>)"
proof -
  have "one_active (map f (event_valid_templates d))"
    unfolding one_active_def set_map ball_simps id by (blast intro: riv)
  with assms(1) show ?thesis by (simp add: wf_templates_def comp_def id)
qed

lemma wf_templates_unique:
  "wf_templates d \<Longrightarrow> t \<in> set (event_valid_templates d) \<Longrightarrow> u \<in> set (event_valid_templates d) \<Longrightarrow>
   vt_id t = vt_id u \<Longrightarrow> t = u"
  unfolding wf_templates_def by (meson distinct_map inj_onD)

lemma template_step_wf:
  assumes "template_step d d'" "wf_templates d"
  shows "wf_templates d'"
  using assms(1)
proof cases
  case ts_insert
  moreover have "one_active (ts @ [r])" if "one_active ts" "vt_status r = Draft" for ts r
  proof -
    have "\<not> rivals t r" "\<not> rivals r t" for t using that(2) by (simp_all add: rivals_def)
    with that(1) show ?thesis unfolding one_active_def by auto
  qed
  ultimately show ?thesis using assms(2)
    by (auto simp: wf_templates_def insert_event_valid_template_sql_def Let_def)
next
  case ts_delete
  with assms(2) show ?thesis
    by (auto simp: wf_templates_def one_active_def delete_event_valid_template_sql_def distinct_map_filter)
next
  case (ts_status i st now)
  show ?thesis
  proof (cases "template_by_id i d")
    case None
    with ts_status assms(2) show ?thesis by (simp add: update_event_valid_template_status_sql_def)
  next
    case (Some c)
    note c = template_by_id_Some [OF Some]
    define f where "f = (\<lambda>t :: event_valid_template. if vt_id t = i then t\<lparr>vt_status := st\<rparr>
       else if st = Active \<and> vt_product_id t = vt_product_id c \<and> vt_status t = Active \<and> vt_event t = vt_event c
       then t\<lparr>vt_status := Inactive\<rparr> else t)"
    have "d' = d\<lparr>event_valid_templates := map f (event_valid_templates d)\<rparr>"
      using ts_status Some by (auto simp: update_event_valid_template_status_sql_def update_where_def Let_def f_def)
    moreover have "wf_templates (d\<lparr>event_valid_templates := map f (event_valid_templates d)\<rparr>)"
    proof (rule wf_templates_update [OF assms(2)])
      fix t u assume tu: "t \<in> set (event_valid_templates d)" "u \<in> set (event_valid_templates d)" "rivals (f t) (f u)"
      have fixed: "vt_product_id (f x) = vt_product_id x \<and> vt_event (f x) = vt_event x" for x
        by (simp add: f_def)
      have stays: "vt_status x = Active" if "vt_status (f x) = Active" "vt_id x \<noteq> i" for x
        using that by (simp add: f_def split: if_splits)
      have only: "x = c" if "vt_id x = i" "x \<in> set (event_valid_templates d)" for x
        using that c wf_templates_unique [OF assms(2)] by blast
      have wins: "\<not> rivals (f x) (f c)" if "vt_id x \<noteq> i" for x
        using that c by (auto simp: f_def rivals_def split: if_splits)
      consider "vt_id t = i" "vt_id u = i" | "vt_id t \<noteq> i" "vt_id u \<noteq> i" | "vt_id t = i" "vt_id u \<noteq> i"
        | "vt_id t \<noteq> i" "vt_id u = i" by blast
      then show "vt_id t = vt_id u"
      proof cases
        case 2
        then have "rivals t u" using tu(3) stays fixed by (simp add: rivals_def)
        with tu assms(2) show ?thesis unfolding wf_templates_def by (blast dest: one_activeD)
      next
        case 3
        with only tu(1) have "t = c" by blast
        moreover have "rivals (f u) (f t)" using tu(3) by (auto simp: rivals_def)
        ultimately show ?thesis using wins [OF 3(2)] by simp
      next
        case 4
        with only tu(2) have "u = c" by blast
        with tu(3) wins [OF 4(1)] show ?thesis by simp
      qed simp
    qed (simp add: f_def)
    ultimately show ?thesis by simp
  qed
next
  case (ts_update i s ds now)
  let ?f = "edit_template s ds"
  let ?d' = "d\<lparr>event_valid_templates := update_where (\<lambda>t. vt_id t = i) ?f (event_valid_templates d)\<rparr>"
  have f: "vt_id (?f t) = vt_id t \<and> vt_product_id (?f t) = vt_product_id t \<and> vt_event (?f t) = vt_event t \<and>
      vt_status (?f t) = vt_status t" for t by (simp add: edit_template_def)
  have "wf_templates ?d'" unfolding update_where_def
  proof (rule wf_templates_update [OF assms(2)])
    fix t u assume tu: "t \<in> set (event_valid_templates d)" "u \<in> set (event_valid_templates d)"
      "rivals (if vt_id t = i then ?f t else t) (if vt_id u = i then ?f u else u)"
    then have "rivals t u" using f by (simp add: rivals_def split: if_splits)
    with tu assms(2) show "vt_id t = vt_id u" unfolding wf_templates_def by (blast dest: one_activeD)
  qed (simp add: f)
  with assms(2) show ?thesis
    unfolding ts_update update_event_valid_template_sql_def by (cases "template_by_id i d") simp_all
qed

lemma steps_templates [steps_intros]:
  "steps_by template_step (insert_event_valid_template p e ds s)"
  "steps_by template_step (delete_event_valid_template i)"
  "steps_by template_step (update_event_valid_template_status i st)"
  "steps_by template_step (update_event_valid_template i sc ds)"
  unfolding insert_event_valid_template_def delete_event_valid_template_def
    update_event_valid_template_status_def update_event_valid_template_def
  by (intro steps_intros steps_db_exec r_into_rtranclp, rule ts_insert ts_delete ts_status ts_update)+

text \<open>
  C27: under any sequence of inserts, deletions, status changes and schema updates, a product has at
  most one active template per event, ids stay unique, and activating a template makes it the one
  that \<open>get_event_valid_template\<close> (or \<open>get_property_schema\<close>, for the event \<open>property\<close>) returns.
\<close>

theorem one_active_template:
  assumes "template_step\<^sup>*\<^sup>* empty_db d"
  shows "wf_templates d \<and>
    (\<forall>i t now. template_by_id i d = Some t \<longrightarrow>
      active_template (vt_product_id t) (vt_event t)
        (snd (update_event_valid_template_status_sql i Active now d)) = Some (t\<lparr>vt_status := Active\<rparr>))"
proof -
  have wf: "wf_templates d"
    using assms
  proof (induction rule: rtranclp_induct)
    case base
    show ?case by (simp add: wf_templates_def one_active_def empty_db_def)
  qed (blast intro: template_step_wf)
  moreover have "active_template (vt_product_id t) (vt_event t)
        (snd (update_event_valid_template_status_sql i Active now d)) = Some (t\<lparr>vt_status := Active\<rparr>)"
    if t: "template_by_id i d = Some t" for i t now
  proof -
    let ?d' = "snd (update_event_valid_template_status_sql i Active now d)"
    let ?t' = "t\<lparr>vt_status := Active\<rparr>"
    have wf': "wf_templates ?d'" using wf ts_status by (rule template_step_wf [rotated])
    have "?t' \<in> set (event_valid_templates ?d')"
      using t template_by_id_Some [OF t]
      by (auto simp: update_event_valid_template_status_sql_def Let_def set_update_where image_image intro!: image_eqI [of _ _ t])
    moreover from this have "active_template (vt_product_id t) (vt_event t) ?d' \<noteq> None"
      unfolding active_template_def find_None_iff by (auto intro!: exI [of _ ?t'])
    then obtain u where u: "active_template (vt_product_id t) (vt_event t) ?d' = Some u" by blast
    moreover from u have "u \<in> set (event_valid_templates ?d')" "rivals u ?t'"
      by (auto simp: active_template_def find_Some_iff rivals_def)
    ultimately have "u = ?t'"
      using wf' wf_templates_unique one_activeD unfolding wf_templates_def by blast
    with u show ?thesis by simp
  qed
  ultimately show ?thesis by blast
qed

theorem one_active_template_witness:
  "wf_templates (snd (update_event_valid_template_status_sql 1 Active 3
     (snd (insert_event_valid_template_sql ''p'' ''property'' None JNull 2 empty_db))))"
proof -
  have "template_step\<^sup>*\<^sup>* empty_db (snd (update_event_valid_template_status_sql 1 Active 3
     (snd (insert_event_valid_template_sql ''p'' ''property'' None JNull 2 empty_db))))"
    by (rule rtranclp.rtrancl_into_rtrancl, rule r_into_rtranclp, rule ts_insert, rule ts_status)
  from one_active_template [OF this] show ?thesis by blast
qed

end
