(* ===== verification/Device_Api.thy ===== *)
theory Device_Api
  imports Commands Shadow Telemetry Templates Rule_Engine
begin

text \<open>
  \<open>backend/src/api/handlers.rs\<close> (and \<open>backend/src/cache.rs\<close>, in-memory variant): the webhooks the
  broker calls for device traffic. Code outside the repository is the record \<open>libs\<close>: base64 and UTF-8
  decoding, serde, JSON schema validation, the \<open>time\<close> crate, the S3 client and UUIDs. Work the
  handlers spawn is recorded in \<open>spawned\<close>; \<open>run_task\<close> runs it.
\<close>

record rmqtt_publish_message =
  pm_dup :: bool
  pm_client_id :: string
  pm_ip_address :: string
  pm_from_type :: string
  pm_username :: string
  pm_packet_id :: int
  pm_payload :: string
  pm_qos :: nat
  pm_retain :: bool
  pm_time :: string
  pm_topic :: string
  pm_ts :: int

record rmqtt_subscribe_message =
  sm_client_id :: string
  sm_topic :: "string option"
  sm_username :: "string option"

record file_upload_request =
  fu_file_name :: string
  fu_directory :: string
  fu_use_origin_name :: bool
  fu_file_type :: "string option"

record libs =
  base64_decode :: "string \<Rightarrow> string option"
  from_utf8 :: "string \<Rightarrow> string option"
  parse_payload :: "string \<Rightarrow> mqtt_payload option"
  parse_response :: "string \<Rightarrow> mqtt_response option"
  ser_payload :: "mqtt_payload \<Rightarrow> string option"
  ser_response :: "mqtt_response \<Rightarrow> string option"
  validator_new :: "json \<Rightarrow> (json \<Rightarrow> bool) option"
  rfc3339 :: "instant \<Rightarrow> string option"
  from_unix_timestamp :: "int \<Rightarrow> instant option"
  parse_file_upload :: "json \<Rightarrow> file_upload_request option"
  presigned_post :: "string \<Rightarrow> json option"
  uuid_at :: "nat \<Rightarrow> string"

text \<open>The parts of the configuration the handlers read; \<open>app_directories\<close> is \<open>None\<close> without S3.\<close>

record app_config =
  app_mqtt :: mqtt_config
  app_schema_validator :: bool
  app_directories :: "string list option"

definition decode_payload :: "libs \<Rightarrow> rmqtt_publish_message \<Rightarrow> string option" where
  "decode_payload L msg = base64_decode L (pm_payload msg)"

definition decode_payload_as_json :: "libs \<Rightarrow> rmqtt_publish_message \<Rightarrow> mqtt_payload option" where
  "decode_payload_as_json L msg =
     Option.bind (decode_payload L msg) (\<lambda>bytes. Option.bind (from_utf8 L bytes) (parse_payload L))"

section \<open>Schema cache\<close>

definition schema_get :: "string \<Rightarrow> ('s, io_error, json option) io" where
  "schema_get key env w = (Inr (schema_cache w key), w)"

definition schema_set :: "string \<Rightarrow> json \<Rightarrow> ('s, io_error, unit) io" where
  "schema_set key schema env w = (Inr (), w\<lparr>schema_cache := (schema_cache w)(key \<mapsto> schema)\<rparr>)"

definition schema_remove :: "string \<Rightarrow> ('s, io_error, unit) io" where
  "schema_remove key env w = (Inr (), w\<lparr>schema_cache := (schema_cache w)(key := None)\<rparr>)"

definition compile_schema :: "libs \<Rightarrow> json \<Rightarrow> io_error + (json \<Rightarrow> bool)" where
  "compile_schema L schema =
     (case validator_new L schema of
        None \<Rightarrow> Inl (Bail ''Failed to compile schema'')
      | Some validator \<Rightarrow> Inr validator)"

text \<open>The part of \<open>property_post\<close> that finds the validator of a product.\<close>

definition load_property_validator :: "libs \<Rightarrow> string \<Rightarrow> ('s, api_error, (json \<Rightarrow> bool) option) io" where
  "load_property_validator L product_id =
     bindE (map_err (\<lambda>_. internal ''Cache error'') (schema_get product_id)) (\<lambda>schema_value.
     case schema_value of
       Some schema \<Rightarrow>
         bindE (map_err (\<lambda>_. internal ''Schema compilation failed'') (lift_res (compile_schema L schema))) (\<lambda>v.
         ret (Some v))
     | None \<Rightarrow>
         bindE (map_err map_db_err (get_property_schema product_id)) (\<lambda>template.
         case template of
           Some schema_template \<Rightarrow>
             bindE (map_err (\<lambda>_. internal ''Schema compilation failed'')
               (lift_res (compile_schema L (vt_schema schema_template)))) (\<lambda>v.
             bindE (spawn (CacheSchema product_id (vt_schema schema_template))) (\<lambda>_. ret (Some v)))
         | None \<Rightarrow> ret None))"

definition load_event_validator ::
  "libs \<Rightarrow> string \<Rightarrow> string \<Rightarrow> ('s, api_error, (json \<Rightarrow> bool) option) io" where
  "load_event_validator L product_id event_identifier =
     (let cache_key = ''event:'' @ product_id @ '':'' @ event_identifier
      in bindE (map_err (\<lambda>_. internal ''Cache error'') (schema_get cache_key)) (\<lambda>cached.
         case cached of
           Some schema \<Rightarrow>
             bindE (map_err (\<lambda>_. internal ''Schema compilation failed'') (lift_res (compile_schema L schema))) (\<lambda>v.
             ret (Some v))
         | None \<Rightarrow>
             bindE (map_err map_db_err (get_event_valid_template product_id event_identifier)) (\<lambda>template.
             case template of
               Some template \<Rightarrow>
                 bindE (map_err (\<lambda>_. internal ''Schema compilation failed'')
                   (lift_res (compile_schema L (vt_schema template)))) (\<lambda>v.
                 bindE (spawn (CacheSchema cache_key (vt_schema template))) (\<lambda>_. ret (Some v)))
             | None \<Rightarrow> ret None)))"

section \<open>Reports\<close>

definition acknowledge :: "libs \<Rightarrow> app_config \<Rightarrow> mqtt_payload \<Rightarrow> string \<Rightarrow> ('s, 'e, unit) io" where
  "acknowledge L cfg payload topic =
     (if mp_ack payload = AckYes
      then ignoreE (ack_response (ser_response L) (app_mqtt cfg) (mp_id payload) topic)
      else ret ())"

definition params_of :: "mqtt_payload \<Rightarrow> json" where
  "params_of payload = (case mp_params payload of Some v \<Rightarrow> v | None \<Rightarrow> JNull)"

definition property_post :: "libs \<Rightarrow> app_config \<Rightarrow> rmqtt_publish_message \<Rightarrow> ('s, api_error, nat) io" where
  "property_post L cfg mqtt_msg =
     bindE (ok_or (bad_request ''Invalid payload format'') (decode_payload_as_json L mqtt_msg)) (\<lambda>payload.
     let device_id = pm_client_id mqtt_msg
     in bindE (lift_res (validate_identifier device_id ''device_id'')) (\<lambda>_.
        bindE now_utc (\<lambda>timestamp.
        let properties = params_of payload
        in case as_object properties of
             None \<Rightarrow> throw (bad_request ''Invalid params format'')
           | Some m \<Rightarrow>
               bindE (if app_schema_validator cfg
                      then bindE (lift_res (extract_and_validate_product_id (pm_topic mqtt_msg))) (\<lambda>product_id.
                           bindE (load_property_validator L product_id) (\<lambda>validator.
                           case validator of
                             Some valid \<Rightarrow> if valid properties then ret ()
                                           else throw (bad_request ''Property validation failed'')
                           | None \<Rightarrow> ret ()))
                      else ret ()) (\<lambda>_.
               bindE (lift_res (extract_and_validate_product_id (pm_topic mqtt_msg))) (\<lambda>product_id.
               bindE (map_err map_db_err (upsert_property_latest (rfc3339 L) product_id device_id m timestamp)) (\<lambda>_.
               bindE (spawn (EvaluateRules \<lparr>ctx_product_id = product_id, ctx_device_id = device_id,
                        ctx_trigger_type = Property, ctx_trigger_value = properties\<rparr>)) (\<lambda>_.
               bindE (acknowledge L cfg payload (pm_topic mqtt_msg)) (\<lambda>_. ret 204))))))))"

definition event_post :: "libs \<Rightarrow> app_config \<Rightarrow> rmqtt_publish_message \<Rightarrow> ('s, api_error, nat) io" where
  "event_post L cfg mqtt_msg =
     (if extract_event_identifier_from_topic (pm_topic mqtt_msg) = Some ''property''
      then property_post L cfg mqtt_msg
      else
        bindE (ok_or (bad_request ''Invalid payload format'') (decode_payload_as_json L mqtt_msg)) (\<lambda>payload.
        let device_id = pm_client_id mqtt_msg
        in bindE (lift_res (validate_identifier device_id ''device_id'')) (\<lambda>_.
           bindE now_utc (\<lambda>timestamp.
           let events = params_of payload
           in if as_object events = None then throw (bad_request ''Invalid params format'')
              else
                bindE (lift_res (extract_and_validate_product_id (pm_topic mqtt_msg))) (\<lambda>product_id.
                bindE (case (app_schema_validator cfg, extract_event_identifier_from_topic (pm_topic mqtt_msg)) of
                         (True, Some event_identifier) \<Rightarrow>
                           bindE (load_event_validator L product_id event_identifier) (\<lambda>validator.
                           case validator of
                             Some valid \<Rightarrow> if valid events then ret ()
                                           else throw (bad_request ''Event validation failed'')
                           | None \<Rightarrow> ret ())
                       | _ \<Rightarrow> ret ()) (\<lambda>_.
                bindE (map_err map_db_err (insert_event_history product_id device_id events timestamp)) (\<lambda>_.
                bindE (spawn (EvaluateRules \<lparr>ctx_product_id = product_id, ctx_device_id = device_id,
                         ctx_trigger_type = Event, ctx_trigger_value = events\<rparr>)) (\<lambda>_.
                bindE (acknowledge L cfg payload (pm_topic mqtt_msg)) (\<lambda>_. ret 204)))))))))"

section \<open>File uploads\<close>

definition publish_reply ::
  "libs \<Rightarrow> app_config \<Rightarrow> mqtt_payload \<Rightarrow> string \<Rightarrow> mqtt_response \<Rightarrow> ('s, api_error, unit) io" where
  "publish_reply L cfg payload topic response =
     bindE (ok_or (internal ''Failed to serialize response'') (ser_response L response)) (\<lambda>response_payload.
     if mp_ack payload = AckYes
     then ignoreE (publish_response (app_mqtt cfg) topic response_payload)
     else ret ())"

definition new_uuid :: "libs \<Rightarrow> ('s, 'e, string) io" where
  "new_uuid L env w = (Inr (uuid_at L (tick w)), w\<lparr>tick := Suc (tick w)\<rparr>)"

definition file_upload_handler ::
  "libs \<Rightarrow> app_config \<Rightarrow> rmqtt_publish_message \<Rightarrow> ('s, api_error, nat) io" where
  "file_upload_handler L cfg mqtt_msg =
     bindE (ok_or (bad_request ''Invalid payload format'') (decode_payload_as_json L mqtt_msg)) (\<lambda>payload.
     case app_directories cfg of
       Some directories \<Rightarrow>
         bindE (ok_or (bad_request ''Invalid params for FileUploadRequest'')
           (parse_file_upload L (params_of payload))) (\<lambda>file_upload_req.
         bindE (lift_res (extract_and_validate_product_id (pm_topic mqtt_msg))) (\<lambda>product_id.
         let device_id = pm_client_id mqtt_msg
         in bindE (lift_res (validate_identifier device_id ''device_id'')) (\<lambda>_.
            if \<not> is_file_upload_directory_allowed directories product_id device_id (fu_directory file_upload_req)
            then throw (bad_request ''Directory not allowed'')
            else
              bindE (if fu_use_origin_name file_upload_req then ret (fu_file_name file_upload_req)
                     else bindE (new_uuid L) (\<lambda>u. ret (u @ ''_'' @ fu_file_name file_upload_req))) (\<lambda>file_name.
              let file_path = fu_directory file_upload_req @ ''/'' @ file_name
              in bindE (ok_or (internal ''Failed to get presigned post'') (presigned_post L file_path)) (\<lambda>response_data.
                 bindE (publish_reply L cfg payload (pm_topic mqtt_msg)
                   \<lparr>mr_id = mp_id payload, mr_code = 200, mr_data = Some response_data\<rparr>) (\<lambda>_. ret 204))))))
     | None \<Rightarrow>
         bindE (publish_reply L cfg payload (pm_topic mqtt_msg)
           \<lparr>mr_id = mp_id payload, mr_code = 503,
            mr_data = Some (json_obj [(''message'', JString ''do not support file upload'')])\<rparr>) (\<lambda>_. ret 204))"

section \<open>Commands\<close>

definition service_set_reply ::
  "libs \<Rightarrow> app_config \<Rightarrow> rmqtt_publish_message \<Rightarrow> ('s, api_error, nat) io" where
  "service_set_reply L cfg mqtt_msg =
     bindE (lift_res (validate_identifier (pm_client_id mqtt_msg) ''device_id'')) (\<lambda>_.
     bindE (lift_res (extract_and_validate_product_id (pm_topic mqtt_msg))) (\<lambda>product_id.
     bindE (ok_or (bad_request ''Invalid service topic'') (extract_service_type_from_topic (pm_topic mqtt_msg))) (\<lambda>service_type.
     bindE (ok_or (bad_request ''Invalid payload encoding'') (decode_payload L mqtt_msg)) (\<lambda>bytes.
     bindE (ok_or (bad_request ''Invalid payload format'') (parse_response L bytes)) (\<lambda>payload.
     let new_status = (if 200 \<le> mr_code payload \<and> mr_code payload \<le> 299 then Success else Failed)
     in bindE (ok_or (bad_request ''Invalid id format'') (split_once CHR '':'' (mr_id payload))) (\<lambda>(prefix, db_id_str).
        bindE (ok_or (bad_request ''Invalid id format'') (parse_i64 db_id_str)) (\<lambda>db_id.
        if prefix = ''property'' then
          bindE (map_err map_db_err (update_property_command_status [db_id] product_id (pm_client_id mqtt_msg)
            new_status Sent)) (\<lambda>_. ret 204)
        else if prefix = ''action'' then
          bindE (map_err map_db_err (update_action_invocation_status db_id product_id (pm_client_id mqtt_msg)
            service_type new_status Sent)) (\<lambda>_. ret 204)
        else ret 204)))))))"

definition unwrap_or_false :: "('s, io_error, bool) io \<Rightarrow> ('s, 'e, bool) io" where
  "unwrap_or_false m = matchE m ret (\<lambda>_. ret False)"

definition topic_names_client :: "string \<Rightarrow> string \<Rightarrow> bool" where
  "topic_names_client topic device_id \<longleftrightarrow>
     (case split_on CHR ''/'' (trim_start_matches CHR ''/'' topic) of
        first # second # _ \<Rightarrow> second = device_id
      | _ \<Rightarrow> False)"

definition service_set_subscribe ::
  "libs \<Rightarrow> app_config \<Rightarrow> rmqtt_subscribe_message \<Rightarrow> ('s, api_error, nat) io" where
  "service_set_subscribe L cfg mqtt_msg =
     (let device_id = sm_client_id mqtt_msg
      in bindE (lift_res (validate_identifier device_id ''device_id'')) (\<lambda>_.
         let product_id = (case sm_username mqtt_msg of Some u \<Rightarrow> u | None \<Rightarrow> [])
         in bindE (lift_res (validate_identifier product_id ''product_id'')) (\<lambda>_.
            if (case sm_topic mqtt_msg of Some topic \<Rightarrow> \<not> topic_names_client topic device_id | None \<Rightarrow> False)
            then throw (bad_request ''Topic does not match clientId'')
            else
              bindE (unwrap_or_false (is_subscribed_to_properties product_id device_id)) (\<lambda>subscribed.
              if \<not> subscribed then ret 204
              else
                matchE (send_property_command_to_device (ser_payload L) (app_mqtt cfg) product_id device_id)
                  (\<lambda>_. matchE (send_action_invocations_to_device (ser_payload L) (app_mqtt cfg) product_id device_id)
                         (\<lambda>_. ret 204)
                         (\<lambda>_. throw (internal ''Failed to publish command'')))
                  (\<lambda>_. throw (internal ''Failed to publish command''))))))"

section \<open>Connections\<close>

text \<open>A handler ends with an HTTP error, or its task panics.\<close>

datatype failure = Http api_error | Panic

definition db_failure :: "io_error \<Rightarrow> failure" where
  "db_failure e = (case e of Panicked \<Rightarrow> Panic | _ \<Rightarrow> Http (map_db_err e))"

definition resolve_device_identity ::
  "string \<Rightarrow> string \<Rightarrow> string \<Rightarrow> string option \<Rightarrow> api_error + string \<times> string" where
  "resolve_device_identity product_id device_id username client_id =
     (let product_id = (if product_id = [] then username else product_id);
          device_id = (case (device_id, client_id) of ([], Some cid) \<Rightarrow> cid | _ \<Rightarrow> device_id)
      in if product_id = [] \<or> device_id = [] then Inl (bad_request ''Invalid device identity'')
         else case validate_identifier product_id ''product_id'' of
                Inl e \<Rightarrow> Inl e
              | Inr _ \<Rightarrow> (case validate_identifier device_id ''device_id'' of
                            Inl e \<Rightarrow> Inl e
                          | Inr _ \<Rightarrow> Inr (product_id, device_id)))"

definition device_event :: "trigger_type \<Rightarrow> string \<Rightarrow> string \<Rightarrow> task" where
  "device_event t product_id device_id =
     EvaluateRules \<lparr>ctx_product_id = product_id, ctx_device_id = device_id, ctx_trigger_type = t,
       ctx_trigger_value = JObject []\<rparr>"

definition device_connect :: "libs \<Rightarrow> app_config \<Rightarrow> device_connect_request \<Rightarrow> ('s, failure, nat) io" where
  "device_connect L cfg req =
     bindE (map_err Http (lift_res (resolve_device_identity (cn_product_id req) (cn_device_id req)
       (case cn_username req of Some u \<Rightarrow> u | None \<Rightarrow> []) (cn_client_id req)))) (\<lambda>(product_id, device_id).
     let req = req\<lparr>cn_product_id := product_id, cn_device_id := device_id\<rparr>
     in bindE (map_err db_failure (upsert_device_status_connect (from_unix_timestamp L) req)) (\<lambda>_.
        bindE (unwrap_or_false (is_subscribed_to_properties product_id device_id)) (\<lambda>subscribed.
        bindE (if subscribed
               then bindE (ignoreE (send_property_command_to_device (ser_payload L) (app_mqtt cfg) product_id device_id)) (\<lambda>_.
                    ignoreE (send_action_invocations_to_device (ser_payload L) (app_mqtt cfg) product_id device_id))
               else ret ()) (\<lambda>_.
        bindE (spawn (device_event DeviceOnline product_id device_id)) (\<lambda>_. ret 204)))))"

definition device_disconnect :: "libs \<Rightarrow> device_disconnect_request \<Rightarrow> ('s, failure, nat) io" where
  "device_disconnect L req =
     bindE (map_err Http (lift_res (resolve_device_identity (dc_product_id req) (dc_device_id req)
       (dc_username req) (dc_client_id req)))) (\<lambda>(product_id, device_id).
     let req = req\<lparr>dc_product_id := product_id, dc_device_id := device_id\<rparr>
     in bindE (map_err db_failure (update_device_status_disconnect (from_unix_timestamp L) req)) (\<lambda>_.
        bindE (spawn (device_event DeviceOffline product_id device_id)) (\<lambda>_. ret 204)))"

section \<open>Spawned work\<close>

definition run_task :: "'s store_ops \<Rightarrow> alarm_repo \<Rightarrow> task \<Rightarrow> ('s, 'e, unit) io" where
  "run_task ops repo t =
     (case t of
        EvaluateRules ctx \<Rightarrow> evaluate_and_trigger ops repo ctx
      | CacheSchema key schema \<Rightarrow> ignoreE (schema_set key schema))"

end
