(* ===== verification/Device_Behaviour.thy ===== *)
theory Device_Behaviour
  imports Device_Api
begin

text \<open>
  What the device webhooks guarantee: a report is stored completely or not at all, a reply settles
  exactly the command it names, and a subscription only triggers delivery once the broker lists it.
\<close>

section \<open>Reports\<close>

text \<open>What a handler may leave behind apart from the database: published messages and rule
  evaluations.\<close>

definition evaluations :: "'s world \<Rightarrow> trigger_context list" where
  "evaluations w = List.map_filter (\<lambda>t. case t of EvaluateRules c \<Rightarrow> Some c | _ \<Rightarrow> None) (spawned w)"

definition untouched :: "'s world \<Rightarrow> 's world \<Rightarrow> bool" where
  "untouched w0 w \<longleftrightarrow> db w = db w0 \<and> published w = published w0 \<and> evaluations w = evaluations w0"

lemma untouched_refl: "untouched w w"
  by (simp add: untouched_def)

lemma untouched_trans: "untouched a b \<Longrightarrow> untouched b c \<Longrightarrow> untouched a c"
  by (simp add: untouched_def)

text \<open>Programs that only read, cache schemas and let time pass.\<close>

definition harmless :: "('s, 'e, 'a) io \<Rightarrow> bool" where
  "harmless m \<longleftrightarrow> (\<forall>env w. untouched w (snd (m env w)))"

named_theorems harmless_intros \<open>a program is harmless if its parts are\<close>

lemma harmlessD: "harmless m \<Longrightarrow> m env w = (r, w') \<Longrightarrow> untouched w w'"
  unfolding harmless_def by (metis snd_conv)

lemma harmless_basic [harmless_intros]:
  "harmless (ret x)" "harmless (throw e)" "harmless now_utc" "harmless (spawn (CacheSchema k s))"
  "harmless (schema_get k)"
  by (simp_all add: harmless_def untouched_def ret_def throw_def now_utc_def spawn_def schema_get_def
    evaluations_def map_filter_def)

lemma harmless_matchE [harmless_intros]:
  assumes "harmless m" "\<And>x. harmless (f x)" "\<And>e. harmless (h e)"
  shows "harmless (matchE m f h)"
  unfolding harmless_def
proof (intro allI)
  fix env w
  obtain r w1 where m: "m env w = (r, w1)" by (cases "m env w")
  then have "untouched w w1" by (rule harmlessD [OF assms(1)])
  moreover have "untouched w1 (snd (matchE m f h env w))"
    using assms(2,3) m by (cases r) (simp_all add: matchE_def harmless_def)
  ultimately show "untouched w (snd (matchE m f h env w))" by (rule untouched_trans)
qed

lemma harmless_bindE [harmless_intros]:
  "harmless m \<Longrightarrow> (\<And>x. harmless (f x)) \<Longrightarrow> harmless (bindE m f)"
  unfolding bindE_matchE by (intro harmless_intros)

lemma harmless_derived [harmless_intros]:
  "harmless m \<Longrightarrow> harmless (map_err g m)" "harmless (ok_or e x)" "harmless (lift_res r)"
  by (simp_all add: map_err_def ok_or_def lift_res_def harmless_intros split: option.split sum.split)

lemma harmless_db_query [harmless_intros]: "harmless (db_query q)"
  by (simp add: harmless_def untouched_def evaluations_def db_query_def db_exec_def ext_call_def Let_def
    split: outcome.split)

lemma harmless_if [harmless_intros]:
  "harmless m \<Longrightarrow> harmless n \<Longrightarrow> harmless (if b then m else n)"
  by simp

lemma harmless_case_option [harmless_intros]:
  "harmless m \<Longrightarrow> (\<And>y. harmless (f y)) \<Longrightarrow> harmless (case x of None \<Rightarrow> m | Some y \<Rightarrow> f y)"
  by (cases x) auto

lemma harmless_load_property_validator [harmless_intros]: "harmless (load_property_validator L p)"
  unfolding load_property_validator_def get_property_schema_def by (intro harmless_intros)

lemma harmless_load_event_validator [harmless_intros]: "harmless (load_event_validator L p e)"
  unfolding load_event_validator_def get_event_valid_template_def Let_def by (intro harmless_intros)

lemma bindE_run: "m env w = (Inr x, w1) \<Longrightarrow> bindE m f env w = f x env w1"
  and bindE_err: "m env w = (Inl e, w1) \<Longrightarrow> bindE m f env w = (Inl e, w1)"
  by (simp_all add: bindE_def)

text \<open>Skipping a harmless step: the program ended in it, or goes on from an untouched world.\<close>

lemma bindE_harmless:
  assumes "bindE m f env w = (r, w')" "harmless m" "untouched w0 w"
  obtains e where "r = Inl e" "untouched w0 w'"
  | x w1 where "f x env w1 = (r, w')" "untouched w0 w1" "m env w = (Inr x, w1)"
proof -
  obtain r1 w1 where m: "m env w = (r1, w1)" by (cases "m env w")
  have u: "untouched w0 w1" using assms(2,3) m harmlessD untouched_trans by blast
  show thesis
  proof (cases r1)
    case (Inl e)
    with assms(1) m u that(1) show ?thesis by (auto simp: bindE_def)
  next
    case (Inr x)
    with assms(1) m u that(2) show ?thesis by (auto simp: bindE_def)
  qed
qed

lemma acknowledge_run:
  "\<exists>w' ps. (acknowledge L cfg payload topic :: ('s, 'e, unit) io) env w = (Inr (), w') \<and> db w' = db w \<and>
     evaluations w' = evaluations w \<and> published w' = published w @ ps"
proof -
  have *: "db (snd (ack_response ser c i t env v)) = db v \<and> spawned (snd (ack_response ser c i t env v)) = spawned v \<and>
      (\<exists>ps. published (snd (ack_response ser c i t env v)) = published v @ ps)" for ser c i t and v :: "'s world"
    by (auto simp: ack_response_def publish_response_def bindE_def ok_or_def throw_def ret_def map_err_def matchE_def
      post_publish_run Let_def split: option.split sum.split outcome.split prod.split)
  show ?thesis
    using * [of "ser_response L" "app_mqtt cfg" "mp_id payload" topic w]
    by (auto simp: acknowledge_def ignoreE_def matchE_def ret_def evaluations_def split: prod.split sum.split)
qed

lemma upsert_property_latest_run:
  assumes "map_err map_db_err (upsert_property_latest f p dv m ts) env w = (r, w')"
  shows "evaluations w' = evaluations w \<and> published w' = published w \<and>
    ((\<exists>e. r = Inl e \<and> status e = 500 \<and> db w' = db w) \<or>
     (\<exists>s n. f ts = Some s \<and> db w' = snd (upsert_property_latest_sql p dv m s ts (now_at env n) (db w)) \<and>
       (r = Inr () \<or> (\<exists>e. r = Inl e \<and> status e = 500))))"
proof (cases "f ts")
  case None
  with assms show ?thesis
    by (auto simp: upsert_property_latest_def map_err_def matchE_def bindE_def ok_or_def throw_def)
next
  case (Some s)
  have "(\<exists>e. r = Inl e \<and> status e = 500 \<and> w' = w\<lparr>tick := Suc (tick w)\<rparr>) \<or>
      (w' = w\<lparr>tick := Suc (tick w), db := snd (upsert_property_latest_sql p dv m s ts (now_at env (tick w)) (db w))\<rparr> \<and>
       (r = Inr () \<or> (\<exists>e. r = Inl e \<and> status e = 500)))"
    using assms Some
    by (auto simp: upsert_property_latest_def map_err_def matchE_def bindE_def ok_or_def ret_def throw_def
      db_exec_def ext_call_def Let_def split: outcome.splits prod.splits)
  with Some show ?thesis by (auto simp: evaluations_def)
qed

text \<open>
  What storing a report means, stated on the tables: the device's document holds for every reported
  property its value with the time of the report and for every other property what it held; the device
  has one row, dated with the report; the rows of other devices are unchanged; exactly one history row
  with the reported object was appended; and no other table changed.
\<close>

definition latest_unique :: "database \<Rightarrow> bool" where
  "latest_unique d \<longleftrightarrow> distinct (map (\<lambda>r. (pl_product_id r, pl_device_id r)) (property_latests d))"

definition reported_property :: "string \<Rightarrow> json \<Rightarrow> json" where
  "reported_property time v = json_obj [(''value'', v), (''time'', JString time)]"

definition report_stored ::
  "libs \<Rightarrow> env \<Rightarrow> string \<Rightarrow> string \<Rightarrow> jmap \<Rightarrow> instant \<Rightarrow> database \<Rightarrow> database \<Rightarrow> bool" where
  "report_stored L env p c m ts d d' \<longleftrightarrow>
     (\<exists>time. rfc3339 L ts = Some time \<and>
        (\<forall>k. jmap_get (reported_doc p c d') k =
           (case jmap_get m k of Some v \<Rightarrow> Some (reported_property time v) | None \<Rightarrow> jmap_get (reported_doc p c d) k))) \<and>
     (\<exists>r. filter (latest_for p c) (property_latests d') = [r] \<and> pl_updated_time r = ts) \<and>
     filter (\<lambda>r. \<not> latest_for p c r) (property_latests d') = filter (\<lambda>r. \<not> latest_for p c r) (property_latests d) \<and>
     (\<exists>n. property_histories d' = property_histories d @
        [\<lparr>ph_id = next_property_history_id d, ph_product_id = p, ph_device_id = c, ph_properties = JObject m,
          ph_reported_time = Some ts, ph_created_time = now_at env n\<rparr>]) \<and>
     d'\<lparr>property_latests := property_latests d, property_histories := property_histories d,
        next_property_history_id := next_property_history_id d\<rparr> = d"

lemma latest_for_key: "latest_for p c r \<longleftrightarrow> (pl_product_id r, pl_device_id r) = (p, c)"
  by (simp add: latest_for_def)

lemma latest_for_upd: "latest_for p c (r\<lparr>pl_properties := x, pl_updated_time := t\<rparr>) = latest_for p c r"
  by (simp add: latest_for_def)

lemma one_latest:
  assumes "latest_unique d" "count_where (latest_for p c) (property_latests d) \<noteq> 0"
  obtains r where "filter (latest_for p c) (property_latests d) = [r]"
proof -
  obtain r rs where eq: "filter (latest_for p c) (property_latests d) = r # rs"
    using assms(2) by (cases "filter (latest_for p c) (property_latests d)") (simp_all add: count_where_def)
  have "distinct (map (\<lambda>r. (pl_product_id r, pl_device_id r)) (r # rs))"
    using assms(1) unfolding latest_unique_def eq [symmetric] by (rule distinct_map_filter)
  moreover have "\<forall>x\<in>set (r # rs). (pl_product_id x, pl_device_id x) = (p, c)"
    unfolding eq [symmetric] by (simp add: latest_for_key)
  ultimately have "rs = []" by (cases rs) auto
  with eq that show thesis by blast
qed

lemma filter_update_where:
  assumes "\<And>r. P (f r) = P r"
  shows "filter P (update_where P f xs) = map f (filter P xs)"
    "filter (\<lambda>r. \<not> P r) (update_where P f xs) = filter (\<lambda>r. \<not> P r) xs"
  using assms by (induction xs) (auto simp: update_where_def)

lemma upsert_stores_report:
  assumes "wf_shadow d" "latest_unique d" "wf_jmap m" "rfc3339 L ts = Some s"
  shows "report_stored L env p c m ts d (snd (upsert_property_latest_sql p c m s ts (now_at env n) d))"
proof -
  let ?d = "snd (upsert_property_latest_sql p c m s ts (now_at env n) d)"
  have "\<forall>k. jmap_get (reported_doc p c ?d) k =
      (case jmap_get m k of Some v \<Rightarrow> Some (reported_property s v) | None \<Rightarrow> jmap_get (reported_doc p c d) k)"
    using reported_doc_upsert [OF assms(1), of p c m s ts "now_at env n"]
    by (auto simp: with_time_get [OF assms(3)] reported_property_def split: option.split)
  moreover have "(\<exists>r. filter (latest_for p c) (property_latests ?d) = [r] \<and> pl_updated_time r = ts) \<and>
      filter (\<lambda>r. \<not> latest_for p c r) (property_latests ?d) = filter (\<lambda>r. \<not> latest_for p c r) (property_latests d)"
  proof (cases "count_where (latest_for p c) (property_latests d) = 0")
    case True
    then show ?thesis
      by (auto simp: upsert_property_latest_sql_def Let_def count_where_def latest_for_def)
  next
    case False
    then obtain r where "filter (latest_for p c) (property_latests d) = [r]" by (rule one_latest [OF assms(2)])
    with False show ?thesis
      by (simp add: upsert_property_latest_sql_def Let_def filter_update_where latest_for_upd)
  qed
  ultimately show ?thesis
    using assms(4) by (auto simp: report_stored_def upsert_property_latest_sql_def Let_def)
qed

text \<open>The invariant of the table is kept.\<close>

lemma upsert_keeps_shadow:
  assumes "wf_shadow d" "latest_unique d"
  shows "wf_shadow (snd (upsert_property_latest_sql p c m s ts now d))"
    "latest_unique (snd (upsert_property_latest_sql p c m s ts now d))"
proof -
  have "\<exists>n. jsonb_concat (pl_properties r) (JObject (with_time s m)) = JObject n \<and> wf_jmap n"
    if "r \<in> set (property_latests d)" for r
    using that assms(1) jsonb_concat_objects [OF _ wf_with_time] unfolding wf_shadow_def by metis
  then show "wf_shadow (snd (upsert_property_latest_sql p c m s ts now d))"
    using assms(1) by (auto simp: wf_shadow_def upsert_property_latest_sql_def Let_def update_where_def wf_with_time)
  have "map (\<lambda>r. (pl_product_id r, pl_device_id r)) (update_where P (\<lambda>r. r\<lparr>pl_properties := g r, pl_updated_time := ts\<rparr>) rs)
      = map (\<lambda>r. (pl_product_id r, pl_device_id r)) rs" for P rs and g :: "property_latest \<Rightarrow> json"
    by (simp add: update_where_def)
  then show "latest_unique (snd (upsert_property_latest_sql p c m s ts now d))"
    using assms(2) by (auto simp: latest_unique_def upsert_property_latest_sql_def Let_def count_where_def
      filter_empty_conv latest_for_key)
qed

text \<open>The handler after its checks: store, schedule the evaluation, acknowledge.\<close>

definition store_report ::
  "libs \<Rightarrow> app_config \<Rightarrow> rmqtt_publish_message \<Rightarrow> mqtt_payload \<Rightarrow> string \<Rightarrow> jmap \<Rightarrow> instant \<Rightarrow> ('s, api_error, nat) io" where
  "store_report L cfg msg payload p m ts =
     bindE (map_err map_db_err (upsert_property_latest (rfc3339 L) p (pm_client_id msg) m ts)) (\<lambda>_.
     bindE (spawn (EvaluateRules \<lparr>ctx_product_id = p, ctx_device_id = pm_client_id msg,
              ctx_trigger_type = Property, ctx_trigger_value = JObject m\<rparr>)) (\<lambda>_.
     bindE (acknowledge L cfg payload (pm_topic msg)) (\<lambda>_. ret 204)))"

lemma property_post_checks:
  assumes "property_post L cfg msg env w = (r, w')"
  obtains e where "r = Inl e" "untouched w w'"
  | payload p m w1 where "decode_payload_as_json L msg = Some payload" "params_of payload = JObject m"
      "extract_and_validate_product_id (pm_topic msg) = Inr p" "untouched w w1"
      "store_report L cfg msg payload p m (now_at env (tick w)) env w1 = (r, w')"
proof -
  from assms [unfolded property_post_def] show thesis
  proof (rule bindE_harmless [OF _ _ untouched_refl], goal_cases)
    case 1 show ?case by (intro harmless_intros)
  next
    case (3 payload w1)
    have payload: "decode_payload_as_json L msg = Some payload" and w1: "w1 = w"
      using 3(3) by (auto simp: ok_or_def throw_def ret_def split: option.splits)
    from 3(1) [unfolded Let_def] show ?case
    proof (rule bindE_harmless [OF _ _ 3(2)], goal_cases)
      case 1 show ?case by (intro harmless_intros)
    next
      case v: (3 x w2)
      have w2: "w2 = w" using v(3) w1 by (auto simp: lift_res_def throw_def ret_def split: sum.splits)
      from v(1) show ?case
      proof (rule bindE_harmless [OF _ _ v(2)], goal_cases)
        case 1 show ?case by (intro harmless_intros)
      next
        case t: (3 ts w3)
        have ts: "ts = now_at env (tick w)" using t(3) w2 by (auto simp: now_utc_def)
        show ?case
        proof (cases "as_object (params_of payload)")
          case None
          with t that(1) show ?thesis by (auto simp: throw_def)
        next
          case (Some m)
          then have m: "params_of payload = JObject m"
            by (cases "params_of payload") (auto simp: as_object_def)
          from t(1) [unfolded Some option.case] show ?thesis
          proof (rule bindE_harmless [OF _ _ t(2)], goal_cases)
            case 1 show ?case by (intro harmless_intros)
          next
            case c: (3 y w4)
            from c(1) show ?case
            proof (rule bindE_harmless [OF _ _ c(2)], goal_cases)
              case 1 show ?case by (intro harmless_intros)
            next
              case p: (3 p w5)
              have "extract_and_validate_product_id (pm_topic msg) = Inr p"
                using p(3) by (auto simp: lift_res_def throw_def ret_def split: sum.splits)
              from that(2) [OF payload m this p(2)] p(1) m ts show ?case by (simp add: store_report_def)
            qed (use that(1) in blast)
          qed (use that(1) in blast)
        qed
      qed (use that(1) in blast)
    qed (use that(1) in blast)
  qed (use that(1) in blast)
qed

lemma store_report_run:
  assumes "store_report L cfg msg payload p m ts env w1 = (r, w')" "untouched w w1"
    and wf: "wf_shadow (db w)" "latest_unique (db w)" "wf_jmap m"
  shows "wf_shadow (db w') \<and> latest_unique (db w') \<and>
   (r = Inr 204 \<and> report_stored L env p (pm_client_id msg) m ts (db w) (db w') \<and>
      evaluations w' = evaluations w @ [\<lparr>ctx_product_id = p, ctx_device_id = pm_client_id msg,
        ctx_trigger_type = Property, ctx_trigger_value = JObject m\<rparr>] \<or>
    (\<exists>e. r = Inl e \<and> evaluations w' = evaluations w \<and> published w' = published w \<and>
      (db w' = db w \<or> status e = 500 \<and> report_stored L env p (pm_client_id msg) m ts (db w) (db w'))))"
proof -
  obtain r6 w6 where up: "map_err map_db_err (upsert_property_latest (rfc3339 L) p (pm_client_id msg) m ts)
      env w1 = (r6, w6)" by fastforce
  note run = upsert_property_latest_run [OF up]
  have stored: "report_stored L env p (pm_client_id msg) m ts (db w) (db w6)" if "\<exists>s n. rfc3339 L ts = Some s \<and>
      db w6 = snd (upsert_property_latest_sql p (pm_client_id msg) m s ts (now_at env n) (db w1))"
    using that assms(2) upsert_stores_report [OF wf] unfolding untouched_def by metis
  have kept: "wf_shadow (db w6) \<and> latest_unique (db w6)"
    using run wf(1,2) assms(2) upsert_keeps_shadow [OF wf(1,2)] unfolding untouched_def by metis
  show ?thesis
  proof (cases r6)
    case (Inl e)
    then have "r = Inl e" "w' = w6" using assms(1) up by (auto simp: store_report_def bindE_def)
    with run Inl assms(2) stored kept show ?thesis unfolding untouched_def by auto
  next
    case (Inr u)
    let ?c = "\<lparr>ctx_product_id = p, ctx_device_id = pm_client_id msg, ctx_trigger_type = Property,
      ctx_trigger_value = JObject m\<rparr>"
    let ?w7 = "w6\<lparr>spawned := spawned w6 @ [EvaluateRules ?c]\<rparr>"
    obtain w8 where ack: "acknowledge L cfg payload (pm_topic msg) env ?w7 = (Inr () :: api_error + unit, w8)"
        "db w8 = db w6" "evaluations w8 = evaluations ?w7"
      using acknowledge_run [where 'e = api_error, of L cfg payload "pm_topic msg" env ?w7] by auto
    have "r = Inr 204 \<and> w' = w8"
      using assms(1) up Inr ack(1) by (simp add: store_report_def bindE_def spawn_def ret_def)
    moreover have "evaluations w8 = evaluations w @ [?c]"
      using ack(3) run assms(2) by (simp add: evaluations_def untouched_def map_filter_def)
    moreover have "report_stored L env p (pm_client_id msg) m ts (db w) (db w8)"
      using run Inr stored ack(2) by auto
    ultimately show ?thesis using kept ack(2) by simp
  qed
qed

text \<open>
  C5: a property report is taken completely or not at all. Let the shadow table be well formed (one row
  per device, holding an object) and let the parser yield objects with ordered, distinct keys. For any
  configuration and any pattern of failing calls, \<open>property_post\<close> keeps the table well formed and
  either answers 204, and then the payload's \<open>params\<close> is an object, the topic names a valid product,
  the report is stored for the publishing client (every reported property has its value and the time
  read when the request came in, every other property is as before, one history row with the reported
  object is appended, and nothing else in the database changes), and exactly one rule evaluation for it
  is scheduled; or it answers with an error, and then no evaluation is scheduled, nothing is published,
  and the database is as before, with one exception: when the commit succeeds but its acknowledgement
  is lost, the answer is an error 500, the report is stored completely, and it is not evaluated.
\<close>

theorem property_report_atomic:
  assumes run: "property_post L cfg msg env w = (r, w')"
    and wf: "wf_shadow (db w)" "latest_unique (db w)"
    and parsed: "\<forall>payload m. decode_payload_as_json L msg = Some payload \<and> params_of payload = JObject m \<longrightarrow> wf_jmap m"
  shows "wf_shadow (db w') \<and> latest_unique (db w') \<and>
   ((\<exists>payload p m. r = Inr 204 \<and> decode_payload_as_json L msg = Some payload \<and>
      params_of payload = JObject m \<and> extract_and_validate_product_id (pm_topic msg) = Inr p \<and>
      report_stored L env p (pm_client_id msg) m (now_at env (tick w)) (db w) (db w') \<and>
      evaluations w' = evaluations w @ [\<lparr>ctx_product_id = p, ctx_device_id = pm_client_id msg,
        ctx_trigger_type = Property, ctx_trigger_value = JObject m\<rparr>]) \<or>
    (\<exists>e. r = Inl e \<and> evaluations w' = evaluations w \<and> published w' = published w \<and>
      (db w' = db w \<or> status e = 500 \<and>
        (\<exists>payload p m. decode_payload_as_json L msg = Some payload \<and> params_of payload = JObject m \<and>
          extract_and_validate_product_id (pm_topic msg) = Inr p \<and>
          report_stored L env p (pm_client_id msg) m (now_at env (tick w)) (db w) (db w')))))"
proof (rule property_post_checks [OF run])
  fix e assume "r = Inl e" "untouched w w'"
  then show ?thesis using wf by (auto simp: untouched_def)
next
  fix payload p m w1
  assume *: "decode_payload_as_json L msg = Some payload" "params_of payload = JObject m"
    "extract_and_validate_product_id (pm_topic msg) = Inr p" "untouched w w1"
    "store_report L cfg msg payload p m (now_at env (tick w)) env w1 = (r, w')"
  have "wf_jmap m" using parsed *(1,2) by blast
  from store_report_run [OF *(5,4) wf this] *(1-3) show ?thesis by blast
qed

definition sample_libs :: libs where
  "sample_libs = \<lparr>base64_decode = Some, from_utf8 = Some,
     parse_payload = (\<lambda>s. Some \<lparr>mp_id = ''1'', mp_ack = AckNo, mp_params = Some (JObject [(''temp'', JNumber (PosInt 81))])\<rparr>),
     parse_response = (\<lambda>s. Some \<lparr>mr_id = s, mr_code = 200, mr_data = None\<rparr>),
     ser_payload = (\<lambda>p. Some (mp_id p)), ser_response = (\<lambda>r. Some (mr_id r)),
     validator_new = (\<lambda>s. Some (\<lambda>v. True)), rfc3339 = (\<lambda>t. Some (show_int t)),
     from_unix_timestamp = (\<lambda>s. Some (s * ns_per_sec)), parse_file_upload = (\<lambda>v. None),
     presigned_post = (\<lambda>k. None), uuid_at = (\<lambda>n. ''u'')\<rparr>"

definition sample_app :: app_config where
  "sample_app = \<lparr>app_mqtt = sample_mqtt, app_schema_validator = False, app_directories = None\<rparr>"

definition sample_message :: "string \<Rightarrow> string \<Rightarrow> rmqtt_publish_message" where
  "sample_message topic payload = \<lparr>pm_dup = False, pm_client_id = ''d'', pm_ip_address = '''', pm_from_type = '''',
     pm_username = ''p'', pm_packet_id = 1, pm_payload = payload, pm_qos = 1, pm_retain = False, pm_time = '''',
     pm_topic = topic, pm_ts = 0\<rparr>"

lemma sample_identifiers: "valid_identifier ''p''" "valid_identifier ''d''"
  by (simp_all add: valid_identifier_def identifier_char_def is_ascii_alphanumeric_def)

theorem property_report_atomic_witness:
  "report_stored sample_libs all_done ''p'' ''d'' [(''temp'', JNumber (PosInt 81))] 0 empty_db
     (db (snd (property_post sample_libs sample_app (sample_message ''p/d/thing/event/property/post'' ''x'')
       all_done empty_world)))"
proof -
  let ?msg = "sample_message ''p/d/thing/event/property/post'' ''x''"
  let ?m = "property_post sample_libs sample_app ?msg :: (unit, _, _) io"
  obtain r w' where run: "?m all_done empty_world = (r, w')" by fastforce
  have prod: "extract_and_validate_product_id ''p/d/thing/event/property/post'' = Inr ''p''" by code_simp
  have dev: "validate_identifier ''d'' f = Inr ()" for f
    using sample_identifiers by (simp add: validate_identifier_ok)
  have isl: "isl r = False"
    using run by (auto simp: property_post_def sample_libs_def sample_app_def sample_message_def decode_payload_as_json_def
      decode_payload_def prog_simps dev now_utc_def params_of_def as_object_def prod upsert_property_latest_def
      db_exec_def ext_call_def all_done_def spawn_def acknowledge_def Let_def split: prod.splits)
  have msg: "pm_topic ?msg = ''p/d/thing/event/property/post''" "pm_client_id ?msg = ''d''"
      "db empty_world = empty_db" "now_at all_done n = 0" for n
    by (simp_all add: sample_message_def empty_world_def all_done_def)
  have params: "m = [(''temp'', JNumber (PosInt 81))]"
    if "decode_payload_as_json sample_libs ?msg = Some payload" "params_of payload = JObject m" for payload m
    using that by (auto simp: decode_payload_as_json_def decode_payload_def sample_libs_def sample_message_def params_of_def)
  have wf: "wf_shadow (db empty_world)" "latest_unique (db empty_world)"
    by (simp_all add: msg wf_shadow_def latest_unique_def empty_db_def)
  have wf_one: "wf_jmap [(''temp'', JNumber (PosInt 81))]" by (simp add: wf_jmap_def)
  have parsed: "\<forall>payload m. decode_payload_as_json sample_libs ?msg = Some payload \<and> params_of payload = JObject m \<longrightarrow> wf_jmap m"
    using params wf_one by metis
  obtain payload p m where *: "decode_payload_as_json sample_libs ?msg = Some payload" "params_of payload = JObject m"
      "extract_and_validate_product_id (pm_topic ?msg) = Inr p"
      "report_stored sample_libs all_done p (pm_client_id ?msg) m (now_at all_done (tick empty_world)) (db empty_world) (db w')"
    using property_report_atomic [OF run wf parsed] isl by auto
  have "p = ''p''" using *(3) prod unfolding msg by simp
  with *(4) params [OF *(1,2)] run show ?thesis unfolding msg by simp
qed

section \<open>Replies\<close>

lemma command_id_split:
  "CHR '':'' \<notin> set prefix \<Longrightarrow>
   split_once CHR '':'' (mp_id (command_payload prefix i c)) = Some (prefix, show_int i)"
  using split_once_append [of "CHR '':''" prefix "show_int i"] by (simp add: command_payload_def)

lemma set_reply_topic:
  assumes "valid_identifier p" "valid_identifier dv" "sv \<noteq> []" "CHR ''/'' \<notin> set sv"
    and "topic = p @ ''/'' @ dv @ ''/thing/service/'' @ sv @ ''/set_reply''"
  shows "extract_and_validate_product_id topic = Inr p" "extract_service_type_from_topic topic = Some sv"
proof -
  have trim: "trim_start_matches CHR ''/'' (p @ r) = p @ r" for r using trim_start_valid [OF assms(1)] by simp
  have segs: "split_on CHR ''/'' (p @ CHR ''/'' # dv @ CHR ''/'' # r) = p # dv # split_on CHR ''/'' r" for r
    by (rule split_two_segments [OF assms(1,2)])
  have "p \<noteq> []" using assms(1) by (simp add: valid_identifier_def)
  moreover have "validate_identifier p f = Inr ()" for f using assms(1) by (simp add: validate_identifier_ok)
  ultimately show "extract_and_validate_product_id topic = Inr p" "extract_service_type_from_topic topic = Some sv"
    using assms(3) trim segs split_thing [OF assms(4)]
    by (simp_all add: assms(5) extract_and_validate_product_id_def extract_product_id_from_topic_def
      extract_service_type_from_topic_def)
qed

text \<open>
  C33: a reply settles exactly the command it names. The correlation id the platform put into a command
  (\<open>property:{id}\<close> or \<open>action:{id}\<close>) is read back from the reply, and, when the database answers, the
  only rows that change are those with this id that belong to the replying device (and, for actions, to
  the service of the topic) and are \<open>Sent\<close>: they become \<open>Success\<close> for a code between 200 and 299
  and \<open>Failed\<close> otherwise. The answer is 204 in any case, so a duplicate reply changes nothing.
\<close>

theorem reply_settles_its_command:
  assumes "reliable env" "valid_identifier p" "valid_identifier (pm_client_id msg)" "sv \<noteq> []" "CHR ''/'' \<notin> set sv"
    and "pm_topic msg = p @ ''/'' @ pm_client_id msg @ ''/thing/service/'' @ sv @ ''/set_reply''"
    and "decode_payload L msg = Some bytes" "parse_response L bytes = Some reply"
    and "mr_id reply = mp_id (command_payload prefix i c)" "i64_min \<le> i" "i \<le> i64_max"
    and "st = (if 200 \<le> mr_code reply \<and> mr_code reply \<le> 299 then Success else Failed)"
    and "service_set_reply L cfg msg env w = (r, w')"
  shows "(prefix = ''property'' \<longrightarrow> r = Inr 204 \<and> action_invocations (db w') = action_invocations (db w) \<and>
      property_commands (db w') = map (\<lambda>x. if pc_id x = i \<and> pc_product_id x = p \<and>
        pc_device_id x = pm_client_id msg \<and> pc_status x = Sent then set_pc_status st (now_at env (tick w)) x else x)
        (property_commands (db w))) \<and>
    (prefix = ''action'' \<longrightarrow> r = Inr 204 \<and> property_commands (db w') = property_commands (db w) \<and>
      action_invocations (db w') = map (\<lambda>x. if ai_id x = i \<and> ai_product_id x = p \<and>
        ai_device_id x = pm_client_id msg \<and> ai_service_type x = sv \<and> ai_status x = Sent
        then set_ai_status st (now_at env (tick w)) x else x) (action_invocations (db w)))"
proof -
  note topic = set_reply_topic [OF assms(2-6)]
  have dev: "validate_identifier (pm_client_id msg) f = Inr ()" for f
    using assms(3) by (simp add: validate_identifier_ok)
  have ids: "split_once CHR '':'' (mr_id reply) = Some (prefix, show_int i)" if "CHR '':'' \<notin> set prefix"
    using command_id_split [OF that] assms(9) by simp
  have i: "parse_i64 (show_int i) = Some i" using assms(10,11) by (rule parse_i64_show_int)
  let ?now = "now_at env (tick w)" and ?dv = "pm_client_id msg"
  show ?thesis
  proof (rule conjI; rule impI)
    assume pc: "prefix = ''property''"
    have "service_set_reply L cfg msg env w = (Inr 204, w\<lparr>tick := Suc (tick w), db := snd (move_commands
        (\<lambda>r. pc_id r \<in> set [i] \<and> pc_product_id r = p \<and> pc_device_id r = ?dv) Sent st ?now (db w))\<rparr>)"
      using ids i assms(1,7,8,12) unfolding service_set_reply_def topic dev pc
      by (simp add: prog_simps Let_def update_property_command_status_def db_exec_reliable case_prod_beta)
    with assms(13) have w': "r = Inr 204" "db w' = snd (move_commands
        (\<lambda>r. pc_id r \<in> set [i] \<and> pc_product_id r = p \<and> pc_device_id r = ?dv) Sent st ?now (db w))" by auto
    show "r = Inr 204 \<and> action_invocations (db w') = action_invocations (db w) \<and>
      property_commands (db w') = map (\<lambda>x. if pc_id x = i \<and> pc_product_id x = p \<and>
        pc_device_id x = ?dv \<and> pc_status x = Sent then set_pc_status st ?now x else x) (property_commands (db w))"
      by (simp add: w' move_commands_def update_where_def Let_def conj_assoc)
  next
    assume act: "prefix = ''action''"
    have "service_set_reply L cfg msg env w = (Inr 204, w\<lparr>tick := Suc (tick w), db := snd (move_actions
        (\<lambda>r. ai_id r = i \<and> ai_product_id r = p \<and> ai_device_id r = ?dv \<and> ai_service_type r = sv) Sent st ?now (db w))\<rparr>)"
      using ids i assms(1,7,8,12) unfolding service_set_reply_def topic dev act
      by (simp add: prog_simps Let_def update_action_invocation_status_def db_exec_reliable case_prod_beta)
    with assms(13) have w': "r = Inr 204" "db w' = snd (move_actions
        (\<lambda>r. ai_id r = i \<and> ai_product_id r = p \<and> ai_device_id r = ?dv \<and> ai_service_type r = sv) Sent st ?now (db w))"
      by auto
    show "r = Inr 204 \<and> property_commands (db w') = property_commands (db w) \<and>
      action_invocations (db w') = map (\<lambda>x. if ai_id x = i \<and> ai_product_id x = p \<and> ai_device_id x = ?dv \<and>
        ai_service_type x = sv \<and> ai_status x = Sent then set_ai_status st ?now x else x) (action_invocations (db w))"
      by (simp add: w' move_actions_def update_where_def Let_def conj_assoc)
  qed
qed

theorem reply_settles_its_command_witness:
  "fst (service_set_reply sample_libs sample_app (sample_message ''p/d/thing/service/property/set_reply'' ''property:7'')
     all_done empty_world) = Inr 204"
proof -
  let ?msg = "sample_message ''p/d/thing/service/property/set_reply'' ''property:7''"
  let ?m = "service_set_reply sample_libs sample_app ?msg :: (unit, _, _) io"
  obtain r w' where run: "?m all_done empty_world = (r, w')" by fastforce
  have "mp_id (command_payload ''property'' 7 JNull) = ''property:7''"
    by code_simp
  then have "r = Inr 204"
    using reply_settles_its_command [OF reliable_all_done sample_identifiers(1), of ?msg "''property''" sample_libs
      "''property:7''" "\<lparr>mr_id = ''property:7'', mr_code = 200, mr_data = None\<rparr>" "''property''" 7 JNull Success
      sample_app empty_world r w'] run
    by (simp add: sample_message_def sample_identifiers sample_libs_def decode_payload_def i64_min_def i64_max_def)
  with run show ?thesis by simp
qed

end
