(* ===== verification/Charts.thy ===== *)
theory Charts
  imports Telemetry Topics
begin

text \<open>
  The chart endpoints of \<open>backend/src/api/admin_handlers.rs\<close>: discovery of numeric properties and
  down-sampled series. \<open>parse_rfc3339\<close> stands for \<open>OffsetDateTime::parse\<close> of the \<open>time\<close> crate.
\<close>

definition MAX_SERIES_POINTS :: int where "MAX_SERIES_POINTS = 1000"
definition MAX_SERIES_KEYS :: nat where "MAX_SERIES_KEYS = 5"
definition DEFAULT_KEY_LOOKBACK_DAYS :: int where "DEFAULT_KEY_LOOKBACK_DAYS = 30"
definition MAX_SERIES_KEY_LENGTH :: nat where "MAX_SERIES_KEY_LENGTH = 128"

definition series_stride :: "int \<Rightarrow> int" where
  "series_stride n =
     (let cap = MAX_SERIES_POINTS; stride = (n + cap - 1) sdiv cap in max stride 1)"

fun normalize_keys :: "string list \<Rightarrow> string list \<Rightarrow> api_error + string list" where
  "normalize_keys normalized [] = Inr normalized"
| "normalize_keys normalized (key # keys) =
     (if key = [] \<or> MAX_SERIES_KEY_LENGTH < length key
      then Inl (bad_request ''keys must contain 1 to 5 non-empty property keys'')
      else normalize_keys (if key \<in> set normalized then normalized else normalized @ [key]) keys)"

definition normalize_series_keys :: "string list \<Rightarrow> api_error + string list" where
  "normalize_series_keys keys =
     (case normalize_keys [] keys of
        Inl e \<Rightarrow> Inl e
      | Inr normalized \<Rightarrow>
          if normalized = [] \<or> MAX_SERIES_KEYS < length normalized
          then Inl (bad_request ''keys must contain 1 to 5 non-empty property keys'')
          else Inr normalized)"

definition parse_series_range ::
  "(string \<Rightarrow> instant option) \<Rightarrow> string \<Rightarrow> string \<Rightarrow> api_error + (instant \<times> instant)" where
  "parse_series_range parse_rfc3339 start_time end_time =
     (let err = Inl (bad_request ''invalid start_time or end_time'')
      in case parse_rfc3339 start_time of
           None \<Rightarrow> err
         | Some start \<Rightarrow>
             (case parse_rfc3339 end_time of
                None \<Rightarrow> err
              | Some fin \<Rightarrow> if start \<ge> fin then err else Inr (start, fin)))"

record property_chart_keys_query =
  kq_product_id :: string
  kq_device_id :: string
  kq_lookback_days :: "int option"

definition get_property_history_keys ::
  "property_chart_keys_query \<Rightarrow> ('s, api_error, property_chart_key list) io" where
  "get_property_history_keys query =
     bindE (lift_res (validate_identifier (kq_product_id query) ''product_id'')) (\<lambda>_.
     bindE (lift_res (validate_identifier (kq_device_id query) ''device_id'')) (\<lambda>_.
     let lookback_days = (case kq_lookback_days query of Some n \<Rightarrow> n | None \<Rightarrow> DEFAULT_KEY_LOOKBACK_DAYS)
     in if \<not> (1 \<le> lookback_days \<and> lookback_days \<le> 366)
        then throw (bad_request ''lookback_days must be between 1 and 366'')
        else map_err map_db_err
               (query_property_chart_keys (kq_product_id query) (kq_device_id query) lookback_days)))"

record property_series_query =
  sq_product_id :: string
  sq_device_id :: string
  sq_keys :: "string list"
  sq_start_time :: string
  sq_end_time :: string

record property_series_view =
  sv_key :: string
  sv_total_points :: int
  sv_downsampled :: bool
  sv_stride :: int
  sv_points :: "property_series_point list"

definition series_of_key ::
  "property_series_query \<Rightarrow> instant \<Rightarrow> instant \<Rightarrow> string \<Rightarrow> ('s, api_error, property_series_view) io" where
  "series_of_key query start fin key =
     bindE (map_err map_db_err (count_property_series_points (sq_product_id query) (sq_device_id query) key start fin)) (\<lambda>total.
     let stride = series_stride total; downsampled = stride > 1
     in bindE (map_err map_db_err (query_property_series_points (sq_product_id query) (sq_device_id query) key
          start fin stride MAX_SERIES_POINTS)) (\<lambda>points.
        ret \<lparr>sv_key = key, sv_total_points = total, sv_downsampled = downsampled, sv_stride = stride,
             sv_points = points\<rparr>))"

fun series_of_keys ::
  "property_series_query \<Rightarrow> instant \<Rightarrow> instant \<Rightarrow> string list \<Rightarrow> ('s, api_error, property_series_view list) io" where
  "series_of_keys query start fin [] = ret []"
| "series_of_keys query start fin (key # keys) =
     bindE (series_of_key query start fin key) (\<lambda>view.
     bindE (series_of_keys query start fin keys) (\<lambda>views. ret (view # views)))"

definition get_property_history_series ::
  "(string \<Rightarrow> instant option) \<Rightarrow> property_series_query \<Rightarrow> ('s, api_error, property_series_view list) io" where
  "get_property_history_series parse_rfc3339 query =
     bindE (lift_res (validate_identifier (sq_product_id query) ''product_id'')) (\<lambda>_.
     bindE (lift_res (validate_identifier (sq_device_id query) ''device_id'')) (\<lambda>_.
     bindE (lift_res (normalize_series_keys (sq_keys query))) (\<lambda>keys.
     bindE (lift_res (parse_series_range parse_rfc3339 (sq_start_time query) (sq_end_time query))) (\<lambda>(start, fin).
     series_of_keys query start fin keys))))"

section \<open>Down-sampling\<close>

lemma every_nth_1: "every_nth 1 rows = rows"
  unfolding every_nth_def by (simp add: filter_True case_prod_beta)

text \<open>How many of the first \<open>n\<close> indices are multiples of a positive stride.\<close>

lemma length_every_nth:
  assumes "0 < stride"
  shows "int (length (every_nth stride rows)) = (int (length rows) + stride - 1) div stride"
proof (induction rows rule: rev_induct)
  case Nil
  show ?case using assms by (simp add: every_nth_def)
next
  case (snoc x xs)
  let ?n = "int (length xs)"
  have step: "(?n + 1 + stride - 1) div stride = (?n + stride - 1) div stride + (if ?n mod stride = 0 then 1 else 0)"
  proof (cases "?n mod stride = 0")
    case True
    then obtain q where q: "?n = stride * q" by auto
    have "(?n + stride - 1) div stride = q"
      using assms by (intro int_div_pos_eq [of _ _ _ "stride - 1"]) (simp_all add: q)
    moreover have "(?n + 1 + stride - 1) div stride = q + 1" using assms by (simp add: q)
    ultimately show ?thesis using True by simp
  next
    case False
    define m where "m = ?n mod stride"
    define q where "q = ?n div stride"
    have n: "?n = stride * q + m" by (simp add: m_def q_def)
    have m: "0 < m" "m < stride" using False pos_mod_sign [OF assms, of ?n] pos_mod_bound [OF assms, of ?n] by (simp_all add: m_def)
    have "(?n + stride - 1) div stride = q + 1"
      using m by (intro int_div_pos_eq [of _ _ _ "m - 1"]) (simp_all add: n algebra_simps)
    moreover have "(?n + 1 + stride - 1) div stride = q + 1"
      using m by (intro int_div_pos_eq [of _ _ _ m]) (simp_all add: n algebra_simps)
    ultimately show ?thesis using False by simp
  qed
  have "enumerate 0 (xs @ [x]) = enumerate 0 xs @ [(length xs, x)]"
    by (simp add: enumerate_append_eq)
  then have "int (length (every_nth stride (xs @ [x]))) =
      int (length (every_nth stride xs)) + (if ?n mod stride = 0 then 1 else 0)"
    by (simp add: every_nth_def)
  with snoc step show ?case by (simp add: algebra_simps)
qed

lemma series_stride_pos:
  assumes "0 \<le> n"
  shows "1 \<le> series_stride n" and "series_stride n = 1 \<longleftrightarrow> n \<le> MAX_SERIES_POINTS"
    and "n \<le> series_stride n * MAX_SERIES_POINTS"
proof -
  have q: "(n + MAX_SERIES_POINTS - 1) sdiv MAX_SERIES_POINTS = (n + 999) div 1000"
    using assms by (simp add: MAX_SERIES_POINTS_def signed_divide_int_def)
  show "1 \<le> series_stride n" by (simp add: series_stride_def Let_def)
  show "series_stride n = 1 \<longleftrightarrow> n \<le> MAX_SERIES_POINTS" "n \<le> series_stride n * MAX_SERIES_POINTS"
    using assms unfolding series_stride_def Let_def q by (auto simp: MAX_SERIES_POINTS_def max_def)
qed

definition series_rows ::
  "property_series_query \<Rightarrow> instant \<Rightarrow> instant \<Rightarrow> string \<Rightarrow> database \<Rightarrow> property_history list" where
  "series_rows query start fin key d =
     sort_key (\<lambda>r. (effective_time r, ph_id r))
       (filter (push_series_filter (sq_product_id query) (sq_device_id query) key start fin) (property_histories d))"

lemma length_series_points_bound:
  assumes "0 \<le> n" "n = int (length rows)"
  shows "int (length (every_nth (series_stride n) rows)) \<le> MAX_SERIES_POINTS"
proof -
  let ?s = "series_stride n"
  have s: "1 \<le> ?s" "n \<le> ?s * MAX_SERIES_POINTS" using series_stride_pos [OF assms(1)] by simp_all
  have "(n + ?s - 1) div ?s \<le> (?s * MAX_SERIES_POINTS + (?s - 1)) div ?s"
    using s by (intro zdiv_mono1) simp_all
  also have "\<dots> = MAX_SERIES_POINTS"
    using s by (intro int_div_pos_eq [of _ _ _ "?s - 1"]) simp_all
  finally have "(n + ?s - 1) div ?s \<le> MAX_SERIES_POINTS" .
  with s assms(2) show ?thesis by (simp add: length_every_nth)
qed

text \<open>The selected rows by index: the point with number \<open>i\<close> is the row with number \<open>i * stride\<close>.\<close>

lemma every_nth_snoc:
  "every_nth stride (xs @ [x]) = every_nth stride xs @ (if int (length xs) mod stride = 0 then [x] else [])"
  by (simp add: every_nth_def enumerate_append_eq)

lemma nth_every_nth:
  assumes "0 < stride" "i < length (every_nth (int stride) rows)"
  shows "i * stride < length rows \<and> every_nth (int stride) rows ! i = rows ! (i * stride)"
  using assms(2)
proof (induction rows rule: rev_induct)
  case (snoc x xs)
  show ?case
  proof (cases "i < length (every_nth (int stride) xs)")
    case True
    with snoc.IH show ?thesis by (auto simp: every_nth_snoc nth_append)
  next
    case False
    with snoc.prems have m: "int (length xs) mod int stride = 0" and i: "i = length (every_nth (int stride) xs)"
      by (auto simp: every_nth_snoc split: if_splits)
    from m obtain q where q: "int (length xs) = int stride * q" by auto
    have "(int stride * q + int stride - 1) div int stride = q"
      using assms(1) by (intro int_div_pos_eq [of _ _ _ "int stride - 1"]) simp_all
    then have "int i = q" using length_every_nth [of "int stride" xs] assms(1) i q by simp
    then have "int (i * stride) = int (length xs)" using q by simp
    then have "i * stride = length xs" by linarith
    with m i show ?thesis by (simp add: every_nth_snoc)
  qed
qed (simp add: every_nth_def)

definition point_of :: "string \<Rightarrow> property_history \<Rightarrow> property_series_point" where
  "point_of key r = \<lparr>sp_time = effective_time r, sp_value = the (json_get (ph_properties r) key)\<rparr>"

lemma series_of_key_run:
  assumes "reliable env" and "rows = series_rows query start fin key (db w)"
    and "s = series_stride (int (length rows))"
  shows "series_of_key query start fin key env w =
      (Inr \<lparr>sv_key = key, sv_total_points = int (length rows), sv_downsampled = s > 1, sv_stride = s,
            sv_points = map (point_of key) (every_nth s rows)\<rparr>, w\<lparr>tick := Suc (Suc (tick w))\<rparr>)"
proof -
  let ?d = "db w"
  let ?pt = "\<lambda>r. \<lparr>sp_time = effective_time r, sp_value =
      (case json_get (ph_properties r) key of Some v \<Rightarrow> v | None \<Rightarrow> JNull)\<rparr>"
  have cnt: "length (filter (push_series_filter (sq_product_id query) (sq_device_id query) key start fin)
      (property_histories ?d)) = length rows"
    by (simp add: assms(2) series_rows_def)
  have s: "1 \<le> s" using series_stride_pos [of "int (length rows)"] assms(3) by simp
  have le: "length (every_nth s rows) \<le> 1000"
    using length_series_points_bound [OF _ refl, of rows] assms(3) by (simp add: MAX_SERIES_POINTS_def)
  have "set (every_nth s rows) \<subseteq> set rows"
    unfolding every_nth_def by (auto simp: in_set_enumerate_eq)
  then have "?pt r = point_of key r" if "r \<in> set (every_nth s rows)" for r
    using that assms(2) by (auto simp: series_rows_def push_series_filter_def point_of_def split: option.splits)
  then have "map ?pt (every_nth s rows) = map (point_of key) (every_nth s rows)" by simp
  then have "series_points (sq_product_id query) (sq_device_id query) key start fin s MAX_SERIES_POINTS ?d =
      Some (map (point_of key) (every_nth s rows))"
    using s le by (simp add: series_points_def Let_def MAX_SERIES_POINTS_def assms(2) series_rows_def)
  then show ?thesis
    using assms(1,3)
    by (simp add: series_of_key_def count_property_series_points_def query_property_series_points_def
      query_count_def prog_simps reliable_simps cnt Let_def)
qed

text \<open>
  C38: a chart series has at most 1000 points and still covers the whole range. When the database answers and no
  record arrives between the query that counts and the one that reads, the stride is the number of matching
  records divided by 1000, rounded up; the point with number \<open>i\<close> carries the time and the value of the matching
  record with number \<open>i * stride\<close> in time order, so the first record is shown and less than a stride of
  records follows the last point. The limit of the query never cuts the series short, and it is reported as
  down-sampled exactly if more than 1000 records match; otherwise every record is a point.
\<close>

theorem chart_series_bounded:
  assumes "reliable env" and "rows = series_rows query start fin key (db w)"
    and "stride = max 1 ((length rows + 999) div 1000)"
  shows "\<exists>view w'. series_of_key query start fin key env w = (Inr view, w') \<and>
     sv_total_points view = int (length rows) \<and> sv_stride view = int stride \<and>
     length (sv_points view) \<le> 1000 \<and> length rows \<le> length (sv_points view) * stride \<and>
     (\<forall>i<length (sv_points view). i * stride < length rows \<and>
        sv_points view ! i = \<lparr>sp_time = effective_time (rows ! (i * stride)),
          sp_value = the (json_get (ph_properties (rows ! (i * stride))) key)\<rparr>) \<and>
     (sv_downsampled view \<longleftrightarrow> 1000 < length rows)"
proof -
  let ?n = "int (length rows)"
  have "(?n + MAX_SERIES_POINTS - 1) sdiv MAX_SERIES_POINTS = (?n + 999) div 1000"
    by (simp add: MAX_SERIES_POINTS_def signed_divide_int_def)
  moreover have "(?n + 999) div 1000 = int ((length rows + 999) div 1000)" by (simp add: zdiv_int)
  ultimately have s: "series_stride ?n = int stride"
    by (simp add: series_stride_def Let_def assms(3) max_def)
  have pos: "0 < stride" and down: "Suc 0 < stride \<longleftrightarrow> 1000 < length rows" by (auto simp: assms(3))
  have le: "length (every_nth (int stride) rows) \<le> 1000"
    using length_series_points_bound [OF _ refl, of rows] s by (simp add: MAX_SERIES_POINTS_def)
  have "?n \<le> ((?n + int stride - 1) div int stride) * int stride"
    using pos pos_mod_bound [of "int stride" "?n + int stride - 1"]
      div_mult_mod_eq [of "?n + int stride - 1" "int stride"] by linarith
  then have "?n \<le> int (length (every_nth (int stride) rows) * stride)"
    using length_every_nth [of "int stride" rows] pos by simp
  then have cover: "length rows \<le> length (every_nth (int stride) rows) * stride" by linarith
  have nth: "i * stride < length rows \<and> map (point_of key) (every_nth (int stride) rows) ! i =
      \<lparr>sp_time = effective_time (rows ! (i * stride)), sp_value = the (json_get (ph_properties (rows ! (i * stride))) key)\<rparr>"
    if "i < length (every_nth (int stride) rows)" for i
    using nth_every_nth [OF pos that] that by (simp add: point_of_def)
  show ?thesis
    by (rule exI, rule exI, rule conjI [OF series_of_key_run [OF assms(1,2) s [symmetric]]])
       (use nth in \<open>simp add: le cover down\<close>)
qed

definition busy_history :: "property_history list" where
  "busy_history = map (\<lambda>i. \<lparr>ph_id = int i, ph_product_id = ''p'', ph_device_id = ''d'',
     ph_properties = JObject [(''temp'', JNumber (PosInt i))], ph_reported_time = None, ph_created_time = int i\<rparr>) [0..<1500]"

definition temp_query :: property_series_query where
  "temp_query = \<lparr>sq_product_id = ''p'', sq_device_id = ''d'', sq_keys = [''temp''], sq_start_time = ''a'', sq_end_time = ''b''\<rparr>"

lemma busy_rows:
  assumes "property_histories d = busy_history"
  shows "length (series_rows temp_query 0 2000 ''temp'' d) = 1500"
proof -
  have "filter (push_series_filter ''p'' ''d'' ''temp'' 0 2000) busy_history = busy_history"
    by (rule filter_True)
       (auto simp: busy_history_def push_series_filter_def effective_time_def json_get_def is_json_number_def)
  then show ?thesis by (simp add: series_rows_def temp_query_def assms) (simp add: busy_history_def)
qed

theorem chart_series_bounded_witness:
  "\<exists>view w'. series_of_key temp_query 0 2000 ''temp'' all_done
      (empty_world\<lparr>db := empty_db\<lparr>property_histories := busy_history\<rparr>\<rparr>) = (Inr view, w') \<and>
    sv_downsampled view \<and> sv_stride view = 2 \<and> length (sv_points view) = 750"
proof -
  let ?w = "empty_world\<lparr>db := empty_db\<lparr>property_histories := busy_history\<rparr>\<rparr>"
  let ?rows = "series_rows temp_query 0 2000 ''temp'' (db ?w)"
  have n: "length ?rows = 1500" by (rule busy_rows) simp
  have "2 = max 1 ((length ?rows + 999) div 1000)" unfolding n by simp
  from chart_series_bounded [OF reliable_all_done refl this] obtain view w' where
    run: "series_of_key temp_query 0 2000 ''temp'' all_done ?w = (Inr view, w')"
    and v: "sv_stride view = 2" "sv_downsampled view" "1500 \<le> length (sv_points view) * 2"
    and nth: "\<forall>i<length (sv_points view). i * 2 < 1500"
    unfolding n by auto
  have "\<not> 750 < length (sv_points view)" using nth by auto
  with v(3) have "length (sv_points view) = 750" by simp
  with run v show ?thesis by blast
qed

end
