(* ===== verification/Registry.thy ===== *)
theory Registry
  imports Telemetry Topics
begin

text \<open>
  Products and device certificates: \<open>backend/src/db/product.rs\<close>, \<open>backend/src/db/cert_issue.rs\<close>,
  \<open>backend/src/api/product_handlers.rs\<close> and \<open>backend/src/api/ca_handlers.rs\<close>. The record \<open>ca_libs\<close>
  holds what the certificate handlers get from the CA: its files and the generator (theory \<open>Ca\<close>). PostgreSQL's
  \<open>ILIKE\<close> is a parameter. Messages in Chinese are given by their UTF-8 bytes.
\<close>

definition utf8 :: "nat list \<Rightarrow> string" where
  "utf8 bytes = map char_of bytes"

section \<open>Trimming\<close>

text \<open>The UTF-8 forms of the Unicode white space that \<open>str::trim\<close> removes.\<close>

definition white_space :: "string list" where
  "white_space =
     map utf8 ([[9], [10], [11], [12], [13], [32], [194, 133], [194, 160], [225, 154, 128]] @
       map (\<lambda>n. [226, 128, n]) [128, 129, 130, 131, 132, 133, 134, 135, 136, 137, 138, 168, 169, 175] @
       [[226, 129, 159], [227, 128, 128]])"

function trim_seqs :: "string list \<Rightarrow> string \<Rightarrow> string" where
  "trim_seqs ps s =
     (case find (\<lambda>p. p \<noteq> [] \<and> starts_with s p) ps of
        None \<Rightarrow> s
      | Some p \<Rightarrow> trim_seqs ps (drop (length p) s))"
  by pat_completeness auto
termination
  by (relation "measure (\<lambda>(ps, s). length s)") (auto simp: find_Some_iff starts_with_iff)

declare trim_seqs.simps [simp del]

definition str_trim :: "string \<Rightarrow> string" where
  "str_trim s = rev (trim_seqs (map rev white_space) (rev (trim_seqs white_space s)))"

section \<open>Products\<close>

record create_product_request =
  cp_name :: string
  cp_model_no :: string
  cp_description :: "string option"

record update_product_request =
  up_name :: string
  up_description :: string
  up_auto_provisioning :: bool

text \<open>The unique index on \<open>model_no\<close> refuses a second row; the sequence advances all the same.\<close>

definition create_product_sql ::
  "create_product_request \<Rightarrow> instant \<Rightarrow> database \<Rightarrow> (io_error + product) \<times> database" where
  "create_product_sql req now d =
     (let i = next_product_id d;
          row = \<lparr>pt_id = i, pt_name = cp_name req, pt_model_no = cp_model_no req,
                 pt_description = cp_description req, pt_status = PsOnline, pt_auto_provisioning = False,
                 pt_created_at = now, pt_updated_at = now\<rparr>
      in if list_ex (\<lambda>p. pt_model_no p = cp_model_no req) (products d)
         then (Inl UniqueViolation, d\<lparr>next_product_id := i + 1\<rparr>)
         else (Inr row, d\<lparr>products := products d @ [row], next_product_id := i + 1\<rparr>))"

definition create_product :: "create_product_request \<Rightarrow> ('s, io_error, product) io" where
  "create_product req = bindE (db_exec (create_product_sql req)) lift_res"

definition get_product :: "int \<Rightarrow> ('s, io_error, product option) io" where
  "get_product i = db_query (\<lambda>now d. find (\<lambda>p. pt_id p = i) (products d))"

definition get_product_by_model_no :: "string \<Rightarrow> ('s, io_error, product option) io" where
  "get_product_by_model_no model_no = db_query (\<lambda>now d. find (\<lambda>p. pt_model_no p = model_no) (products d))"

definition update_product_sql ::
  "int \<Rightarrow> update_product_request \<Rightarrow> instant \<Rightarrow> database \<Rightarrow> product option \<times> database" where
  "update_product_sql i req now d =
     (let f = (\<lambda>p. p\<lparr>pt_name := up_name req, pt_description := Some (up_description req),
                     pt_auto_provisioning := up_auto_provisioning req\<rparr>)
      in (map_option f (find (\<lambda>p. pt_id p = i) (products d)),
          d\<lparr>products := update_where (\<lambda>p. pt_id p = i) f (products d)\<rparr>))"

definition update_product :: "int \<Rightarrow> update_product_request \<Rightarrow> ('s, io_error, product option) io" where
  "update_product i req = db_exec (update_product_sql i req)"

definition add_search_filter :: "(string \<Rightarrow> string \<Rightarrow> bool) \<Rightarrow> string option \<Rightarrow> product \<Rightarrow> bool" where
  "add_search_filter ilike search p \<longleftrightarrow>
     (case search of
        None \<Rightarrow> True
      | Some s \<Rightarrow> let pattern = ''%'' @ s @ ''%'' in ilike (pt_name p) pattern \<or> ilike (pt_model_no p) pattern)"

definition list_products ::
  "(string \<Rightarrow> string \<Rightarrow> bool) \<Rightarrow> string option \<Rightarrow> int \<Rightarrow> int \<Rightarrow> ('s, io_error, product list \<times> int) io" where
  "list_products ilike search page page_size =
     bindE (query_page (\<lambda>d. sort_key (\<lambda>p. - pt_updated_at p) (filter (add_search_filter ilike search) (products d)))
       page page_size) (\<lambda>rows.
     bindE (query_count (\<lambda>d. filter (add_search_filter ilike search) (products d))) (\<lambda>total.
     ret (rows, total)))"

definition MAX_PRODUCT_NAME_LENGTH :: nat where "MAX_PRODUCT_NAME_LENGTH = 128"

definition check_product_name :: "string \<Rightarrow> api_error + unit" where
  "check_product_name raw =
     (let name = str_trim raw
      in if name = [] then Inl (bad_request ''name must not be empty'')
         else if MAX_PRODUCT_NAME_LENGTH < length name
         then Inl (bad_request (''name must not exceed '' @ show_nat MAX_PRODUCT_NAME_LENGTH @ '' characters''))
         else Inr ())"

definition validate_create_product_request :: "create_product_request \<Rightarrow> api_error + unit" where
  "validate_create_product_request req =
     (case check_product_name (cp_name req) of
        Inl e \<Rightarrow> Inl e
      | Inr _ \<Rightarrow> validate_identifier (cp_model_no req) ''model_no'')"

definition validate_update_product_request :: "update_product_request \<Rightarrow> api_error + unit" where
  "validate_update_product_request req = check_product_name (up_name req)"

definition create_product_handler :: "create_product_request \<Rightarrow> ('s, api_error, nat \<times> product) io" where
  "create_product_handler req =
     bindE (lift_res (validate_create_product_request req)) (\<lambda>_.
     matchE (create_product req) (\<lambda>product. ret (201, product))
       (\<lambda>e. if e = UniqueViolation
            then throw (conflict (utf8 [228, 186, 167, 229, 147, 129, 229, 158, 139, 229, 143, 183, 231, 188, 150,
                   229, 143, 183, 229, 183, 178, 229, 173, 152, 229, 156, 168]))
            else throw (internal ''Database operation failed'')))"

definition update_product_handler :: "int \<Rightarrow> update_product_request \<Rightarrow> ('s, api_error, product) io" where
  "update_product_handler i req =
     bindE (lift_res (validate_update_product_request req)) (\<lambda>_.
     matchE (update_product i req)
       (\<lambda>r. case r of Some product \<Rightarrow> ret product | None \<Rightarrow> throw (not_found ''Product not found''))
       (\<lambda>_. throw (internal ''Database operation failed'')))"

definition get_product_handler :: "int \<Rightarrow> ('s, api_error, product) io" where
  "get_product_handler i =
     matchE (get_product i)
       (\<lambda>r. case r of Some product \<Rightarrow> ret product | None \<Rightarrow> throw (not_found ''Product not found''))
       (\<lambda>_. throw (internal ''Database operation failed''))"

section \<open>Certificates\<close>

definition cert_status_try_from :: "int \<Rightarrow> cert_status option" where
  "cert_status_try_from v =
     (if v = 0 then Some Normal else if v = 1 then Some InValid else if v = 2 then Some Revoked else None)"

definition cert_create_sql :: "cert_issue \<Rightarrow> instant \<Rightarrow> database \<Rightarrow> unit \<times> database" where
  "cert_create_sql cert now d =
     (let i = next_cert_issue_id d
      in ((), d\<lparr>cert_issues := cert_issues d @ [cert\<lparr>ci_id := i, ci_created_at := now\<rparr>],
               next_cert_issue_id := i + 1\<rparr>))"

definition cert_create :: "cert_issue \<Rightarrow> ('s, io_error, unit) io" where
  "cert_create cert = db_exec (cert_create_sql cert)"

text \<open>\<open>ORDER BY id DESC\<close>, first row.\<close>

definition newest_cert :: "string \<Rightarrow> string \<Rightarrow> database \<Rightarrow> cert_issue option" where
  "newest_cert product_id device_id d =
     (case sort_key (\<lambda>c. - ci_id c)
         (filter (\<lambda>c. ci_product_id c = product_id \<and> ci_device_id c = device_id) (cert_issues d)) of
        [] \<Rightarrow> None
      | c # _ \<Rightarrow> Some c)"

definition find_by_device_id :: "string \<Rightarrow> string \<Rightarrow> ('s, io_error, cert_issue option) io" where
  "find_by_device_id product_id device_id = db_query (\<lambda>now d. newest_cert product_id device_id d)"

definition set_cert_status ::
  "(cert_issue \<Rightarrow> bool) \<Rightarrow> cert_status \<Rightarrow> instant \<Rightarrow> database \<Rightarrow> unit \<times> database" where
  "set_cert_status P st now d =
     ((), d\<lparr>cert_issues := update_where (\<lambda>c. P c \<and> ci_status c = Normal) (\<lambda>c. c\<lparr>ci_status := st\<rparr>) (cert_issues d)\<rparr>)"

definition cert_update_status :: "string \<Rightarrow> string \<Rightarrow> cert_status \<Rightarrow> ('s, io_error, unit) io" where
  "cert_update_status product_id device_id st =
     db_exec (set_cert_status (\<lambda>c. ci_product_id c = product_id \<and> ci_device_id c = device_id) st)"

definition cert_update_status_by_id :: "int \<Rightarrow> cert_status \<Rightarrow> ('s, io_error, unit) io" where
  "cert_update_status_by_id i st = db_exec (set_cert_status (\<lambda>c. ci_id c = i) st)"

definition cert_find_by_id :: "int \<Rightarrow> ('s, io_error, cert_issue option) io" where
  "cert_find_by_id i = db_query (\<lambda>now d. find (\<lambda>c. ci_id c = i) (cert_issues d))"

definition cert_list :: "string option \<Rightarrow> string option \<Rightarrow> int \<Rightarrow> int \<Rightarrow> ('s, io_error, cert_issue list) io" where
  "cert_list product_id device_id page page_size =
     query_page (\<lambda>d. sort_key (\<lambda>c. - ci_created_at c)
       (filter (\<lambda>c. opt_eq product_id (ci_product_id c) \<and> opt_eq device_id (ci_device_id c)) (cert_issues d)))
       page page_size"

record issue_cert_request =
  ir_product_id :: string
  ir_device_id :: string
  ir_force :: bool
  ir_start_at :: instant
  ir_end_at :: instant

record issue_cert_response =
  is_cert_pem :: string
  is_key_pem :: string

record update_cert_status_request =
  us_id :: "int option"
  us_product_id :: string
  us_device_id :: string
  us_status :: int

record ca_libs =
  read_ca_cert :: "string option"
  read_ca_key :: "string option"
  gen_issue_cert :: "string \<Rightarrow> string \<Rightarrow> string \<Rightarrow> string \<Rightarrow> instant \<Rightarrow> instant \<Rightarrow> (string \<times> string) option"

definition issue_cert_handler :: "ca_libs \<Rightarrow> issue_cert_request \<Rightarrow> ('s, api_error, issue_cert_response) io" where
  "issue_cert_handler L issue_req =
     bindE (lift_res (validate_identifier (ir_product_id issue_req) ''product_id'')) (\<lambda>_.
     bindE (lift_res (validate_identifier (ir_device_id issue_req) ''device_id'')) (\<lambda>_.
     bindE (if ir_force issue_req then ret False
            else bindE (map_err map_db_err (find_by_device_id (ir_product_id issue_req) (ir_device_id issue_req))) (\<lambda>found.
                 case found of
                   Some cert \<Rightarrow>
                     if ci_status cert = Normal
                     then bindE now_utc (\<lambda>now. ret (ci_end_at cert > now))
                     else ret False
                 | None \<Rightarrow> ret False)) (\<lambda>blocked.
     if blocked then throw (bad_request ''Certificate already exists and is valid'')
     else
       bindE (ok_or (internal ''could not get CA file'') (read_ca_cert L)) (\<lambda>ca_cert_pem.
       bindE (ok_or (internal ''could not get CA file'') (read_ca_key L)) (\<lambda>ca_key_pem.
       bindE (ok_or (internal ''Certificate generation failed'')
         (gen_issue_cert L ca_cert_pem ca_key_pem (ir_product_id issue_req) (ir_device_id issue_req)
           (ir_start_at issue_req) (ir_end_at issue_req))) (\<lambda>(cert_pem, key_pem).
       bindE now_utc (\<lambda>now.
       bindE (map_err map_db_err (cert_create
         \<lparr>ci_id = 0, ci_product_id = ir_product_id issue_req, ci_device_id = ir_device_id issue_req,
          ci_pub_cert = cert_pem, ci_start_at = ir_start_at issue_req, ci_end_at = ir_end_at issue_req,
          ci_status = Normal, ci_created_at = now\<rparr>)) (\<lambda>_.
       bindE (map_err map_db_err (device_upsert (ir_product_id issue_req) (ir_device_id issue_req) Manual)) (\<lambda>_.
       ret \<lparr>is_cert_pem = cert_pem, is_key_pem = key_pem\<rparr>)))))))))"

definition cert_missing :: api_error where
  "cert_missing = not_found (utf8 [232, 175, 129, 228, 185, 166, 228, 184, 141, 229, 173, 152, 229, 156, 168])"

definition cert_not_normal :: api_error where
  "cert_not_normal = bad_request (utf8 [229, 143, 170, 232, 131, 189, 230, 147, 141, 228, 189, 156, 32, 78, 111, 114,
     109, 97, 108, 32, 231, 138, 182, 230, 128, 129, 231, 154, 132, 232, 175, 129, 228, 185, 166])"

definition update_cert_status_handler :: "update_cert_status_request \<Rightarrow> ('s, api_error, nat) io" where
  "update_cert_status_handler update_req =
     bindE (ok_or (bad_request (utf8 [230, 151, 160, 230, 149, 136, 231, 154, 132, 232, 175, 129, 228, 185, 166,
         231, 138, 182, 230, 128, 129])) (cert_status_try_from (us_status update_req))) (\<lambda>target_status.
     if target_status = Normal
     then throw (bad_request (utf8 [228, 184, 141, 229, 133, 129, 232, 174, 184, 229, 176, 134, 232, 175, 129, 228, 185,
         166, 231, 138, 182, 230, 128, 129, 232, 174, 190, 231, 189, 174, 228, 184, 186, 32, 78, 111, 114, 109, 97, 108]))
     else
       case us_id update_req of
         Some cert_id \<Rightarrow>
           bindE (map_err map_db_err (cert_find_by_id cert_id)) (\<lambda>found.
           bindE (ok_or cert_missing found) (\<lambda>cert.
           if ci_status cert \<noteq> Normal then throw cert_not_normal
           else bindE (map_err map_db_err (cert_update_status_by_id cert_id target_status)) (\<lambda>_. ret 204)))
       | None \<Rightarrow>
           bindE (lift_res (validate_identifier (us_product_id update_req) ''product_id'')) (\<lambda>_.
           bindE (lift_res (validate_identifier (us_device_id update_req) ''device_id'')) (\<lambda>_.
           bindE (map_err map_db_err (find_by_device_id (us_product_id update_req) (us_device_id update_req))) (\<lambda>found.
           bindE (ok_or cert_missing found) (\<lambda>cert.
           if ci_status cert \<noteq> Normal then throw cert_not_normal
           else bindE (map_err map_db_err (cert_update_status (us_product_id update_req) (us_device_id update_req)
                  target_status)) (\<lambda>_. ret 204))))))"

definition list_certs_handler ::
  "string option \<Rightarrow> string option \<Rightarrow> int \<Rightarrow> int \<Rightarrow> ('s, api_error, cert_issue list) io" where
  "list_certs_handler product_id device_id page page_size =
     bindE (case product_id of Some pid \<Rightarrow> lift_res (validate_identifier pid ''product_id'') | None \<Rightarrow> ret ()) (\<lambda>_.
     bindE (case device_id of Some did \<Rightarrow> lift_res (validate_identifier did ''device_id'') | None \<Rightarrow> ret ()) (\<lambda>_.
     map_err map_db_err (cert_list product_id device_id page page_size)))"

definition get_cert_handler :: "int \<Rightarrow> ('s, api_error, cert_issue) io" where
  "get_cert_handler i =
     bindE (map_err map_db_err (cert_find_by_id i)) (\<lambda>cert. ok_or (not_found ''Certificate not found'') cert)"

definition get_ca_cert_handler :: "ca_libs \<Rightarrow> ('s, api_error, string) io" where
  "get_ca_cert_handler L = ok_or (internal ''could not get CA file'') (read_ca_cert L)"

section \<open>Every write of the registry\<close>

inductive registry_step :: "database \<Rightarrow> database \<Rightarrow> bool" where
  rs_create_product: "registry_step d (snd (create_product_sql req now d))"
| rs_update_product: "registry_step d (snd (update_product_sql i rq now d))"
| rs_device: "registry_step d (snd (device_upsert_sql p dv src now d))"
| rs_cert: "registry_step d (snd (cert_create_sql c now d))"
| rs_cert_status: "st \<noteq> Normal \<Longrightarrow> registry_step d (snd (set_cert_status P st now d))"

definition wf_registry :: "database \<Rightarrow> bool" where
  "wf_registry d \<longleftrightarrow>
     distinct (map pt_model_no (products d)) \<and>
     distinct (map pt_id (products d)) \<and> (\<forall>p\<in>set (products d). pt_id p < next_product_id d) \<and>
     distinct (map (\<lambda>r. (dv_product_id r, dv_device_id r)) (devices d)) \<and>
     distinct (map ci_id (cert_issues d)) \<and> (\<forall>c\<in>set (cert_issues d). ci_id c < next_cert_issue_id d)"

lemma registry_step_wf:
  assumes "registry_step d d'" "wf_registry d"
  shows "wf_registry d'"
  using assms(1)
proof cases
  case rs_create_product
  with assms(2) show ?thesis
    by (fastforce simp: wf_registry_def create_product_sql_def Let_def list_ex_iff)
next
  case rs_update_product
  with assms(2) show ?thesis
    by (auto simp: wf_registry_def update_product_sql_def Let_def map_update_where set_update_where)
next
  case rs_device
  with assms(2) show ?thesis
    by (auto simp: wf_registry_def device_upsert_sql_def Let_def list_ex_iff)
next
  case rs_cert
  with assms(2) show ?thesis
    by (fastforce simp: wf_registry_def cert_create_sql_def Let_def)
next
  case rs_cert_status
  with assms(2) show ?thesis
    by (auto simp: wf_registry_def set_cert_status_def map_update_where set_update_where)
qed

text \<open>A certificate row stays, and only a normal one changes its status, never to normal.\<close>

definition cert_kept :: "cert_issue \<Rightarrow> cert_issue \<Rightarrow> bool" where
  "cert_kept c c' \<longleftrightarrow> c'\<lparr>ci_status := ci_status c\<rparr> = c \<and> (ci_status c \<noteq> Normal \<longrightarrow> c' = c)"

lemma cert_kept_refl: "cert_kept c c"
  by (simp add: cert_kept_def)

lemma cert_kept_trans: "cert_kept a b \<Longrightarrow> cert_kept b c \<Longrightarrow> cert_kept a c"
  unfolding cert_kept_def by (cases a; cases b; cases c) auto

lemma registry_step_cert:
  assumes "registry_step d d'" "c \<in> set (cert_issues d)"
  shows "\<exists>c'\<in>set (cert_issues d'). cert_kept c c'"
  using assms(1)
proof cases
  case (rs_cert_status st P now)
  let ?f = "\<lambda>c. if P c \<and> ci_status c = Normal then c\<lparr>ci_status := st\<rparr> else c"
  have "?f c \<in> set (cert_issues d')"
    using rs_cert_status assms(2) by (auto simp: set_cert_status_def set_update_where)
  moreover have "cert_kept c (?f c)" by (simp add: cert_kept_def)
  ultimately show ?thesis by blast
qed (use assms(2) cert_kept_refl in \<open>auto simp: create_product_sql_def update_product_sql_def device_upsert_sql_def
    cert_create_sql_def Let_def\<close>)

lemma registry_steps_cert:
  assumes "registry_step\<^sup>*\<^sup>* d d'" "c \<in> set (cert_issues d)"
  shows "\<exists>c'\<in>set (cert_issues d'). cert_kept c c'"
  using assms
proof (induction rule: rtranclp_induct)
  case base
  then show ?case using cert_kept_refl by blast
next
  case (step y z)
  then show ?case using registry_step_cert cert_kept_trans by meson
qed

lemma steps_registry [steps_intros]:
  "steps_by registry_step (create_product req)" "steps_by registry_step (update_product i rq)"
  "steps_by registry_step (device_upsert p dv src)" "steps_by registry_step (cert_create c)"
  "st \<noteq> Normal \<Longrightarrow> steps_by registry_step (cert_update_status p dv st)"
  "st \<noteq> Normal \<Longrightarrow> steps_by registry_step (cert_update_status_by_id i st)"
  unfolding create_product_def update_product_def device_upsert_def cert_create_def cert_update_status_def
    cert_update_status_by_id_def
  by (intro steps_intros steps_db_exec r_into_rtranclp,
      rule rs_create_product rs_update_product rs_device rs_cert rs_cert_status; assumption?)+

lemma steps_issue_cert_handler [steps_intros]: "steps_by registry_step (issue_cert_handler L rq)"
  unfolding issue_cert_handler_def find_by_device_id_def by (intro steps_intros)

lemma steps_update_cert_status_handler [steps_intros]: "steps_by registry_step (update_cert_status_handler rq)"
  unfolding update_cert_status_handler_def find_by_device_id_def cert_find_by_id_def by (intro steps_intros)

text \<open>The requests that write certificates.\<close>

datatype cert_call = IssueCert ca_libs issue_cert_request | UpdateCertStatus update_cert_status_request

definition run_cert_call :: "cert_call \<Rightarrow> ('s, 'e, unit) io" where
  "run_cert_call call =
     (case call of
        IssueCert L rq \<Rightarrow> ignoreE (issue_cert_handler L rq)
      | UpdateCertStatus rq \<Rightarrow> ignoreE (update_cert_status_handler rq))"

lemma steps_run_cert_call [steps_intros]: "steps_by registry_step (run_cert_call call)"
  unfolding run_cert_call_def by (cases call) (simp_all add: steps_intros)

text \<open>
  C28: revocation is final. Whatever calls fail, no sequence of requests to issue certificates or to
  change their status removes or rewrites a certificate row, and a certificate that is invalid or
  revoked keeps that status forever: no request makes it normal again.
\<close>

theorem certificate_status_final:
  assumes "forE calls run_cert_call env w = (r, w')" and "c \<in> set (cert_issues (db w))"
  shows "\<exists>c'\<in>set (cert_issues (db w')). c'\<lparr>ci_status := ci_status c\<rparr> = c \<and> (ci_status c \<noteq> Normal \<longrightarrow> c' = c)"
proof -
  have "steps_by registry_step (forE calls run_cert_call)" by (intro steps_intros)
  then have "registry_step\<^sup>*\<^sup>* (db w) (db w')" using assms(1) by (rule steps_byD)
  from registry_steps_cert [OF this assms(2)] show ?thesis by (simp add: cert_kept_def)
qed

definition revoked_cert :: cert_issue where
  "revoked_cert = \<lparr>ci_id = 1, ci_product_id = ''p'', ci_device_id = ''d'', ci_pub_cert = ''x'', ci_start_at = 0,
     ci_end_at = 9, ci_status = Revoked, ci_created_at = 0\<rparr>"

theorem certificate_status_final_witness:
  "revoked_cert \<in> set (cert_issues (db (snd ((forE [UpdateCertStatus \<lparr>us_id = Some 1, us_product_id = ''p'',
     us_device_id = ''d'', us_status = 0\<rparr>] run_cert_call :: (unit, api_error, unit) io) all_done
     (empty_world\<lparr>db := empty_db\<lparr>cert_issues := [revoked_cert]\<rparr>\<rparr>)))))"
proof -
  let ?w = "empty_world\<lparr>db := empty_db\<lparr>cert_issues := [revoked_cert]\<rparr>\<rparr>"
  let ?m = "forE [UpdateCertStatus \<lparr>us_id = Some 1, us_product_id = ''p'', us_device_id = ''d'', us_status = 0\<rparr>]
     run_cert_call :: (unit, api_error, unit) io"
  obtain r w' where run: "?m all_done ?w = (r, w')" by fastforce
  have "revoked_cert \<in> set (cert_issues (db ?w))" "ci_status revoked_cert \<noteq> Normal"
    by (simp_all add: revoked_cert_def)
  with certificate_status_final [OF run, of revoked_cert] run show ?thesis by auto
qed

text \<open>
  The identities of the registry stay unique. Under any sequence of product creations and updates,
  device registrations and certificate writes, no two products share a model number, no two device
  rows share product and device, and ids are unique; a second product with the same model number is
  answered with 409 and adds nothing.
\<close>

theorem registry_identities_unique:
  assumes "registry_step\<^sup>*\<^sup>* empty_db (db w)"
  shows "wf_registry (db w) \<and>
    (\<forall>req env. reliable env \<longrightarrow> validate_create_product_request req = Inr () \<longrightarrow>
      cp_model_no req \<in> pt_model_no ` set (products (db w)) \<longrightarrow>
      (\<exists>e w'. create_product_handler req env w = (Inl e, w') \<and> status e = 409 \<and> products (db w') = products (db w)))"
proof -
  have "wf_registry (db w)"
    using assms
  proof (induction rule: rtranclp_induct)
    case base
    show ?case by (simp add: wf_registry_def empty_db_def)
  qed (blast intro: registry_step_wf)
  moreover have "\<exists>e w'. create_product_handler req env w = (Inl e, w') \<and> status e = 409 \<and> products (db w') = products (db w)"
    if "reliable env" "validate_create_product_request req = Inr ()"
      "cp_model_no req \<in> pt_model_no ` set (products (db w))" for req env
  proof -
    have "list_ex (\<lambda>p. pt_model_no p = cp_model_no req) (products (db w))"
      using that(3) by (auto simp: list_ex_iff)
    with that(1,2) show ?thesis
      by (simp add: create_product_handler_def create_product_def prog_simps db_exec_reliable create_product_sql_def Let_def)
  qed
  ultimately show ?thesis by blast
qed

theorem registry_identities_unique_witness:
  "wf_registry (db (empty_world\<lparr>db := snd (device_upsert_sql ''p'' ''d'' Manual 3 empty_db)\<rparr>))"
proof -
  have "registry_step\<^sup>*\<^sup>* empty_db (db (empty_world\<lparr>db := snd (device_upsert_sql ''p'' ''d'' Manual 3 empty_db)\<rparr>))"
    using rs_device [of empty_db "''p''" "''d''" Manual 3] by (simp add: r_into_rtranclp)
  from registry_identities_unique [OF this] show ?thesis by blast
qed

end
