(* ===== verification/Alarm_Api.thy ===== *)
theory Alarm_Api
  imports Rule_Engine Registry Commands
begin

text \<open>
  The alarm endpoints: \<open>backend/src/api/alarm_models.rs\<close> (requests, the API view of an alarm and the
  validation of rules) and \<open>backend/src/api/alarm_handlers.rs\<close>. \<open>ops\<close> is the rule state store behind the
  rule cache; \<open>rfc3339\<close> stands for the formatter of the \<open>time\<close> crate.
\<close>

section \<open>Models\<close>

record alarm_rule_query =
  rq_product_id :: "string option"
  rq_enabled :: "bool option"
  rq_page :: int
  rq_page_size :: int

record update_alarm_rule_request =
  ur_name :: "string option"
  ur_description :: "string option"
  ur_trigger_config :: "json option"
  ur_condition :: "json option"
  ur_actions :: "json option"
  ur_throttle_minutes :: "int option"
  ur_duration_minutes :: "int option"
  ur_clear_condition :: "json option option"

record alarm_query =
  aq_product_id :: "string option"
  aq_device_id :: "string option"
  aq_level :: "string option"
  aq_acknowledged :: "bool option"
  aq_status :: "string option"
  aq_page :: int
  aq_page_size :: int

record api_alarm_record =
  aa_id :: int
  aa_rule_id :: int
  aa_rule_name :: string
  aa_product_id :: string
  aa_device_id :: string
  aa_level :: string
  aa_message :: "string option"
  aa_trigger_value :: "json option"
  aa_acknowledged :: bool
  aa_status :: string
  aa_webhook_status :: "string option"
  aa_created_at :: instant
  aa_cleared_at :: "string option"

definition api_alarm_from :: "(instant \<Rightarrow> string option) \<Rightarrow> alarm_record \<Rightarrow> api_alarm_record" where
  "api_alarm_from rfc3339 a =
     \<lparr>aa_id = al_id a, aa_rule_id = al_rule_id a, aa_rule_name = al_rule_name a, aa_product_id = al_product_id a,
      aa_device_id = al_device_id a,
      aa_level = (if al_level a = 0 then ''info'' else if al_level a = 1 then ''warning'' else ''critical''),
      aa_message = al_message a, aa_trigger_value = al_trigger_value a,
      aa_acknowledged = (al_status a \<noteq> ''active''), aa_status = al_status a,
      aa_webhook_status = (case al_webhook_status a of
         None \<Rightarrow> None
       | Some n \<Rightarrow> Some (if n = 0 then ''success'' else if n = 2 then ''final_failed'' else ''failed'')),
      aa_created_at = al_created_at a, aa_cleared_at = Option.bind (al_cleared_at a) rfc3339\<rparr>"

section \<open>Validation\<close>

definition quoted :: "string \<Rightarrow> string" where
  "quoted s = [CHR 0x27] @ s @ [CHR 0x27]"

definition validate_condition :: "json \<Rightarrow> string \<Rightarrow> api_error + unit" where
  "validate_condition condition field_name =
     (case as_object condition of
        None \<Rightarrow> Inl (bad_request (field_name @ '' must be a JSON object''))
      | Some obj \<Rightarrow>
          (case Option.bind (jmap_get obj ''operator'') as_str of
             None \<Rightarrow> Inl (bad_request (field_name @ '' must contain an 'operator' string field''))
           | Some operator \<Rightarrow>
               if \<not> is_supported_operator operator
               then Inl (bad_request (field_name @ '' has unsupported operator '' @ quoted operator @
                      ''. Must be one of: >, >=, <, <=, ==, !=, between, contains, always''))
               else Inr ()))"

definition is_alarm_entry :: "json \<Rightarrow> bool" where
  "is_alarm_entry a \<longleftrightarrow> Option.bind (json_get a ''type'') as_str = Some ''alarm''"

definition validate_actions :: "json \<Rightarrow> api_error + unit" where
  "validate_actions actions =
     (case as_array actions of
        None \<Rightarrow> Inl (bad_request ''actions must be a JSON array'')
      | Some arr \<Rightarrow>
          if arr = [] then Inl (bad_request ''actions must contain at least one alarm action'')
          else if \<not> list_ex is_alarm_entry arr
          then Inl (bad_request ''actions must contain at least one alarm action'')
          else Inr ())"

definition validate_identifier_safe :: "string \<Rightarrow> string \<Rightarrow> api_error + unit" where
  "validate_identifier_safe i field_name =
     (if 128 < length i then Inl (bad_request (field_name @ '' must not exceed 128 characters''))
      else if list_ex (\<lambda>c. \<not> is_ascii_alphanumeric c \<and> c \<noteq> CHR ''-'' \<and> c \<noteq> CHR ''_'') i
      then Inl (bad_request (field_name @ '' contains invalid character. Only alphanumeric, '' @ quoted ''-'' @
             '' and '' @ quoted ''_'' @ '' are allowed''))
      else Inr ())"

definition required_name :: "jmap \<Rightarrow> string \<Rightarrow> string \<Rightarrow> api_error + unit" where
  "required_name obj field err =
     (case Option.bind (Option.bind (jmap_get obj field) as_str) (\<lambda>s. if s = [] then None else Some s) of
        None \<Rightarrow> Inl (bad_request err)
      | Some name \<Rightarrow> validate_identifier_safe name field)"

definition validate_trigger_config :: "string \<Rightarrow> json \<Rightarrow> api_error + unit" where
  "validate_trigger_config trigger_type trigger_config =
     (case as_object trigger_config of
        None \<Rightarrow> Inl (bad_request ''trigger_config must be a JSON object'')
      | Some obj \<Rightarrow>
          if trigger_type = ''property'' then
            required_name obj ''property_name'' ''trigger_config.property_name is required for property trigger type''
          else if trigger_type = ''event'' then
            required_name obj ''event_identifier'' ''trigger_config.event_identifier is required for event trigger type''
          else if trigger_type = ''device_online'' \<or> trigger_type = ''device_offline'' then Inr ()
          else Inl (bad_request (''Invalid trigger_type '' @ quoted trigger_type @
                 ''. Must be one of: property, event, device_online, device_offline'')))"

definition validate_device_trigger_condition :: "string \<Rightarrow> json \<Rightarrow> api_error + unit" where
  "validate_device_trigger_condition trigger_type condition =
     (if \<not> (trigger_type = ''device_online'' \<or> trigger_type = ''device_offline'') then Inr ()
      else if Option.bind (Option.bind (as_object condition) (\<lambda>obj. jmap_get obj ''operator'')) as_str \<noteq> Some ''always''
      then Inl (bad_request (''trigger_type '' @ quoted trigger_type @ '' must use condition operator '' @ quoted ''always'' @
             '' (device-status triggers carry no value to compare against)''))
      else Inr ())"

definition seq_check :: "'e + unit \<Rightarrow> 'e + unit \<Rightarrow> 'e + unit" where
  "seq_check a b = (case a of Inl e \<Rightarrow> Inl e | Inr _ \<Rightarrow> b)"

definition validate_create_rule_request :: "create_alarm_rule_request \<Rightarrow> api_error + unit" where
  "validate_create_rule_request req =
     seq_check (validate_trigger_config (cr_trigger_type req) (cr_trigger_config req))
     (seq_check (validate_condition (cr_condition req) ''condition'')
     (seq_check (validate_device_trigger_condition (cr_trigger_type req) (cr_condition req))
     (seq_check (case cr_clear_condition req of
                   Some clear \<Rightarrow> validate_condition clear ''clear_condition''
                 | None \<Rightarrow> Inr ())
       (validate_actions (cr_actions req)))))"

definition ALARM_STATUSES :: "string list" where
  "ALARM_STATUSES = [''active'', ''acknowledged'', ''cleared'']"

definition validate_alarm_status :: "string option \<Rightarrow> api_error + unit" where
  "validate_alarm_status st =
     (case st of
        Some s \<Rightarrow> if s \<notin> set ALARM_STATUSES
                  then Inl (bad_request (''Invalid status '' @ quoted s @ ''. Must be one of: active, acknowledged, cleared''))
                  else Inr ()
      | None \<Rightarrow> Inr ())"

section \<open>Rule handlers\<close>

definition list_alarm_rules ::
  "alarm_rule_query \<Rightarrow> ('s, api_error, alarm_rule list \<times> pagination_info) io" where
  "list_alarm_rules query =
     bindE (map_err map_db_err (query_rules (rq_product_id query) (rq_enabled query) (rq_page query) (rq_page_size query)))
       (\<lambda>(rules, total). ret (rules, \<lparr>pg_page = rq_page query, pg_page_size = rq_page_size query, pg_total = total\<rparr>))"

text \<open>\<open>get_rule_by_id(..).map_err(..)?.ok_or_else(..)?\<close>.\<close>

definition fetch_rule :: "int \<Rightarrow> api_error \<Rightarrow> ('s, api_error, alarm_rule) io" where
  "fetch_rule i missing = bindE (map_err map_db_err (get_rule_by_id i)) (\<lambda>r. ok_or missing r)"

definition create_alarm_rule ::
  "'s store_ops \<Rightarrow> create_alarm_rule_request \<Rightarrow> ('s, api_error, nat \<times> alarm_rule) io" where
  "create_alarm_rule ops req =
     (if trigger_type_from_str (cr_trigger_type req) = None
      then throw (bad_request (''Invalid trigger_type '' @ quoted (cr_trigger_type req) @
             ''. Must be one of: property, event, device_online, device_offline''))
      else
        bindE (lift_res (validate_create_rule_request req)) (\<lambda>_.
        bindE (map_err map_db_err (get_product_by_model_no (cr_product_id req))) (\<lambda>product.
        if product = None then throw (bad_request (''Product '' @ quoted (cr_product_id req) @ '' not found''))
        else if cr_duration_minutes req < 0 then throw (bad_request ''duration_minutes must be >= 0'')
        else if cr_trigger_type req \<noteq> ''property'' \<and> (cr_duration_minutes req > 0 \<or> cr_clear_condition req \<noteq> None)
        then throw (bad_request ''Duration and clear conditions are only supported for property trigger type'')
        else
          bindE (map_err map_db_err (create_rule req)) (\<lambda>rule_id.
          bindE (fetch_rule rule_id (internal ''Failed to fetch created rule'')) (\<lambda>rule.
          bindE (invalidate_product ops (cr_product_id req)) (\<lambda>_.
          ret (201, rule)))))))"

definition get_alarm_rule :: "int \<Rightarrow> ('s, api_error, alarm_rule) io" where
  "get_alarm_rule i = fetch_rule i (not_found ''Alarm rule not found'')"

definition validate_update_rule_request :: "string \<Rightarrow> update_alarm_rule_request \<Rightarrow> api_error + unit" where
  "validate_update_rule_request trigger_type req =
     seq_check (case ur_condition req of
                  Some condition \<Rightarrow> seq_check (validate_condition condition ''condition'')
                                     (validate_device_trigger_condition trigger_type condition)
                | None \<Rightarrow> Inr ())
     (seq_check (case ur_actions req of Some actions \<Rightarrow> validate_actions actions | None \<Rightarrow> Inr ())
     (seq_check (case ur_clear_condition req of
                   Some (Some clear) \<Rightarrow> validate_condition clear ''clear_condition''
                 | _ \<Rightarrow> Inr ())
       (case ur_trigger_config req of Some tc \<Rightarrow> validate_trigger_config trigger_type tc | None \<Rightarrow> Inr ())))"

definition update_alarm_rule ::
  "'s store_ops \<Rightarrow> int \<Rightarrow> update_alarm_rule_request \<Rightarrow> ('s, api_error, alarm_rule) io" where
  "update_alarm_rule ops i req =
     (if (case ur_duration_minutes req of Some v \<Rightarrow> v < 0 | None \<Rightarrow> False)
      then throw (bad_request ''duration_minutes must be >= 0'')
      else
        bindE (fetch_rule i (not_found ''Alarm rule not found'')) (\<lambda>existing.
        if ar_trigger_type existing \<noteq> ''property'' \<and>
           ((case ur_duration_minutes req of Some v \<Rightarrow> v > 0 | None \<Rightarrow> False) \<or>
            (case ur_clear_condition req of Some (Some _) \<Rightarrow> True | _ \<Rightarrow> False))
        then throw (bad_request ''Duration and clear conditions are only supported for property trigger type'')
        else
          bindE (lift_res (validate_update_rule_request (ar_trigger_type existing) req)) (\<lambda>_.
          bindE (map_err map_db_err (update_rule i (ur_name req) (ur_description req) (ur_trigger_config req)
            (ur_condition req) (ur_actions req) (ur_throttle_minutes req) (ur_duration_minutes req)
            (ur_clear_condition req))) (\<lambda>rows_affected.
          if rows_affected = 0 then throw (not_found ''Alarm rule not found'')
          else
            bindE (fetch_rule i (internal ''Failed to fetch updated rule'')) (\<lambda>updated.
            bindE (invalidate_product ops (ar_product_id existing)) (\<lambda>_.
            ret updated))))))"

definition update_alarm_rule_status ::
  "'s store_ops \<Rightarrow> int \<Rightarrow> bool \<Rightarrow> ('s, api_error, alarm_rule) io" where
  "update_alarm_rule_status ops i enabled =
     bindE (fetch_rule i (not_found ''Alarm rule not found'')) (\<lambda>existing.
     bindE (map_err map_db_err (update_rule_status i enabled)) (\<lambda>rows_affected.
     if rows_affected = 0 then throw (not_found ''Alarm rule not found'')
     else
       bindE (fetch_rule i (internal ''Failed to fetch updated rule'')) (\<lambda>updated.
       bindE (invalidate_product ops (ar_product_id existing)) (\<lambda>_.
       ret updated))))"

definition delete_alarm_rule :: "'s store_ops \<Rightarrow> int \<Rightarrow> ('s, api_error, nat) io" where
  "delete_alarm_rule ops i =
     bindE (fetch_rule i (not_found ''Alarm rule not found'')) (\<lambda>existing.
     bindE (map_err map_db_err (delete_rule i)) (\<lambda>rows_affected.
     if rows_affected = 0 then throw (not_found ''Alarm rule not found'')
     else bindE (invalidate_product ops (ar_product_id existing)) (\<lambda>_. ret 204)))"

section \<open>Alarm handlers\<close>

definition parse_level_filter :: "string \<Rightarrow> int option" where
  "parse_level_filter level_str =
     (if level_str = ''info'' then Some 0 else if level_str = ''warning'' then Some 1
      else if level_str = ''critical'' then Some 2 else None)"

definition list_alarms ::
  "(instant \<Rightarrow> string option) \<Rightarrow> alarm_query \<Rightarrow> ('s, api_error, api_alarm_record list \<times> pagination_info) io" where
  "list_alarms rfc3339 query =
     bindE (lift_res (validate_alarm_status (aq_status query))) (\<lambda>_.
     if aq_status query \<noteq> None \<and> aq_acknowledged query \<noteq> None
     then throw (bad_request (''Parameters '' @ quoted ''status'' @ '' and '' @ quoted ''acknowledged'' @
            '' are mutually exclusive''))
     else
       bindE (map_err map_db_err (query_alarms (aq_product_id query) (aq_device_id query)
         (Option.bind (aq_level query) parse_level_filter) (aq_acknowledged query) (aq_status query)
         (aq_page query) (aq_page_size query))) (\<lambda>(alarms, total).
       ret (map (api_alarm_from rfc3339) alarms,
            \<lparr>pg_page = aq_page query, pg_page_size = aq_page_size query, pg_total = total\<rparr>)))"

definition fetch_alarm :: "int \<Rightarrow> api_error \<Rightarrow> ('s, api_error, alarm_record) io" where
  "fetch_alarm i missing = bindE (map_err map_db_err (get_alarm_by_id i)) (\<lambda>r. ok_or missing r)"

definition ack_alarm_handler ::
  "(instant \<Rightarrow> string option) \<Rightarrow> int \<Rightarrow> ('s, api_error, api_alarm_record) io" where
  "ack_alarm_handler rfc3339 i =
     bindE (fetch_alarm i (not_found ''Alarm not found'')) (\<lambda>existing.
     if al_status existing \<noteq> ''active''
     then throw (conflict ''Only alarms in active status can be acknowledged'')
     else
       bindE (map_err map_db_err (ack_alarm i)) (\<lambda>rows_affected.
       if rows_affected = 0 then throw (conflict ''Only alarms in active status can be acknowledged'')
       else
         bindE (fetch_alarm i (internal ''Failed to fetch updated alarm'')) (\<lambda>updated.
         ret (api_alarm_from rfc3339 updated))))"

definition clear_alarm_handler ::
  "(instant \<Rightarrow> string option) \<Rightarrow> int \<Rightarrow> ('s, api_error, api_alarm_record) io" where
  "clear_alarm_handler rfc3339 i =
     bindE (fetch_alarm i (not_found ''Alarm not found'')) (\<lambda>existing.
     if al_status existing = ''cleared'' then throw (conflict ''Alarm already cleared'')
     else
       bindE (map_err map_db_err (clear_alarm i)) (\<lambda>rows_affected.
       if rows_affected = 0 then throw (conflict ''Alarm already cleared'')
       else
         bindE (fetch_alarm i (internal ''Failed to fetch cleared alarm'')) (\<lambda>updated.
         ret (api_alarm_from rfc3339 updated))))"

end
