(* ===== verification/Alarm_Behaviour.thy ===== *)
theory Alarm_Behaviour
  imports Alarm_Api Device_Api
begin

text \<open>
  What the alarm endpoints guarantee: an accepted rule can raise alarms, a successful change of a
  rule reaches the rule engine, a failed one may not, and acknowledging and clearing follow the life
  cycle of an alarm with the documented answers.
\<close>

lemma fetch_rule_Inr:
  "fetch_rule i e env w = (Inr r, w') \<Longrightarrow>
   find (\<lambda>r. ar_id r = i) (alarm_rules (db w)) = Some r \<and> db w' = db w \<and> cached_rules w' = cached_rules w"
  unfolding fetch_rule_def get_rule_by_id_def
  by (elim bindE_InrE) (auto simp: Inr_simps dest!: db_query_Inr)

lemma invalidate_product_Inr:
  "invalidate_product ops p env w = (Inr u, w') \<Longrightarrow>
   db w' = db w \<and> cached_rules w' = (cached_rules w)(p := None)"
  by (auto simp: invalidate_product_def Let_def bindE_def ret_def store_call_def split: prod.splits if_splits)

section \<open>Rules\<close>

lemma validate_condition_Inr:
  "validate_condition c f = Inr () \<Longrightarrow>
   \<exists>op. json_get c ''operator'' = Some (JString op) \<and> is_supported_operator op"
  by (cases c) (auto simp: validate_condition_def as_object_def bind_eq_Some_conv as_str_def
    split: option.splits if_splits json.splits)

lemma validate_device_trigger_Inr:
  "validate_device_trigger_condition tt c = Inr () \<Longrightarrow> tt = ''device_online'' \<or> tt = ''device_offline'' \<Longrightarrow>
   json_get c ''operator'' = Some (JString ''always'')"
  by (cases c) (auto simp: validate_device_trigger_condition_def as_object_def bind_eq_Some_conv as_str_Some_iff
    split: if_splits)

lemma alarm_entry_parses: "is_alarm_entry a \<Longrightarrow> \<exists>l m. parse_action a = Some (Alarm l m)"
  by (cases a) (auto simp: is_alarm_entry_def parse_action_def as_object_def bind_eq_Some_conv split: option.splits)

lemma validate_actions_Inr:
  assumes "validate_actions acts = Inr ()"
  shows "\<exists>entries l m. acts = JArray entries \<and> find_alarm_action (parse_actions entries) = Some (l, m)"
proof -
  from assms obtain entries a where acts: "acts = JArray entries" and a: "a \<in> set entries" "is_alarm_entry a"
    by (cases acts) (auto simp: validate_actions_def as_array_def list_ex_iff split: if_splits)
  from a obtain l m where "Alarm l m \<in> set (parse_actions entries)"
    by (force simp: parse_actions_def List.map_filter_def dest: alarm_entry_parses)
  then have "find_alarm_action (parse_actions entries) \<noteq> None"
    by (auto simp: find_alarm_action_def find_map_None_iff intro!: bexI [of _ "Alarm l m"])
  with acts show ?thesis by auto
qed

lemma seq_check_Inr: "seq_check a b = Inr () \<longleftrightarrow> a = Inr () \<and> b = Inr ()"
  by (auto simp: seq_check_def split: sum.splits)

lemma create_rule_sql_id: "create_rule_sql req now d = (i, d') \<Longrightarrow> i = next_rule_id d"
  by (simp add: create_rule_sql_def Let_def)

lemma create_alarm_rule_Inr:
  assumes "create_alarm_rule ops req env w = (Inr (st, r), w')"
  shows "st = 201 \<and> validate_create_rule_request req = Inr () \<and>
    (\<exists>p. find (\<lambda>p. pt_model_no p = cr_product_id req) (products (db w)) = Some p) \<and>
    (\<exists>now. create_rule_sql req now (db w) = (next_rule_id (db w), db w')) \<and>
    find (\<lambda>r. ar_id r = next_rule_id (db w)) (alarm_rules (db w')) = Some r \<and>
    cached_rules w' = (cached_rules w)(cr_product_id req := None)"
  using assms unfolding create_alarm_rule_def get_product_by_model_no_def create_rule_def
  by (auto split: if_splits elim!: bindE_InrE simp: Inr_simps
      dest!: db_query_Inr db_exec_Inr fetch_rule_Inr invalidate_product_Inr)
     (auto dest: create_rule_sql_id)

lemma update_alarm_rule_Inr:
  assumes "update_alarm_rule ops i req env w = (Inr r, w')"
  obtains e now n where "find (\<lambda>r. ar_id r = i) (alarm_rules (db w)) = Some e"
    "update_rule_sql i (ur_name req) (ur_description req) (ur_trigger_config req) (ur_condition req)
       (ur_actions req) (ur_throttle_minutes req) (ur_duration_minutes req) (ur_clear_condition req) now (db w) = (n, db w')"
    "cached_rules w' = (cached_rules w)(ar_product_id e := None)"
  using assms unfolding update_alarm_rule_def update_rule_def
  by (auto split: if_splits elim!: bindE_InrE simp: Inr_simps
      dest!: db_exec_Inr fetch_rule_Inr invalidate_product_Inr)

lemma update_alarm_rule_status_Inr:
  assumes "update_alarm_rule_status ops i b env w = (Inr r, w')"
  obtains e now where "find (\<lambda>r. ar_id r = i) (alarm_rules (db w)) = Some e"
    "alarm_rules (db w') = update_where (\<lambda>r. ar_id r = i) (\<lambda>r. r\<lparr>ar_enabled := b, ar_updated_at := now\<rparr>) (alarm_rules (db w))"
    "next_rule_id (db w') = next_rule_id (db w)"
    "cached_rules w' = (cached_rules w)(ar_product_id e := None)"
proof -
  have upd: "\<exists>now. alarm_rules (db v') = update_where (\<lambda>r. ar_id r = i) (\<lambda>r. r\<lparr>ar_enabled := b, ar_updated_at := now\<rparr>) (alarm_rules (db v)) \<and>
      next_rule_id (db v') = next_rule_id (db v) \<and> cached_rules v' = cached_rules v"
    if "update_rule_status i b env v = (Inr n, v')" for v v' :: "'a world" and n
    using that unfolding update_rule_status_def by (auto dest!: db_exec_Inr_snd simp: Let_def)
  show thesis
    using assms that unfolding update_alarm_rule_status_def
    by (auto split: if_splits elim!: bindE_InrE simp: Inr_simps dest!: upd fetch_rule_Inr invalidate_product_Inr)
qed

lemma delete_alarm_rule_Inr:
  assumes "delete_alarm_rule ops i env w = (Inr r, w')"
  obtains e where "find (\<lambda>r. ar_id r = i) (alarm_rules (db w)) = Some e"
    "alarm_rules (db w') = filter (\<lambda>r. ar_id r \<noteq> i) (alarm_rules (db w))"
    "next_rule_id (db w') = next_rule_id (db w)"
    "cached_rules w' = (cached_rules w)(ar_product_id e := None)"
proof -
  have del: "alarm_rules (db v') = filter (\<lambda>r. ar_id r \<noteq> i) (alarm_rules (db v)) \<and>
      next_rule_id (db v') = next_rule_id (db v) \<and> cached_rules v' = cached_rules v"
    if "delete_rule i env v = (Inr n, v')" for v v' :: "'a world" and n
    using that unfolding delete_rule_def by (auto dest!: db_exec_Inr_snd)
  show thesis
    using assms that unfolding delete_alarm_rule_def
    by (auto split: if_splits elim!: bindE_InrE simp: Inr_simps dest!: del fetch_rule_Inr invalidate_product_Inr)
qed

section \<open>The rule cache\<close>

text \<open>
  What the rule engine relies on: rule ids are unique, and the rules cached for a product are its
  enabled rules in the database.
\<close>

definition wf_rules :: "database \<Rightarrow> bool" where
  "wf_rules d \<longleftrightarrow> distinct (map ar_id (alarm_rules d)) \<and> (\<forall>r\<in>set (alarm_rules d). ar_id r < next_rule_id d)"

definition cache_fresh :: "'s world \<Rightarrow> bool" where
  "cache_fresh w \<longleftrightarrow> (\<forall>p rs. cached_rules w p = Some rs \<longrightarrow> rs = enabled_rules p (db w))"

lemma wf_rules_found:
  assumes "wf_rules d" "find (\<lambda>r. ar_id r = i) (alarm_rules d) = Some e" "r \<in> set (alarm_rules d)" "ar_id r = i"
  shows "r = e"
proof -
  have "e \<in> set (alarm_rules d)" "ar_id e = i" using assms(2) by (auto simp: find_Some_iff)
  with assms(1,3,4) show ?thesis by (auto simp: wf_rules_def distinct_map inj_on_def)
qed

lemma rules_update:
  assumes wf: "wf_rules d" and e: "find (\<lambda>r. ar_id r = i) (alarm_rules d) = Some e"
    and keep: "\<And>r. ar_id (f r) = ar_id r \<and> ar_product_id (f r) = ar_product_id r"
    and d': "alarm_rules d' = update_where (\<lambda>r. ar_id r = i) f (alarm_rules d)" "next_rule_id d' = next_rule_id d"
  shows "wf_rules d'" and "q \<noteq> ar_product_id e \<Longrightarrow> enabled_rules q d' = enabled_rules q d"
proof -
  show "wf_rules d'"
    using wf keep by (auto simp: wf_rules_def d' map_update_where set_update_where)
  show "enabled_rules q d' = enabled_rules q d" if "q \<noteq> ar_product_id e"
    unfolding enabled_rules_def d'
    using that wf_rules_found [OF wf e] keep by (subst filter_update_where_skip_set) auto
qed

lemma rules_delete:
  assumes wf: "wf_rules d" and e: "find (\<lambda>r. ar_id r = i) (alarm_rules d) = Some e"
    and d': "alarm_rules d' = filter (\<lambda>r. ar_id r \<noteq> i) (alarm_rules d)" "next_rule_id d' = next_rule_id d"
  shows "wf_rules d'" and "q \<noteq> ar_product_id e \<Longrightarrow> enabled_rules q d' = enabled_rules q d"
proof -
  show "wf_rules d'"
    using wf by (auto simp: wf_rules_def d' distinct_map_filter)
  show "enabled_rules q d' = enabled_rules q d" if "q \<noteq> ar_product_id e"
    unfolding enabled_rules_def d' filter_filter
    using that wf_rules_found [OF wf e] by (intro arg_cong [where f = "sort_key ar_id"] filter_cong) auto
qed

lemma rules_create:
  assumes "wf_rules d" "create_rule_sql req now d = (i, d')"
  shows "wf_rules d'" and "q \<noteq> cr_product_id req \<Longrightarrow> enabled_rules q d' = enabled_rules q d"
  using assms by (fastforce simp: wf_rules_def create_rule_sql_def Let_def enabled_rules_def)+

lemma cache_fresh_change:
  assumes "cache_fresh w" "cached_rules w' = (cached_rules w)(p := None)"
    and "\<And>q. q \<noteq> p \<Longrightarrow> enabled_rules q (db w') = enabled_rules q (db w)"
  shows "cache_fresh w'"
  using assms by (auto simp: cache_fresh_def)

lemma update_rule_sql_rows:
  assumes "update_rule_sql i nm ds tc c a t du cl now d = (n, d')"
  obtains f where "\<And>r. ar_id (f r) = ar_id r \<and> ar_product_id (f r) = ar_product_id r"
    "alarm_rules d' = update_where (\<lambda>r. ar_id r = i) f (alarm_rules d)" "next_rule_id d' = next_rule_id d"
proof
  show "alarm_rules d' = update_where (\<lambda>r. ar_id r = i) (set_rule_fields nm ds tc c a t du cl now) (alarm_rules d)"
    "next_rule_id d' = next_rule_id d"
    using assms by (auto simp: update_rule_sql_def)
qed (simp add: set_rule_fields_keep)

datatype rule_call =
  CreateRule create_alarm_rule_request | UpdateRule int update_alarm_rule_request | SetRuleStatus int bool
| DeleteRule int

definition run_rule_call :: "'s store_ops \<Rightarrow> rule_call \<Rightarrow> ('s, api_error, unit) io" where
  "run_rule_call ops call =
     (case call of
        CreateRule req \<Rightarrow> bindE (create_alarm_rule ops req) (\<lambda>_. ret ())
      | UpdateRule i req \<Rightarrow> bindE (update_alarm_rule ops i req) (\<lambda>_. ret ())
      | SetRuleStatus i b \<Rightarrow> bindE (update_alarm_rule_status ops i b) (\<lambda>_. ret ())
      | DeleteRule i \<Rightarrow> bindE (delete_alarm_rule ops i) (\<lambda>_. ret ()))"

lemma rule_call_keeps_cache:
  assumes run: "run_rule_call ops call env w = (Inr (), w')" and wf: "wf_rules (db w)" and fresh: "cache_fresh w"
  shows "wf_rules (db w') \<and> cache_fresh w'"
proof (cases call)
  case (CreateRule req)
  with run obtain st r where "create_alarm_rule ops req env w = (Inr (st, r), w')"
    by (auto simp: run_rule_call_def Inr_simps elim!: bindE_InrE)
  from create_alarm_rule_Inr [OF this] obtain now where
    "create_rule_sql req now (db w) = (next_rule_id (db w), db w')"
    "cached_rules w' = (cached_rules w)(cr_product_id req := None)" by blast
  with rules_create [OF wf] cache_fresh_change [OF fresh] show ?thesis by blast
next
  case (UpdateRule i req)
  with run obtain r where "update_alarm_rule ops i req env w = (Inr r, w')"
    by (auto simp: run_rule_call_def Inr_simps elim!: bindE_InrE)
  then obtain e now n where e: "find (\<lambda>r. ar_id r = i) (alarm_rules (db w)) = Some e"
    and upd: "update_rule_sql i (ur_name req) (ur_description req) (ur_trigger_config req) (ur_condition req)
       (ur_actions req) (ur_throttle_minutes req) (ur_duration_minutes req) (ur_clear_condition req) now (db w) = (n, db w')"
    and c: "cached_rules w' = (cached_rules w)(ar_product_id e := None)"
    by (rule update_alarm_rule_Inr)
  from upd show ?thesis
    by (rule update_rule_sql_rows) (use rules_update [OF wf e] cache_fresh_change [OF fresh c] in blast)
next
  case (SetRuleStatus i b)
  with run obtain r where "update_alarm_rule_status ops i b env w = (Inr r, w')"
    by (auto simp: run_rule_call_def Inr_simps elim!: bindE_InrE)
  then obtain e now where e: "find (\<lambda>r. ar_id r = i) (alarm_rules (db w)) = Some e"
    and upd: "alarm_rules (db w') = update_where (\<lambda>r. ar_id r = i) (\<lambda>r. r\<lparr>ar_enabled := b, ar_updated_at := now\<rparr>) (alarm_rules (db w))"
      "next_rule_id (db w') = next_rule_id (db w)"
    and c: "cached_rules w' = (cached_rules w)(ar_product_id e := None)"
    by (rule update_alarm_rule_status_Inr)
  have "wf_rules (db w')" "q \<noteq> ar_product_id e \<Longrightarrow> enabled_rules q (db w') = enabled_rules q (db w)" for q
    using rules_update [OF wf e _ upd] by simp_all
  with cache_fresh_change [OF fresh c] show ?thesis by blast
next
  case (DeleteRule i)
  with run obtain r where "delete_alarm_rule ops i env w = (Inr r, w')"
    by (auto simp: run_rule_call_def Inr_simps elim!: bindE_InrE)
  then obtain e where "find (\<lambda>r. ar_id r = i) (alarm_rules (db w)) = Some e"
    "alarm_rules (db w') = filter (\<lambda>r. ar_id r \<noteq> i) (alarm_rules (db w))"
    "next_rule_id (db w') = next_rule_id (db w)"
    "cached_rules w' = (cached_rules w)(ar_product_id e := None)"
    by (rule delete_alarm_rule_Inr)
  with rules_delete [OF wf] cache_fresh_change [OF fresh] show ?thesis by blast
qed

text \<open>
  C8: the rule engine sees every accepted change. If creating, updating, switching or deleting a rule
  succeeds, rule ids stay unique and whatever the rule cache holds for any product afterwards is that
  product's enabled rules in the database, as the next evaluation would load them.
\<close>

theorem rule_changes_reach_engine:
  assumes "run_rule_call ops call env w = (Inr (), w')" and "wf_rules (db w)" and "cache_fresh w"
  shows "wf_rules (db w') \<and> cache_fresh w'"
  using assms by (rule rule_call_keeps_cache)

definition sample_rule_request :: create_alarm_rule_request where
  "sample_rule_request =
     \<lparr>cr_product_id = ''p'', cr_name = ''gone'', cr_description = None, cr_trigger_type = ''device_offline'',
      cr_trigger_config = JObject [], cr_condition = JObject [(''operator'', JString ''always'')],
      cr_actions = JArray [JObject [(''type'', JString ''alarm'')]], cr_throttle_minutes = 0,
      cr_duration_minutes = 0, cr_clear_condition = None\<rparr>"

definition sample_product :: product where
  "sample_product = \<lparr>pt_id = 1, pt_name = ''P'', pt_model_no = ''p'', pt_description = None, pt_status = PsOnline,
     pt_auto_provisioning = False, pt_created_at = 0, pt_updated_at = 0\<rparr>"

definition sample_rules_world :: "unit world" where
  "sample_rules_world = empty_world\<lparr>db := empty_db\<lparr>products := [sample_product]\<rparr>, cached_rules := [''p'' \<mapsto> []]\<rparr>"

definition noop_ops :: "unit store_ops" where
  "noop_ops = \<lparr>st_check_dedup = (\<lambda>_ _ _ _ _. False), st_mark_triggered = (\<lambda>_ _ _ _ s. (Inr (), s)),
     st_check_duration = (\<lambda>_ _ _ _ s. (Met, s)), st_reset_duration = (\<lambda>_ _ s. (Inr (), s)),
     st_invalidate_by_rule_ids = (\<lambda>_ s. (Inr (), s))\<rparr>"

lemma sample_rule_request_valid: "validate_create_rule_request sample_rule_request = Inr ()"
  by (simp add: validate_create_rule_request_def sample_rule_request_def seq_check_def validate_trigger_config_def
      validate_condition_def validate_device_trigger_condition_def validate_actions_def as_object_def as_array_def
      is_supported_operator_def SUPPORTED_OPERATORS_def is_alarm_entry_def)

lemma sample_rules_world_facts:
  "products (db sample_rules_world) = [sample_product]" "alarm_rules (db sample_rules_world) = []"
  "next_rule_id (db sample_rules_world) = 1" "cached_rules sample_rules_world = [''p'' \<mapsto> []]"
  "tick sample_rules_world = 0" "wf_rules (db sample_rules_world)" "cache_fresh sample_rules_world"
  by (simp_all add: sample_rules_world_def empty_db_def empty_world_def wf_rules_def cache_fresh_def enabled_rules_def)

text \<open>The requests that reach the \<open>INSERT\<close>.\<close>

definition rule_acceptable :: "create_alarm_rule_request \<Rightarrow> database \<Rightarrow> bool" where
  "rule_acceptable req d \<longleftrightarrow>
     trigger_type_from_str (cr_trigger_type req) \<noteq> None \<and> validate_create_rule_request req = Inr () \<and>
     find (\<lambda>p. pt_model_no p = cr_product_id req) (products d) \<noteq> None \<and> 0 \<le> cr_duration_minutes req \<and>
     (cr_trigger_type req = ''property'' \<or> cr_duration_minutes req = 0 \<and> cr_clear_condition req = None)"

lemma create_alarm_rule_inserts:
  assumes "rule_acceptable req (db w)" "outcome_at env (tick w) = Done" "outcome_at env (Suc (tick w)) = Done"
  shows "create_alarm_rule ops req env w =
    bindE (fetch_rule (next_rule_id (db w)) (internal ''Failed to fetch created rule'')) (\<lambda>rule.
    bindE (invalidate_product ops (cr_product_id req)) (\<lambda>_. ret (201, rule))) env
    (w\<lparr>tick := Suc (Suc (tick w)), db := snd (create_rule_sql req (now_at env (Suc (tick w))) (db w))\<rparr>)"
proof -
  obtain d' where ins: "create_rule_sql req (now_at env (Suc (tick w))) (db w) = (next_rule_id (db w), d')"
    by (metis create_rule_sql_id surj_pair)
  have "create_rule req env (w\<lparr>tick := Suc (tick w)\<rparr>) =
      (Inr (next_rule_id (db w)), w\<lparr>tick := Suc (Suc (tick w)), db := d'\<rparr>)"
    using assms(3) ins by (simp add: create_rule_def db_exec_def ext_call_def Let_def)
  moreover have "get_product_by_model_no (cr_product_id req) env w =
      (Inr (find (\<lambda>p. pt_model_no p = cr_product_id req) (products (db w))), w\<lparr>tick := Suc (tick w)\<rparr>)"
    using assms(2) by (simp add: get_product_by_model_no_def db_query_def db_exec_def ext_call_def Let_def)
  ultimately show ?thesis
    using assms(1) ins unfolding create_alarm_rule_def rule_acceptable_def
    by (auto simp: bindE_def map_err_def matchE_def lift_res_def ret_def throw_def)
qed

lemma create_rule_sql_row:
  assumes "wf_rules d"
  obtains r where "find (\<lambda>r. ar_id r = next_rule_id d) (alarm_rules (snd (create_rule_sql req now d))) = Some r"
    "r \<in> set (enabled_rules (cr_product_id req) (snd (create_rule_sql req now d)))"
    "ar_id r = next_rule_id d" "ar_condition r = cr_condition req" "ar_actions r = cr_actions req"
    "ar_trigger_type r = cr_trigger_type req" "ar_enabled r" "ar_product_id r = cr_product_id req"
    "r = last (alarm_rules (snd (create_rule_sql req now d)))"
proof -
  have "count_where (\<lambda>r. ar_id r = next_rule_id d) (alarm_rules d) = 0"
    using assms by (auto simp: wf_rules_def count_where_def filter_empty_conv)
  then show thesis
    by (intro that [of "last (alarm_rules (snd (create_rule_sql req now d)))"])
       (simp_all add: create_rule_sql_def Let_def enabled_rules_def find_append_new)
qed

lemma sample_rule_acceptable: "rule_acceptable sample_rule_request (db sample_rules_world)"
  unfolding rule_acceptable_def sample_rule_request_valid sample_rules_world_facts
  by (simp add: sample_rule_request_def sample_product_def trigger_type_from_str_def)

lemma invalidate_product_run: "\<exists>w'. (invalidate_product ops p :: ('s, 'e, unit) io) env w = (Inr (), w')"
  by (simp add: invalidate_product_def Let_def bindE_def ret_def store_call_def split: prod.split)

lemma fetch_rule_reliable:
  "reliable env \<Longrightarrow> find (\<lambda>r. ar_id r = i) (alarm_rules (db w)) = Some r \<Longrightarrow>
   fetch_rule i e env w = (Inr r, w\<lparr>tick := Suc (tick w)\<rparr>)"
  by (simp add: fetch_rule_def get_rule_by_id_def prog_simps reliable_simps)

lemma create_alarm_rule_succeeds:
  fixes w :: "'s world"
  assumes "reliable env" "rule_acceptable req (db w)" "wf_rules (db w)"
  obtains r w' where "create_alarm_rule ops req env w = (Inr (201, r), w')"
proof -
  define w2 where "w2 = w\<lparr>tick := Suc (Suc (tick w)), db := snd (create_rule_sql req (now_at env (Suc (tick w))) (db w))\<rparr>"
  have db2: "db w2 = snd (create_rule_sql req (now_at env (Suc (tick w))) (db w))" by (simp add: w2_def)
  obtain r where "find (\<lambda>r. ar_id r = next_rule_id (db w)) (alarm_rules (db w2)) = Some r"
    unfolding db2 by (rule create_rule_sql_row [OF assms(3)])
  from fetch_rule_reliable [OF assms(1) this]
  have fetch: "fetch_rule (next_rule_id (db w)) e env w2 = (Inr r, w2\<lparr>tick := Suc (tick w2)\<rparr>)" for e .
  obtain w' where inv: "(invalidate_product ops (cr_product_id req) :: ('s, api_error, unit) io) env
      (w2\<lparr>tick := Suc (tick w2)\<rparr>) = (Inr (), w')"
    using invalidate_product_run by blast
  have "create_alarm_rule ops req env w = (Inr (201, r), w')"
    using assms(1,2) by (simp add: create_alarm_rule_inserts reliable_def flip: w2_def)
      (simp add: bindE_def fetch inv ret_def)
  then show thesis by (rule that)
qed

theorem rule_changes_reach_engine_witness:
  "\<exists>w'. run_rule_call noop_ops (CreateRule sample_rule_request) all_done sample_rules_world = (Inr (), w') \<and>
     wf_rules (db w') \<and> cache_fresh w'"
proof -
  obtain r w' where "create_alarm_rule noop_ops sample_rule_request all_done sample_rules_world = (Inr (201, r), w')"
    by (rule create_alarm_rule_succeeds [OF reliable_all_done sample_rule_acceptable sample_rules_world_facts(6)])
  then have run: "run_rule_call noop_ops (CreateRule sample_rule_request) all_done sample_rules_world = (Inr (), w')"
    by (simp add: run_rule_call_def bindE_def ret_def)
  with rule_changes_reach_engine [OF run sample_rules_world_facts(6,7)] show ?thesis by blast
qed

text \<open>
  The validation of a condition looks at its operator only. A condition without the operands of its operator
  is accepted, as the condition of a rule and as one that clears alarms, and holds for no value.
\<close>

lemma operands_not_validated:
  fixes f :: string
  shows "validate_condition (JObject [(''operator'', JString ''>'')]) f = Inr () \<and>
     \<not> evaluate (JObject [(''operator'', JString ''>'')]) v \<and>
     validate_condition (JObject [(''operator'', JString ''between'')]) f = Inr () \<and>
     \<not> evaluate (JObject [(''operator'', JString ''between'')]) v"
  by (simp add: validate_condition_def evaluate_def compare_ordered_def json_get_def is_supported_operator_def as_object_def
      SUPPORTED_OPERATORS_def)

text \<open>
  C32: what an accepted rule is. If creating a rule answers 201, its product exists, the table of rules is the old
  one with one row added, which is the rule that is returned, with the fields of the request, enabled and with a
  new id. The engine loads it for its product, because no list of rules stays cached for the product. Its actions
  contain one the engine executes as an alarm, its condition and its clear condition have operators the evaluator
  knows, and the condition of a device status rule holds for every value. That the condition of another rule can
  hold is not checked (\<open>operands_not_validated\<close>).
\<close>

theorem accepted_rule_is_loaded:
  assumes "create_alarm_rule ops req env w = (Inr (st, r), w')" and "wf_rules (db w)"
  shows "st = 201 \<and> (\<exists>p\<in>set (products (db w)). pt_model_no p = cr_product_id req) \<and>
    db w' = (db w)\<lparr>alarm_rules := alarm_rules (db w) @ [r], next_rule_id := next_rule_id (db w) + 1\<rparr> \<and>
    ar_id r \<notin> ar_id ` set (alarm_rules (db w)) \<and>
    (\<exists>now. r = \<lparr>ar_id = ar_id r, ar_product_id = cr_product_id req, ar_name = cr_name req,
       ar_description = cr_description req, ar_trigger_type = cr_trigger_type req,
       ar_trigger_config = cr_trigger_config req, ar_condition = cr_condition req, ar_actions = cr_actions req,
       ar_enabled = True, ar_throttle_minutes = cr_throttle_minutes req,
       ar_duration_minutes = cr_duration_minutes req, ar_clear_condition = cr_clear_condition req,
       ar_created_at = now, ar_updated_at = now\<rparr>) \<and>
    r \<in> set (enabled_rules (cr_product_id req) (db w')) \<and> cached_rules w' (cr_product_id req) = None \<and>
    (\<exists>entries. cr_actions req = JArray entries \<and> find_alarm_action (parse_actions entries) \<noteq> None) \<and>
    (\<forall>c\<in>{cr_condition req} \<union> set_option (cr_clear_condition req).
       \<exists>op. json_get c ''operator'' = Some (JString op) \<and> is_supported_operator op) \<and>
    (cr_trigger_type req \<in> {''device_online'', ''device_offline''} \<longrightarrow> (\<forall>v. evaluate (cr_condition req) v))"
proof -
  note facts = create_alarm_rule_Inr [OF assms(1)]
  from facts obtain now where ins: "create_rule_sql req now (db w) = (next_rule_id (db w), db w')" by blast
  have dbw': "snd (create_rule_sql req now (db w)) = db w'" using ins by simp
  obtain r' where r': "find (\<lambda>r. ar_id r = next_rule_id (db w)) (alarm_rules (db w')) = Some r'"
    "r' \<in> set (enabled_rules (cr_product_id req) (db w'))" "r' = last (alarm_rules (db w'))"
    by (rule create_rule_sql_row [OF assms(2), of req now, unfolded dbw'])
  from facts r'(1) have [simp]: "r' = r" by simp
  have row: "r = last (alarm_rules (snd (create_rule_sql req now (db w))))" using r'(3) dbw' by simp
  from facts have v: "validate_condition (cr_condition req) ''condition'' = Inr ()"
    "validate_device_trigger_condition (cr_trigger_type req) (cr_condition req) = Inr ()"
    "\<forall>c. cr_clear_condition req = Some c \<longrightarrow> validate_condition c ''clear_condition'' = Inr ()"
    "validate_actions (cr_actions req) = Inr ()"
    by (auto simp: validate_create_rule_request_def seq_check_Inr)
  have "st = 201" "cached_rules w' (cr_product_id req) = None" using facts by simp_all
  moreover from facts have "\<exists>p\<in>set (products (db w)). pt_model_no p = cr_product_id req"
    by (auto simp: find_Some_iff)
  moreover have "db w' = (db w)\<lparr>alarm_rules := alarm_rules (db w) @ [r], next_rule_id := next_rule_id (db w) + 1\<rparr>"
    unfolding row dbw' [symmetric] by (simp add: create_rule_sql_def Let_def)
  moreover have "ar_id r = next_rule_id (db w)" unfolding row by (simp add: create_rule_sql_def Let_def)
  then have "ar_id r \<notin> ar_id ` set (alarm_rules (db w))" using assms(2) by (auto simp: wf_rules_def)
  moreover have "\<exists>now. r = \<lparr>ar_id = ar_id r, ar_product_id = cr_product_id req, ar_name = cr_name req,
       ar_description = cr_description req, ar_trigger_type = cr_trigger_type req,
       ar_trigger_config = cr_trigger_config req, ar_condition = cr_condition req, ar_actions = cr_actions req,
       ar_enabled = True, ar_throttle_minutes = cr_throttle_minutes req,
       ar_duration_minutes = cr_duration_minutes req, ar_clear_condition = cr_clear_condition req,
       ar_created_at = now, ar_updated_at = now\<rparr>"
    unfolding row by (simp add: create_rule_sql_def Let_def)
  moreover have "r \<in> set (enabled_rules (cr_product_id req) (db w'))" using r'(2) by simp
  moreover have "\<exists>entries. cr_actions req = JArray entries \<and> find_alarm_action (parse_actions entries) \<noteq> None"
    using validate_actions_Inr [OF v(4)] by auto
  moreover have "\<forall>c\<in>{cr_condition req} \<union> set_option (cr_clear_condition req).
       \<exists>op. json_get c ''operator'' = Some (JString op) \<and> is_supported_operator op"
    using validate_condition_Inr [OF v(1)] v(3) by (auto dest: validate_condition_Inr)
  moreover have "cr_trigger_type req \<in> {''device_online'', ''device_offline''} \<longrightarrow> (\<forall>v. evaluate (cr_condition req) v)"
    using validate_device_trigger_Inr [OF v(2)] by (auto intro: evaluate_by_operator(5))
  ultimately show ?thesis by blast
qed

theorem accepted_rule_is_loaded_witness:
  "\<exists>r w'. create_alarm_rule noop_ops sample_rule_request all_done sample_rules_world = (Inr (201, r), w') \<and>
     alarm_rules (db w') = alarm_rules (db sample_rules_world) @ [r] \<and>
     r \<in> set (enabled_rules ''p'' (db w')) \<and> cached_rules w' ''p'' = None"
proof -
  obtain r w' where run: "create_alarm_rule noop_ops sample_rule_request all_done sample_rules_world = (Inr (201, r), w')"
    by (rule create_alarm_rule_succeeds [OF reliable_all_done sample_rule_acceptable sample_rules_world_facts(6)])
  have "cr_product_id sample_rule_request = ''p''" by (simp add: sample_rule_request_def)
  with accepted_rule_is_loaded [OF run sample_rules_world_facts(6)] run show ?thesis by auto
qed

text \<open>
  A change can be stored and yet not reach the engine. If the statement that inserts an acceptable
  rule succeeds and the query that reads the row back fails, the caller gets status 500, the rule is
  enabled in the database, and the cached rules of its product are left as they were, so a product
  whose rules are cached goes on without the new rule.
\<close>

theorem failed_refetch_leaves_stale_rules:
  assumes "rule_acceptable req (db w)" and "wf_rules (db w)"
    and "outcome_at env (tick w) = Done" "outcome_at env (tick w + 1) = Done" "outcome_at env (tick w + 2) = Refused"
  shows "\<exists>e w'. create_alarm_rule ops req env w = (Inl e, w') \<and> status e = 500 \<and>
    cached_rules w' = cached_rules w \<and>
    (\<exists>r\<in>set (enabled_rules (cr_product_id req) (db w')). ar_id r = next_rule_id (db w))"
proof -
  define w2 where "w2 = w\<lparr>tick := Suc (Suc (tick w)), db := snd (create_rule_sql req (now_at env (Suc (tick w))) (db w))\<rparr>"
  have w2: "db w2 = snd (create_rule_sql req (now_at env (Suc (tick w))) (db w))" "cached_rules w2 = cached_rules w"
    "tick w2 = Suc (Suc (tick w))" by (simp_all add: w2_def)
  have "fetch_rule i m env w2 = (Inl (map_db_err CallFailed), w2\<lparr>tick := Suc (tick w2)\<rparr>)" for i m
    using assms(5) by (simp add: fetch_rule_def get_rule_by_id_def db_query_def db_exec_def ext_call_def Let_def w2(3)
        prog_simps)
  then have run: "create_alarm_rule ops req env w = (Inl (map_db_err CallFailed), w2\<lparr>tick := Suc (tick w2)\<rparr>)"
    using create_alarm_rule_inserts [OF assms(1,3)] assms(4) by (simp add: bindE_def flip: w2_def)
  obtain r where "r \<in> set (enabled_rules (cr_product_id req) (db w2))" "ar_id r = next_rule_id (db w)"
    unfolding w2(1) by (rule create_rule_sql_row [OF assms(2)])
  with run w2(2) show ?thesis by auto
qed

theorem failed_refetch_leaves_stale_rules_witness:
  "\<exists>e w'. create_alarm_rule noop_ops sample_rule_request (all_done\<lparr>outcome_at := (\<lambda>n. if n = 2 then Refused else Done)\<rparr>)
       sample_rules_world = (Inl e, w') \<and> status e = 500 \<and> cached_rules w' ''p'' = Some [] \<and> enabled_rules ''p'' (db w') \<noteq> []"
proof -
  let ?env = "all_done\<lparr>outcome_at := (\<lambda>n. if n = 2 then Refused else Done)\<rparr>"
  have "cr_product_id sample_rule_request = ''p''" by (simp add: sample_rule_request_def)
  moreover have "cached_rules sample_rules_world ''p'' = Some []" by (simp add: sample_rules_world_facts)
  moreover have "outcome_at ?env (tick sample_rules_world) = Done" "outcome_at ?env (tick sample_rules_world + 1) = Done"
    "outcome_at ?env (tick sample_rules_world + 2) = Refused"
    by (simp_all add: sample_rules_world_facts)
  note failed_refetch_leaves_stale_rules [OF sample_rule_acceptable sample_rules_world_facts(6) this, where ops = noop_ops]
  ultimately show ?thesis by fastforce
qed

section \<open>Acknowledging and clearing\<close>

lemma fetch_alarm_reliable:
  "reliable env \<Longrightarrow>
   fetch_alarm i e env w =
     (case find (\<lambda>a. al_id a = i) (alarms (db w)) of None \<Rightarrow> Inl e | Some a \<Rightarrow> Inr a, w\<lparr>tick := Suc (tick w)\<rparr>)"
  by (simp add: fetch_alarm_def get_alarm_by_id_def prog_simps reliable_simps split: option.split)

lemma ack_answer:
  assumes "reliable env"
  shows "fst (ack_alarm_handler rfc i env w) =
      (case find (\<lambda>a. al_id a = i) (alarms (db w)) of
         None \<Rightarrow> Inl (not_found ''Alarm not found'')
       | Some a \<Rightarrow>
           if al_status a = ''active''
           then Inr (api_alarm_from rfc (a\<lparr>al_acknowledged := True, al_status := ''acknowledged''\<rparr>))
           else Inl (conflict ''Only alarms in active status can be acknowledged''))"
proof (cases "find (\<lambda>a. al_id a = i) (alarms (db w))")
  case None
  with assms show ?thesis by (simp add: ack_alarm_handler_def fetch_alarm_reliable bindE_def)
next
  case (Some a)
  then have a: "al_id a = i" "a \<in> set (alarms (db w))" by (auto dest: find_SomeD)
  then have "al_status a = ''active'' \<longrightarrow> 0 < count_where (\<lambda>a. al_id a = i \<and> al_status a = ''active'') (alarms (db w))"
    unfolding count_where_pos by blast
  with Some a(1) assms show ?thesis
    by (auto simp: ack_alarm_handler_def fetch_alarm_reliable ack_alarm_def ack_alarm_sql_def update_alarms_def
        reliable_simps prog_simps find_update_where)
qed

lemma clear_answer:
  assumes "reliable env"
  shows "fst (clear_alarm_handler rfc i env w) =
      (case find (\<lambda>a. al_id a = i) (alarms (db w)) of
         None \<Rightarrow> Inl (not_found ''Alarm not found'')
       | Some a \<Rightarrow>
           if al_status a = ''cleared'' then Inl (conflict ''Alarm already cleared'')
           else Inr (api_alarm_from rfc (a\<lparr>al_status := ''cleared'',
                  al_cleared_at := Some (now_at env (tick w + 1)), al_acknowledged := True\<rparr>)))"
proof (cases "find (\<lambda>a. al_id a = i) (alarms (db w))")
  case None
  with assms show ?thesis by (simp add: clear_alarm_handler_def fetch_alarm_reliable bindE_def)
next
  case (Some a)
  then have a: "al_id a = i" "a \<in> set (alarms (db w))" by (auto dest: find_SomeD)
  then have "al_status a \<noteq> ''cleared'' \<longrightarrow> 0 < count_where (\<lambda>a. al_id a = i \<and> al_status a \<noteq> ''cleared'') (alarms (db w))"
    unfolding count_where_pos by blast
  with Some a(1) assms show ?thesis
    by (auto simp: clear_alarm_handler_def fetch_alarm_reliable clear_alarm_def clear_alarm_sql_def update_alarms_def
        reliable_simps prog_simps find_update_where)
qed

text \<open>
  When the database answers, acknowledging and clearing an alarm do exactly what the API promises:
  an unknown alarm is answered with 404, an alarm past the state the request needs with 409, and
  otherwise the answer shows the alarm after the transition: acknowledged, or cleared at the time of
  the update.
\<close>

theorem ack_and_clear_answers:
  assumes "reliable env"
  shows "fst (ack_alarm_handler rfc i env w) =
      (case find (\<lambda>a. al_id a = i) (alarms (db w)) of
         None \<Rightarrow> Inl (not_found ''Alarm not found'')
       | Some a \<Rightarrow>
           if al_status a = ''active''
           then Inr (api_alarm_from rfc (a\<lparr>al_acknowledged := True, al_status := ''acknowledged''\<rparr>))
           else Inl (conflict ''Only alarms in active status can be acknowledged'')) \<and>
    fst (clear_alarm_handler rfc i env w) =
      (case find (\<lambda>a. al_id a = i) (alarms (db w)) of
         None \<Rightarrow> Inl (not_found ''Alarm not found'')
       | Some a \<Rightarrow>
           if al_status a = ''cleared'' then Inl (conflict ''Alarm already cleared'')
           else Inr (api_alarm_from rfc (a\<lparr>al_status := ''cleared'',
                  al_cleared_at := Some (now_at env (tick w + 1)), al_acknowledged := True\<rparr>)))"
  using ack_answer [OF assms] clear_answer [OF assms] by blast

definition cleared_alarm_world :: "unit world" where
  "cleared_alarm_world = empty_world\<lparr>db := snd (clear_alarm_sql 1 5
     (snd (insert_alarm_sql 7 ''r'' ''p'' ''d'' 1 None None ''event'' 2 empty_db)))\<rparr>"

theorem ack_and_clear_answers_witness:
  "fst (ack_alarm_handler (\<lambda>_. None) 1 all_done cleared_alarm_world) =
     Inl (conflict ''Only alarms in active status can be acknowledged'')"
  using ack_and_clear_answers [OF reliable_all_done, of "\<lambda>_. None" 1 cleared_alarm_world]
  by (simp add: cleared_alarm_world_def clear_alarm_sql_def update_alarms_def insert_alarm_sql_def Let_def empty_db_def)

end
