(* ===== verification/Ota.thy ===== *)
theory Ota
  imports Device_Api
begin

text \<open>
  Firmware updates: \<open>backend/src/db/ota.rs\<close>, \<open>backend/src/api/ota_handlers.rs\<close> and the firmware
  endpoints of \<open>backend/src/api/admin_handlers.rs\<close>. A version \<open>major.minor.patch\<close> is stored as one
  32-bit integer. \<open>parse_report\<close> and \<open>to_string\<close> stand for serde. The text of an integer parse error
  is left empty; arithmetic on \<open>i32\<close> wraps, as in a release build.
\<close>

definition parse_i32 :: "string \<Rightarrow> int option" where
  "parse_i32 s =
     (case parse_i64 s of
        None \<Rightarrow> None
      | Some v \<Rightarrow> if - (2 ^ 31) \<le> v \<and> v < 2 ^ 31 then Some v else None)"

definition as_i32 :: "int \<Rightarrow> int" where
  "as_i32 x = (x + 2 ^ 31) mod 2 ^ 32 - 2 ^ 31"

section \<open>Versions as integers\<close>

definition parse_version_to_int :: "string \<Rightarrow> io_error + int" where
  "parse_version_to_int version_str =
     (case split_on CHR ''.'' version_str of
        [a, b, c] \<Rightarrow>
          (case (parse_i32 a, parse_i32 b, parse_i32 c) of
             (Some major, Some minor, Some patch) \<Rightarrow>
               if major > 99 \<or> minor > 99 \<or> patch > 999 then Inl (Bail ''Version parts are too large'')
               else Inr (as_i32 (as_i32 (as_i32 (major * 100000) + as_i32 (minor * 1000)) + patch))
           | _ \<Rightarrow> Inl (Bail []))
      | _ \<Rightarrow> Inl (Bail ''Version format must be major.minor.patch''))"

definition parse_semver_to_int :: "string \<Rightarrow> api_error + int" where
  "parse_semver_to_int version =
     (case split_on CHR ''.'' version of
        [a, b, c] \<Rightarrow>
          (case (parse_u32 a, parse_u32 b, parse_u32 c) of
             (Some major, Some minor, Some patch) \<Rightarrow>
               if major > 99 \<or> minor > 99 \<or> patch > 999
               then Inl (bad_request ''Invalid version format: a segment exceeds its allowed range'')
               else Inr (as_i32 (as_i32 (as_i32 (int major * 100000) + as_i32 (int minor * 1000)) + int patch))
           | _ \<Rightarrow> Inl (bad_request ''Invalid version format: each segment must be numeric''))
      | _ \<Rightarrow> Inl (bad_request ''Invalid version format: must be major.minor.patch (e.g. 1.2.3)''))"

definition format_semver_from_int :: "int \<Rightarrow> string" where
  "format_semver_from_int encoded =
     (let major = encoded sdiv 100000;
          minor = (encoded smod 100000) sdiv 1000;
          patch = encoded smod 1000
      in show_int major @ ''.'' @ show_int minor @ ''.'' @ show_int patch)"

section \<open>Statements\<close>

record create_ota_version_request =
  co_product_id :: string
  co_key :: string
  co_version :: string
  co_max_version :: "string option"
  co_min_version :: string
  co_file_key :: string
  co_log :: "json option"
  co_device_ids :: "string list option"
  co_bin_length :: int
  co_bin_md5 :: string

record update_ota_version_request =
  uo_max_version :: "string option"
  uo_min_version :: "string option"
  uo_file_key :: "string option"
  uo_log :: "json option"
  uo_device_ids :: "string list option"
  uo_bin_length :: "int option"
  uo_bin_md5 :: "string option"

definition version_for :: "string \<Rightarrow> string \<Rightarrow> string \<Rightarrow> device_version \<Rightarrow> bool" where
  "version_for product_id device_id key r \<longleftrightarrow>
     vr_product_id r = product_id \<and> vr_device_id r = device_id \<and> vr_key r = key"

text \<open>A known version is replaced only by a different one, and only ten minutes after the last change.\<close>

definition upsert_device_version_sql ::
  "string \<Rightarrow> string \<Rightarrow> string \<Rightarrow> int \<Rightarrow> instant \<Rightarrow> database \<Rightarrow> unit \<times> database" where
  "upsert_device_version_sql product_id device_id key version now d =
     (let P = version_for product_id device_id key
      in if count_where P (device_versions d) = 0
         then ((), d\<lparr>device_versions := device_versions d @
                 [\<lparr>vr_product_id = product_id, vr_device_id = device_id, vr_key = key, vr_version = version,
                   vr_last_updated_at = Some now, vr_updated_at = now\<rparr>]\<rparr>)
         else ((), d\<lparr>device_versions :=
                 update_where
                   (\<lambda>r. P r \<and> vr_version r \<noteq> version \<and>
                        (case vr_last_updated_at r of None \<Rightarrow> True | Some t \<Rightarrow> t < now - 10 * ns_per_min))
                   (\<lambda>r. r\<lparr>vr_version := version, vr_last_updated_at := Some now, vr_updated_at := now\<rparr>)
                   (device_versions d)\<rparr>))"

definition upsert_device_version :: "string \<Rightarrow> string \<Rightarrow> string \<Rightarrow> int \<Rightarrow> ('s, io_error, unit) io" where
  "upsert_device_version product_id device_id key version =
     bindE now_utc (\<lambda>now. db_exec (\<lambda>_. upsert_device_version_sql product_id device_id key version now))"

definition ota_eligible ::
  "string \<Rightarrow> string \<Rightarrow> string \<Rightarrow> int \<Rightarrow> instant \<Rightarrow> ota_version \<Rightarrow> bool" where
  "ota_eligible product_id device_id key version now v \<longleftrightarrow>
     ov_product_id v = product_id \<and> ov_key v = key \<and> ov_status v = 0 \<and> version \<ge> ov_min_version v \<and>
     (case ov_max_version v of None \<Rightarrow> True | Some m \<Rightarrow> m > version) \<and>
     ov_released_at v \<le> now \<and>
     (case ov_device_ids v of None \<Rightarrow> True | Some ids \<Rightarrow> device_id \<in> set ids)"

definition ota_update ::
  "string \<Rightarrow> string \<Rightarrow> string \<Rightarrow> int \<Rightarrow> instant \<Rightarrow> database \<Rightarrow> ota_version option" where
  "ota_update product_id device_id key version now d =
     (case sort_key (\<lambda>v. - ov_version v) (filter (ota_eligible product_id device_id key version now) (ota_versions d)) of
        [] \<Rightarrow> None
      | v # _ \<Rightarrow> Some v)"

definition get_ota_update :: "string \<Rightarrow> string \<Rightarrow> string \<Rightarrow> int \<Rightarrow> ('s, io_error, ota_version option) io" where
  "get_ota_update product_id device_id key version = db_query (ota_update product_id device_id key version)"

text \<open>The unique index on product, key and version covers the rows with status 0.\<close>

definition live_version :: "string \<Rightarrow> string \<Rightarrow> int \<Rightarrow> ota_version \<Rightarrow> bool" where
  "live_version product_id key version v \<longleftrightarrow>
     ov_product_id v = product_id \<and> ov_key v = key \<and> ov_version v = version \<and> ov_status v = 0"

definition insert_ota_version_sql ::
  "create_ota_version_request \<Rightarrow> int \<Rightarrow> int \<Rightarrow> int option \<Rightarrow> instant \<Rightarrow> database \<Rightarrow> (io_error + int) \<times> database" where
  "insert_ota_version_sql req version min_version max_version now d =
     (let i = next_ota_version_id d;
          row = \<lparr>ov_id = i, ov_product_id = co_product_id req, ov_key = co_key req, ov_version = version,
                 ov_max_version = max_version, ov_min_version = min_version, ov_file_key = co_file_key req,
                 ov_log = co_log req, ov_device_ids = co_device_ids req, ov_bin_length = co_bin_length req,
                 ov_bin_md5 = co_bin_md5 req, ov_released_at = now, ov_status = 0, ov_created_at = now,
                 ov_updated_at = now\<rparr>
      in if list_ex (live_version (co_product_id req) (co_key req) version) (ota_versions d)
         then (Inl UniqueViolation, d\<lparr>next_ota_version_id := i + 1\<rparr>)
         else (Inr i, d\<lparr>ota_versions := ota_versions d @ [row], next_ota_version_id := i + 1\<rparr>))"

definition parse_opt_version :: "string option \<Rightarrow> io_error + int option" where
  "parse_opt_version v =
     (case v of None \<Rightarrow> Inr None | Some s \<Rightarrow> (case parse_version_to_int s of Inl e \<Rightarrow> Inl e | Inr n \<Rightarrow> Inr (Some n)))"

definition create_ota_version :: "create_ota_version_request \<Rightarrow> ('s, io_error, int) io" where
  "create_ota_version req =
     bindE (lift_res (parse_version_to_int (co_version req))) (\<lambda>version.
     bindE (lift_res (parse_version_to_int (co_min_version req))) (\<lambda>min_version.
     bindE (lift_res (parse_opt_version (co_max_version req))) (\<lambda>max_version.
     bindE (db_exec (insert_ota_version_sql req version min_version max_version)) lift_res)))"

definition set_ota_fields ::
  "update_ota_version_request \<Rightarrow> int option \<Rightarrow> int option \<Rightarrow> instant \<Rightarrow> ota_version \<Rightarrow> ota_version" where
  "set_ota_fields req min_version max_version now v =
     (let v = v\<lparr>ov_updated_at := now\<rparr>;
          v = (case min_version of None \<Rightarrow> v | Some m \<Rightarrow> v\<lparr>ov_min_version := m\<rparr>);
          v = (case max_version of None \<Rightarrow> v | Some m \<Rightarrow> v\<lparr>ov_max_version := Some m\<rparr>);
          v = (case uo_file_key req of None \<Rightarrow> v | Some k \<Rightarrow> v\<lparr>ov_file_key := k\<rparr>);
          v = (case uo_log req of None \<Rightarrow> v | Some l \<Rightarrow> v\<lparr>ov_log := Some l\<rparr>);
          v = (case uo_device_ids req of None \<Rightarrow> v | Some ids \<Rightarrow> v\<lparr>ov_device_ids := Some ids\<rparr>);
          v = (case uo_bin_length req of None \<Rightarrow> v | Some l \<Rightarrow> v\<lparr>ov_bin_length := l\<rparr>)
      in case uo_bin_md5 req of None \<Rightarrow> v | Some h \<Rightarrow> v\<lparr>ov_bin_md5 := h\<rparr>)"

definition update_ota_version_sql ::
  "int \<Rightarrow> update_ota_version_request \<Rightarrow> int option \<Rightarrow> int option \<Rightarrow> instant \<Rightarrow> database \<Rightarrow> nat \<times> database" where
  "update_ota_version_sql i req min_version max_version now d =
     (count_where (\<lambda>v. ov_id v = i) (ota_versions d),
      d\<lparr>ota_versions := update_where (\<lambda>v. ov_id v = i) (set_ota_fields req min_version max_version now) (ota_versions d)\<rparr>)"

definition update_ota_version :: "int \<Rightarrow> update_ota_version_request \<Rightarrow> ('s, io_error, nat) io" where
  "update_ota_version i req =
     bindE (lift_res (parse_opt_version (uo_min_version req))) (\<lambda>min_version.
     bindE (lift_res (parse_opt_version (uo_max_version req))) (\<lambda>max_version.
     if uo_min_version req = None \<and> uo_max_version req = None \<and> uo_file_key req = None \<and> uo_log req = None \<and>
        uo_device_ids req = None \<and> uo_bin_length req = None \<and> uo_bin_md5 req = None
     then ret 0
     else db_exec (update_ota_version_sql i req min_version max_version)))"

definition delete_ota_version_sql :: "int \<Rightarrow> instant \<Rightarrow> database \<Rightarrow> nat \<times> database" where
  "delete_ota_version_sql i now d =
     (count_where (\<lambda>v. ov_id v = i) (ota_versions d),
      d\<lparr>ota_versions := update_where (\<lambda>v. ov_id v = i) (\<lambda>v. v\<lparr>ov_status := 1, ov_updated_at := now\<rparr>) (ota_versions d)\<rparr>)"

definition delete_ota_version :: "int \<Rightarrow> ('s, io_error, nat) io" where
  "delete_ota_version i = db_exec (delete_ota_version_sql i)"

definition get_ota_version_by_id :: "int \<Rightarrow> ('s, io_error, ota_version option) io" where
  "get_ota_version_by_id i = db_query (\<lambda>now d. find (\<lambda>v. ov_id v = i \<and> ov_status v = 0) (ota_versions d))"

definition ota_version_rows :: "string option \<Rightarrow> database \<Rightarrow> ota_version list" where
  "ota_version_rows product_id d = filter (\<lambda>v. ov_status v = 0 \<and> opt_eq product_id (ov_product_id v)) (ota_versions d)"

definition query_ota_versions ::
  "string option \<Rightarrow> int \<Rightarrow> int \<Rightarrow> ('s, io_error, ota_version list \<times> int) io" where
  "query_ota_versions product_id page page_size =
     bindE (query_page (\<lambda>d. sort_key (\<lambda>v. - ov_updated_at v) (ota_version_rows product_id d)) page page_size) (\<lambda>versions.
     bindE (query_count (ota_version_rows product_id)) (\<lambda>total. ret (versions, total)))"

section \<open>Administration\<close>

definition get_ota_versions_handler ::
  "string option \<Rightarrow> int \<Rightarrow> int \<Rightarrow> ('s, api_error, ota_version list \<times> pagination_info) io" where
  "get_ota_versions_handler product_id page page_size =
     bindE (case product_id of Some pid \<Rightarrow> lift_res (validate_identifier pid ''product_id'') | None \<Rightarrow> ret ()) (\<lambda>_.
     bindE (map_err map_db_err (query_ota_versions product_id page page_size)) (\<lambda>(versions, total).
     ret (versions, \<lparr>pg_page = page, pg_page_size = page_size, pg_total = total\<rparr>)))"

definition get_ota_version_handler :: "int \<Rightarrow> ('s, api_error, ota_version) io" where
  "get_ota_version_handler i =
     bindE (map_err map_db_err (get_ota_version_by_id i)) (\<lambda>v. ok_or (not_found ''Version not found'') v)"

definition create_ota_version_handler :: "create_ota_version_request \<Rightarrow> ('s, api_error, nat) io" where
  "create_ota_version_handler req =
     bindE (lift_res (validate_identifier (co_product_id req) ''product_id'')) (\<lambda>_.
     bindE (lift_res (validate_identifier (co_key req) ''key'')) (\<lambda>_.
     bindE (lift_res (validate_version_format (co_version req) ''version'')) (\<lambda>_.
     bindE (lift_res (validate_version_format (co_min_version req) ''min_version'')) (\<lambda>_.
     bindE (case co_max_version req of
              Some max_ver \<Rightarrow> lift_res (validate_version_format max_ver ''max_version'')
            | None \<Rightarrow> ret ()) (\<lambda>_.
     bindE (map_err map_db_err (create_ota_version req)) (\<lambda>_. ret 201))))))"

definition update_ota_version_handler :: "int \<Rightarrow> update_ota_version_request \<Rightarrow> ('s, api_error, nat) io" where
  "update_ota_version_handler i req =
     bindE (case uo_min_version req of
              Some min_ver \<Rightarrow> lift_res (validate_version_format min_ver ''min_version'')
            | None \<Rightarrow> ret ()) (\<lambda>_.
     bindE (case uo_max_version req of
              Some max_ver \<Rightarrow> lift_res (validate_version_format max_ver ''max_version'')
            | None \<Rightarrow> ret ()) (\<lambda>_.
     bindE (map_err map_db_err (update_ota_version i req)) (\<lambda>rows_affected.
     if rows_affected > 0 then ret 200 else throw (not_found ''Version not found or no changes made''))))"

definition delete_ota_version_handler :: "int \<Rightarrow> ('s, api_error, nat) io" where
  "delete_ota_version_handler i =
     bindE (map_err map_db_err (delete_ota_version i)) (\<lambda>rows_affected.
     if rows_affected > 0 then ret 200 else throw (not_found ''Version not found''))"

section \<open>Reports of devices\<close>

record ota_report =
  or_key :: string
  or_version :: string

record ota_report_params =
  op_params :: "ota_report list"
  op_id :: string
  op_ack :: ack_status

fun collect_updates :: "string \<Rightarrow> string \<Rightarrow> ota_report list \<Rightarrow> ('s, api_error, ota_version list) io" where
  "collect_updates product_id device_id [] = ret []"
| "collect_updates product_id device_id (report # reports) =
     bindE (lift_res (parse_semver_to_int (or_version report))) (\<lambda>version_int.
     bindE (map_err map_db_err (upsert_device_version product_id device_id (or_key report) version_int)) (\<lambda>_.
     bindE (map_err map_db_err (get_ota_update product_id device_id (or_key report) version_int)) (\<lambda>found.
     bindE (collect_updates product_id device_id reports) (\<lambda>updates.
     ret ((case found of Some ota_version \<Rightarrow> [ota_version] | None \<Rightarrow> []) @ updates)))))"

definition upgrade_params :: "ota_version \<Rightarrow> json" where
  "upgrade_params v =
     json_obj [(''key'', JString (ov_key v)), (''file_url'', JString (ov_file_key v)),
               (''version'', JString (format_semver_from_int (ov_version v))),
               (''log'', case ov_log v of Some l \<Rightarrow> l | None \<Rightarrow> JNull)]"

definition upgrade_payload :: "string \<Rightarrow> ota_version list \<Rightarrow> json" where
  "upgrade_payload i updates =
     json_obj [(''id'', JString i), (''ack'', JNumber (PosInt 0)), (''params'', JArray (map upgrade_params updates))]"

definition ota_version_post ::
  "libs \<Rightarrow> (string \<Rightarrow> ota_report_params option) \<Rightarrow> (json \<Rightarrow> string) \<Rightarrow> app_config \<Rightarrow> rmqtt_publish_message \<Rightarrow>
   ('s, api_error, nat) io" where
  "ota_version_post L parse_report to_string cfg mqtt_msg =
     bindE (lift_res (extract_and_validate_product_id (pm_topic mqtt_msg))) (\<lambda>product_id.
     let device_id = pm_client_id mqtt_msg
     in bindE (lift_res (validate_identifier device_id ''device_id'')) (\<lambda>_.
        bindE (ok_or (bad_request ''Invalid payload format'') (decode_payload L mqtt_msg)) (\<lambda>bytes.
        bindE (ok_or (bad_request ''Invalid params for OtaReportParams'') (parse_report bytes)) (\<lambda>ota_report_params.
        bindE (collect_updates product_id device_id (op_params ota_report_params)) (\<lambda>updates.
        bindE (if op_ack ota_report_params = AckYes
               then ignoreE (ack_response (ser_response L) (app_mqtt cfg) (op_id ota_report_params) (pm_topic mqtt_msg))
               else ret ()) (\<lambda>_.
        if updates \<noteq> [] then
          bindE (map_err (\<lambda>_. internal ''Failed to publish OTA upgrade message'')
            (publish_command (app_mqtt cfg)
              \<lparr>pr_topic = ''/'' @ product_id @ ''/'' @ device_id @ ''/ota/upgrade'',
               pr_clientid = rc_clientid (mq_response (app_mqtt cfg)),
               pr_payload = to_string (upgrade_payload (op_id ota_report_params) updates),
               pr_encoding = None, pr_qos = Some 1, pr_retain = Some False\<rparr>)) (\<lambda>_. ret 204)
        else ret 204))))))"

section \<open>The version encoding\<close>

definition semver_parts :: "string \<Rightarrow> (nat \<times> nat \<times> nat) option" where
  "semver_parts s =
     (case split_on CHR ''.'' s of
        [a, b, c] \<Rightarrow> Option.bind (parse_u32 a) (\<lambda>x. Option.bind (parse_u32 b) (\<lambda>y.
          map_option (\<lambda>z. (x, y, z)) (parse_u32 c)))
      | _ \<Rightarrow> None)"

definition semver_in_range :: "nat \<times> nat \<times> nat \<Rightarrow> bool" where
  "semver_in_range = (\<lambda>(x, y, z). x \<le> 99 \<and> y \<le> 99 \<and> z \<le> 999)"

definition encode_semver :: "nat \<times> nat \<times> nat \<Rightarrow> int" where
  "encode_semver = (\<lambda>(x, y, z). int x * 100000 + int y * 1000 + int z)"

lemma as_i32_id: "- (2 ^ 31) \<le> x \<Longrightarrow> x < 2 ^ 31 \<Longrightarrow> as_i32 x = x"
  by (simp add: as_i32_def)

lemma encode_no_overflow:
  "x \<le> 99 \<Longrightarrow> y \<le> 99 \<Longrightarrow> z \<le> 999 \<Longrightarrow>
   as_i32 (as_i32 (as_i32 (int x * 100000) + as_i32 (int y * 1000)) + int z) = encode_semver (x, y, z)"
  by (simp add: as_i32_id encode_semver_def)

lemma parse_semver_Inr:
  "parse_semver_to_int s = Inr n \<longleftrightarrow>
   (\<exists>p. semver_parts s = Some p \<and> semver_in_range p \<and> n = encode_semver p)"
  by (auto simp: parse_semver_to_int_def semver_parts_def semver_in_range_def encode_no_overflow
      bind_eq_Some_conv not_less split: list.splits option.splits if_splits)

lemma parse_semver_Inl: "parse_semver_to_int s = Inl e \<Longrightarrow> status e = 400"
  by (auto simp: parse_semver_to_int_def split: list.splits option.splits if_splits)

lemma length_3_iff: "length xs = 3 \<longleftrightarrow> (\<exists>a b c. xs = [a, b, c])"
  by (auto simp: numeral_3_eq_3 length_Suc_conv)

lemma validate_version_Inr:
  "validate_version_format s f = Inr () \<longleftrightarrow> (\<exists>p. semver_parts s = Some p \<and> semver_in_range p)"
proof (cases "length (split_on CHR ''.'' s) = 3")
  case True
  then obtain a b c where "split_on CHR ''.'' s = [a, b, c]" by (auto simp: length_3_iff)
  then show ?thesis
    by (auto simp: validate_version_format_def Let_def semver_parts_def semver_in_range_def
        bind_eq_Some_conv not_less split: option.splits)
next
  case False
  then show ?thesis
    by (auto simp: validate_version_format_def Let_def semver_parts_def split: list.splits)
qed

lemma parse_u32_i32:
  assumes "parse_u32 s = Some n" "n \<le> 999"
  shows "parse_i32 s = Some (int n)"
proof -
  have "strip_sign CHR ''-'' s = None"
    using assms by (cases s) (auto simp: parse_u32_def strip_sign_def parse_digits_def split: if_splits option.splits)
  with assms show ?thesis
    by (auto simp: parse_u32_def parse_i32_def parse_i64_def i64_min_def i64_max_def split: option.splits if_splits)
qed

lemma parse_version_agrees:
  assumes "semver_parts s = Some p" "semver_in_range p"
  shows "parse_version_to_int s = Inr (encode_semver p)"
proof -
  obtain x y z where p: "p = (x, y, z)" by (cases p)
  from assms(1) obtain a b c where split: "split_on CHR ''.'' s = [a, b, c]"
    and parts: "parse_u32 a = Some x" "parse_u32 b = Some y" "parse_u32 c = Some z"
    by (auto simp: semver_parts_def p bind_eq_Some_conv split: list.splits)
  from assms(2) have r: "x \<le> 99" "y \<le> 99" "z \<le> 999" by (simp_all add: semver_in_range_def p)
  then have "parse_i32 a = Some (int x)" "parse_i32 b = Some (int y)" "parse_i32 c = Some (int z)"
    using parts by (simp_all add: parse_u32_i32)
  with split r encode_no_overflow [OF r] show ?thesis by (simp add: parse_version_to_int_def p)
qed

lemma encode_semver_bounds:
  "semver_in_range p \<Longrightarrow> 0 \<le> encode_semver p \<and> encode_semver p \<le> 9999999"
  by (cases p) (simp add: semver_in_range_def encode_semver_def)

lemma encode_semver_less:
  "semver_in_range p \<Longrightarrow> semver_in_range q \<Longrightarrow> encode_semver p < encode_semver q \<longleftrightarrow> p < q"
  by (cases p; cases q) (auto simp: semver_in_range_def encode_semver_def less_prod_def)

lemma signed_div_nonneg:
  "0 \<le> a \<Longrightarrow> 0 < b \<Longrightarrow> a sdiv b = a div b" "0 \<le> a \<Longrightarrow> 0 < b \<Longrightarrow> a smod b = a mod b" for a b :: int
  by (auto simp: signed_divide_int_def signed_modulo_int_def sgn_if minus_mult_div_eq_mod [symmetric])

lemma format_encode:
  assumes "semver_in_range (x, y, z)"
  shows "format_semver_from_int (encode_semver (x, y, z)) = show_nat x @ ''.'' @ show_nat y @ ''.'' @ show_nat z"
proof -
  let ?n = "encode_semver (x, y, z)"
  from assms have r: "x \<le> 99" "y \<le> 99" "z \<le> 999" by (simp_all add: semver_in_range_def)
  have n: "0 \<le> ?n" using encode_semver_bounds [OF assms] by simp
  have eqs: "?n = 100000 * int x + (int y * 1000 + int z)" "?n = 1000 * (100 * int x + int y) + int z"
    by (simp_all add: encode_semver_def)
  have "?n div 100000 = int x" "?n mod 100000 = int y * 1000 + int z"
    using int_div_pos_eq [OF eqs(1)] int_mod_pos_eq [OF eqs(1)] r by simp_all
  moreover have "(int y * 1000 + int z) div 1000 = int y"
    by (rule int_div_pos_eq [where r = "int z"]) (use r in simp_all)
  moreover have "?n mod 1000 = int z"
    using int_mod_pos_eq [OF eqs(2)] r by simp
  ultimately have "?n sdiv 100000 = int x" "(?n smod 100000) sdiv 1000 = int y" "?n smod 1000 = int z"
    using n by (simp_all add: signed_div_nonneg)
  then show ?thesis by (simp add: format_semver_from_int_def show_int_def)
qed

lemma parse_u32_show: "n \<le> 999 \<Longrightarrow> parse_u32 (show_nat n) = Some n"
  by (simp add: parse_u32_def u32_max_def)

lemma semver_parts_show:
  assumes "semver_in_range (x, y, z)"
  shows "semver_parts (show_nat x @ ''.'' @ show_nat y @ ''.'' @ show_nat z) = Some (x, y, z)"
proof -
  have "CHR ''.'' \<notin> set (show_nat n)" for n
    using show_nat_digits [of n] by (auto simp: list_all_iff is_ascii_digit_def)
  then have "split_on CHR ''.'' (show_nat x @ ''.'' @ show_nat y @ ''.'' @ show_nat z) = [show_nat x, show_nat y, show_nat z]"
    by (simp add: split_on_append split_on_fresh)
  with assms show ?thesis by (simp add: semver_parts_def semver_in_range_def parse_u32_show)
qed

text \<open>
  C26: the integer a version is stored as is faithful. For every two versions a device may report, the
  stored integers lie between 0 and 9999999, compare exactly like the versions compare part by part
  (as numbers, not as text), and printing the integer gives a version that is stored as the same
  integer again.
\<close>

theorem version_encoding_faithful:
  assumes "parse_semver_to_int s = Inr m" and "parse_semver_to_int t = Inr n"
  shows "0 \<le> m \<and> m \<le> 9999999 \<and> (m < n \<longleftrightarrow> the (semver_parts s) < the (semver_parts t)) \<and>
    parse_semver_to_int (format_semver_from_int m) = Inr m"
proof -
  from assms obtain p q where p: "semver_parts s = Some p" "semver_in_range p" "m = encode_semver p"
    and q: "semver_parts t = Some q" "semver_in_range q" "n = encode_semver q"
    by (auto simp: parse_semver_Inr)
  obtain x y z where xyz: "p = (x, y, z)" by (cases p)
  have "semver_parts (format_semver_from_int m) = Some p"
    using p semver_parts_show by (simp add: xyz format_encode)
  then have "parse_semver_to_int (format_semver_from_int m) = Inr m"
    using p by (auto simp: parse_semver_Inr)
  with p q encode_semver_bounds [OF p(2)] encode_semver_less [OF p(2) q(2)] show ?thesis by simp
qed

theorem version_encoding_faithful_witness:
  "parse_semver_to_int ''1.9.20'' = Inr 109020 \<and> parse_semver_to_int ''1.10.3'' = Inr 110003 \<and>
   parse_semver_to_int (format_semver_from_int 109020) = Inr 109020"
proof -
  note eval = parse_semver_to_int_def parse_u32_def parse_digits_def digits_val_def digit_val_def is_ascii_digit_def
    u32_max_def as_i32_def
  have s: "parse_semver_to_int ''1.9.20'' = Inr 109020" by (simp add: eval)
  have t: "parse_semver_to_int ''1.10.3'' = Inr 110003" by (simp add: eval)
  from version_encoding_faithful [OF s t] s t show ?thesis by blast
qed

text \<open>
  Devices and administrators share one version space. A version string is accepted from a device
  exactly when it is accepted from an administrator, both store it as the same integer, and a rejected
  report is answered with 400.
\<close>

theorem version_parsers_agree:
  "case parse_semver_to_int s of
     Inr n \<Rightarrow> validate_version_format s f = Inr () \<and> parse_version_to_int s = Inr n
   | Inl e \<Rightarrow> validate_version_format s f \<noteq> Inr () \<and> status e = 400"
proof (cases "parse_semver_to_int s")
  case (Inl e)
  have "\<not> (semver_parts s = Some p \<and> semver_in_range p)" for p
  proof
    assume "semver_parts s = Some p \<and> semver_in_range p"
    then have "parse_semver_to_int s = Inr (encode_semver p)" by (auto simp: parse_semver_Inr)
    with Inl show False by simp
  qed
  with Inl show ?thesis by (auto simp: validate_version_Inr dest: parse_semver_Inl)
next
  case (Inr n)
  then obtain p where "semver_parts s = Some p" "semver_in_range p" "n = encode_semver p"
    by (auto simp: parse_semver_Inr)
  then have "validate_version_format s f = Inr ()" "parse_version_to_int s = Inr n"
    by (auto simp: validate_version_Inr parse_version_agrees)
  with Inr show ?thesis by simp
qed

section \<open>The offer\<close>

text \<open>Every write of the firmware table.\<close>

inductive ota_step :: "database \<Rightarrow> database \<Rightarrow> bool" where
  ota_insert: "ota_step d (snd (insert_ota_version_sql req v mn mx now d))"
| ota_edit: "ota_step d (snd (update_ota_version_sql i rq mn mx now d))"
| ota_delete: "ota_step d (snd (delete_ota_version_sql i now d))"

text \<open>Ids are unique and no two live rows share product, key and version.\<close>

definition ota_rivals :: "ota_version \<Rightarrow> ota_version \<Rightarrow> bool" where
  "ota_rivals v u \<longleftrightarrow>
     ov_status v = 0 \<and> ov_status u = 0 \<and> ov_product_id v = ov_product_id u \<and> ov_key v = ov_key u \<and>
     ov_version v = ov_version u"

definition live_unique :: "ota_version list \<Rightarrow> bool" where
  "live_unique vs \<longleftrightarrow> (\<forall>v\<in>set vs. \<forall>u\<in>set vs. ota_rivals v u \<longrightarrow> ov_id v = ov_id u)"

definition wf_ota :: "database \<Rightarrow> bool" where
  "wf_ota d \<longleftrightarrow>
     distinct (map ov_id (ota_versions d)) \<and> (\<forall>v\<in>set (ota_versions d). ov_id v < next_ota_version_id d) \<and>
     live_unique (ota_versions d)"

lemma set_ota_fields_keep:
  "ov_id (set_ota_fields rq mn mx now v) = ov_id v" "ov_product_id (set_ota_fields rq mn mx now v) = ov_product_id v"
  "ov_key (set_ota_fields rq mn mx now v) = ov_key v" "ov_version (set_ota_fields rq mn mx now v) = ov_version v"
  "ov_status (set_ota_fields rq mn mx now v) = ov_status v"
  by (simp_all add: set_ota_fields_def Let_def split: option.split)

lemma wf_ota_update:
  assumes wf: "wf_ota d" and id: "\<And>v. ov_id (f v) = ov_id v"
    and rivals: "\<And>v u. ota_rivals (if P v then f v else v) (if P u then f u else u) \<Longrightarrow> ota_rivals v u"
  shows "wf_ota (d\<lparr>ota_versions := update_where P f (ota_versions d)\<rparr>)"
proof -
  let ?g = "\<lambda>v. if P v then f v else v"
  have g: "ov_id (?g v) = ov_id v" for v using id by simp
  have "live_unique (update_where P f (ota_versions d))"
    unfolding live_unique_def set_update_where
  proof (intro ballI impI)
    fix v' u' assume "v' \<in> ?g ` set (ota_versions d)" "u' \<in> ?g ` set (ota_versions d)" and riv: "ota_rivals v' u'"
    then obtain v u where vu: "v \<in> set (ota_versions d)" "u \<in> set (ota_versions d)" "v' = ?g v" "u' = ?g u" by blast
    with riv rivals have "ota_rivals v u" by blast
    with wf vu have "ov_id v = ov_id u" unfolding wf_ota_def live_unique_def by blast
    then show "ov_id v' = ov_id u'" unfolding vu(3,4) g .
  qed
  moreover have "map ov_id (update_where P f (ota_versions d)) = map ov_id (ota_versions d)"
    using id by (rule map_update_where)
  ultimately show ?thesis
    using wf by (auto simp: wf_ota_def set_update_where id)
qed

lemma wf_ota_insert:
  assumes wf: "wf_ota d" and new: "ov_id v = next_ota_version_id d" "\<And>u. u \<in> set (ota_versions d) \<Longrightarrow> \<not> ota_rivals v u"
  shows "wf_ota (d\<lparr>ota_versions := ota_versions d @ [v], next_ota_version_id := next_ota_version_id d + 1\<rparr>)"
proof -
  have "\<not> ota_rivals u v" if "u \<in> set (ota_versions d)" for u
    using new(2) [OF that] by (auto simp: ota_rivals_def)
  with wf new have "live_unique (ota_versions d @ [v])"
    unfolding wf_ota_def live_unique_def by auto
  with wf new(1) show ?thesis by (auto simp: wf_ota_def)
qed

lemma ota_step_wf:
  assumes "ota_step d d'" "wf_ota d"
  shows "wf_ota d'"
  using assms(1)
proof cases
  case (ota_insert req v mn mx now)
  show ?thesis
  proof (cases "list_ex (live_version (co_product_id req) (co_key req) v) (ota_versions d)")
    case True
    with ota_insert assms(2) show ?thesis by (auto simp: insert_ota_version_sql_def Let_def wf_ota_def)
  next
    case False
    with ota_insert assms(2) show ?thesis
      by (auto simp: insert_ota_version_sql_def Let_def list_ex_iff live_version_def ota_rivals_def intro!: wf_ota_insert)
  qed
next
  case (ota_edit i rq mn mx now)
  have "wf_ota (d\<lparr>ota_versions := update_where (\<lambda>v. ov_id v = i) (set_ota_fields rq mn mx now) (ota_versions d)\<rparr>)"
    by (rule wf_ota_update [OF assms(2)]) (auto simp: ota_rivals_def set_ota_fields_keep split: if_splits)
  with ota_edit show ?thesis by (simp add: update_ota_version_sql_def)
next
  case (ota_delete i now)
  have "wf_ota (d\<lparr>ota_versions := update_where (\<lambda>v. ov_id v = i) (\<lambda>v. v\<lparr>ov_status := 1, ov_updated_at := now\<rparr>) (ota_versions d)\<rparr>)"
    by (rule wf_ota_update [OF assms(2)]) (auto simp: ota_rivals_def split: if_splits)
  with ota_delete show ?thesis by (simp add: delete_ota_version_sql_def)
qed

lemma ota_steps_wf: "ota_step\<^sup>*\<^sup>* d d' \<Longrightarrow> wf_ota d \<Longrightarrow> wf_ota d'"
  by (induction rule: rtranclp_induct) (auto intro: ota_step_wf)

lemma steps_ota [steps_intros]:
  "steps_by ota_step (create_ota_version req)" "steps_by ota_step (update_ota_version i rq)"
  "steps_by ota_step (delete_ota_version i)"
  unfolding create_ota_version_def update_ota_version_def delete_ota_version_def
  by (intro steps_intros steps_db_exec r_into_rtranclp, rule ota_insert ota_edit ota_delete)+

text \<open>The requests that write the firmware table.\<close>

datatype ota_call =
  CreateOta create_ota_version_request | UpdateOta int update_ota_version_request | DeleteOta int

definition run_ota_call :: "ota_call \<Rightarrow> ('s, 'e, unit) io" where
  "run_ota_call call =
     (case call of
        CreateOta req \<Rightarrow> ignoreE (create_ota_version_handler req)
      | UpdateOta i req \<Rightarrow> ignoreE (update_ota_version_handler i req)
      | DeleteOta i \<Rightarrow> ignoreE (delete_ota_version_handler i))"

lemma steps_run_ota_call [steps_intros]: "steps_by ota_step (run_ota_call call)"
  unfolding run_ota_call_def create_ota_version_handler_def update_ota_version_handler_def delete_ota_version_handler_def
  by (cases call) (auto intro!: steps_intros)

lemma ota_update_Some:
  assumes "ota_update p dv k n now d = Some v"
  shows "v \<in> set (ota_versions d)" "ota_eligible p dv k n now v"
    "\<And>u. u \<in> set (ota_versions d) \<Longrightarrow> ota_eligible p dv k n now u \<Longrightarrow> ov_version u \<le> ov_version v"
proof -
  let ?rows = "filter (ota_eligible p dv k n now) (ota_versions d)"
  from assms obtain vs where sorted: "sort_key (\<lambda>v. - ov_version v) ?rows = v # vs"
    by (auto simp: ota_update_def split: list.splits)
  have set: "set (v # vs) = set ?rows" unfolding sorted [symmetric] by simp
  then show "v \<in> set (ota_versions d)" "ota_eligible p dv k n now v" by auto
  have "sorted (map (\<lambda>v. - ov_version v) (v # vs))" unfolding sorted [symmetric] by simp
  then show "ov_version u \<le> ov_version v" if "u \<in> set (ota_versions d)" "ota_eligible p dv k n now u" for u
    using that set by auto
qed

lemma ota_update_None:
  "ota_update p dv k n now d = None \<longleftrightarrow> \<not> (\<exists>v\<in>set (ota_versions d). ota_eligible p dv k n now v)"
proof -
  have "ota_update p dv k n now d = None \<longleftrightarrow>
      sort_key (\<lambda>v. - ov_version v) (filter (ota_eligible p dv k n now) (ota_versions d)) = []"
    by (simp add: ota_update_def split: list.split)
  also have "\<dots> \<longleftrightarrow> filter (ota_eligible p dv k n now) (ota_versions d) = []"
    by (metis length_0_conv length_sort)
  finally show ?thesis by (auto simp: filter_empty_conv)
qed

text \<open>
  Which firmware suits a report, in the words of the requirements: it is live and of the product and key, the
  reported version lies in the half-open interval from its minimum to its maximum, if it has one, it is
  released, and the device is on its list, if it has one.
\<close>

definition suits :: "string \<Rightarrow> string \<Rightarrow> string \<Rightarrow> int \<Rightarrow> instant \<Rightarrow> ota_version \<Rightarrow> bool" where
  "suits product_id device_id key version now v \<longleftrightarrow>
     ov_status v = 0 \<and> (ov_product_id v, ov_key v) = (product_id, key) \<and>
     version \<in> {ov_min_version v..} \<and> (\<forall>m. ov_max_version v = Some m \<longrightarrow> version \<in> {..<m}) \<and>
     ov_released_at v \<le> now \<and> (\<forall>ids. ov_device_ids v = Some ids \<longrightarrow> device_id \<in> set ids)"

lemma eligible_suits: "ota_eligible p dv k n now v \<longleftrightarrow> suits p dv k n now v"
  by (auto simp: ota_eligible_def suits_def split: option.split)

text \<open>
  C25: a device is offered the best firmware there is for it. After any requests that create, edit or
  delete firmware versions, whatever calls fail, no two live versions share product, key and version number,
  provided this held before; a report is answered with an offer exactly when some version suits it (live,
  of its product and key, released, the reported version at least the minimum and below the maximum, the
  device on the list if there is one), and the offer is then the one suitable version of highest number.
\<close>

theorem offered_update_is_best:
  assumes "forE calls run_ota_call env w = (r, w')" and "wf_ota (db w)"
  shows "(\<forall>v\<in>set (ota_versions (db w')). \<forall>u\<in>set (ota_versions (db w')). ov_status v = 0 \<and> ov_status u = 0 \<and>
      ov_product_id v = ov_product_id u \<and> ov_key v = ov_key u \<and> ov_version v = ov_version u \<longrightarrow> v = u) \<and>
    (ota_update p dv k n now (db w') = None \<longleftrightarrow> \<not> (\<exists>v\<in>set (ota_versions (db w')). suits p dv k n now v)) \<and>
    (\<forall>v. ota_update p dv k n now (db w') = Some v \<longrightarrow>
      v \<in> set (ota_versions (db w')) \<and> suits p dv k n now v \<and>
      (\<forall>u\<in>set (ota_versions (db w')). suits p dv k n now u \<longrightarrow> u = v \<or> ov_version u < ov_version v))"
proof (intro conjI allI impI ballI)
  have "steps_by ota_step (forE calls run_ota_call)" by (intro steps_intros)
  then have "ota_step\<^sup>*\<^sup>* (db w) (db w')" using assms(1) by (rule steps_byD)
  then have wf: "wf_ota (db w')" using assms(2) by (rule ota_steps_wf)
  have same: "v = u" if "v \<in> set (ota_versions (db w'))" "u \<in> set (ota_versions (db w'))" "ota_rivals v u" for v u
  proof -
    have "ov_id v = ov_id u" using wf that unfolding wf_ota_def live_unique_def by blast
    with wf that(1,2) show ?thesis unfolding wf_ota_def distinct_map inj_on_def by blast
  qed
  show "v = u" if "v \<in> set (ota_versions (db w'))" "u \<in> set (ota_versions (db w'))" "ov_status v = 0 \<and> ov_status u = 0 \<and>
      ov_product_id v = ov_product_id u \<and> ov_key v = ov_key u \<and> ov_version v = ov_version u" for v u
    using same [OF that(1,2)] that(3) by (simp add: ota_rivals_def)
  show "ota_update p dv k n now (db w') = None \<longleftrightarrow> \<not> (\<exists>v\<in>set (ota_versions (db w')). suits p dv k n now v)"
    using ota_update_None by (simp add: eligible_suits)
  fix v assume v: "ota_update p dv k n now (db w') = Some v"
  then show v_in: "v \<in> set (ota_versions (db w'))" "suits p dv k n now v"
    using ota_update_Some(1,2) by (simp_all add: eligible_suits)
  fix u assume u: "u \<in> set (ota_versions (db w'))" "suits p dv k n now u"
  have "ov_version u \<le> ov_version v" using ota_update_Some(3) [OF v u(1)] u(2) by (simp add: eligible_suits)
  moreover have "u = v" if "ov_version u = ov_version v"
    using same [OF u(1) v_in(1)] u(2) v_in(2) that by (simp add: ota_rivals_def suits_def)
  ultimately show "u = v \<or> ov_version u < ov_version v" by fastforce
qed

definition sample_firmware :: ota_version where
  "sample_firmware = \<lparr>ov_id = 1, ov_product_id = ''p'', ov_key = ''main'', ov_version = 100000, ov_max_version = None,
     ov_min_version = 0, ov_file_key = ''f'', ov_log = None, ov_device_ids = None, ov_bin_length = 1, ov_bin_md5 = ''m'',
     ov_released_at = 0, ov_status = 0, ov_created_at = 0, ov_updated_at = 0\<rparr>"

definition sample_firmware_world :: "unit world" where
  "sample_firmware_world = empty_world\<lparr>db := empty_db\<lparr>ota_versions := [sample_firmware], next_ota_version_id := 2\<rparr>\<rparr>"

text \<open>Restricting the sample firmware to one device: the device is offered it, another one is not.\<close>

theorem offered_update_is_best_witness:
  "\<exists>v. let rq = \<lparr>uo_max_version = None, uo_min_version = None, uo_file_key = None, uo_log = None,
       uo_device_ids = Some [''d''], uo_bin_length = None, uo_bin_md5 = None\<rparr>;
       w' = snd ((forE [UpdateOta 1 rq, DeleteOta 7] run_ota_call :: (unit, api_error, unit) io) all_done sample_firmware_world)
     in ota_update ''p'' ''d'' ''main'' 50000 5 (db w') = Some v \<and> suits ''p'' ''d'' ''main'' 50000 5 v \<and>
        ota_update ''p'' ''e'' ''main'' 50000 5 (db w') = None"
proof -
  let ?rq = "\<lparr>uo_max_version = None, uo_min_version = None, uo_file_key = None, uo_log = None,
       uo_device_ids = Some [''d''], uo_bin_length = None, uo_bin_md5 = None\<rparr>"
  let ?m = "forE [UpdateOta 1 ?rq, DeleteOta 7] run_ota_call :: (unit, api_error, unit) io"
  obtain r w' where run: "?m all_done sample_firmware_world = (r, w')" by fastforce
  have wf: "wf_ota (db sample_firmware_world)"
    by (simp add: sample_firmware_world_def wf_ota_def live_unique_def sample_firmware_def)
  let ?v = "sample_firmware\<lparr>ov_device_ids := Some [''d'']\<rparr>"
  have rows: "ota_versions (db w') = [?v]"
    using run by (auto simp: run_ota_call_def update_ota_version_handler_def delete_ota_version_handler_def update_ota_version_def
      delete_ota_version_def parse_opt_version_def prog_simps db_exec_def ext_call_def all_done_def update_ota_version_sql_def
      delete_ota_version_sql_def set_ota_fields_def sample_firmware_world_def sample_firmware_def count_where_def Let_def)
  note best = offered_update_is_best [OF run wf]
  have "suits ''p'' ''d'' ''main'' 50000 5 ?v" "\<not> suits ''p'' ''e'' ''main'' 50000 5 ?v"
    by (simp_all add: suits_def sample_firmware_def)
  with best [of "''p''" "''d''" "''main''" 50000 5] best [of "''p''" "''e''" "''main''" 50000 5] run show ?thesis
    by (simp add: rows Let_def) (metis option.exhaust)
qed

text \<open>A version below the reported one is offered too, if its interval admits the report.\<close>

lemma downgrade_offered: "ota_update ''p'' ''d'' ''main'' 200000 5 (db sample_firmware_world) = Some sample_firmware"
  by (simp add: ota_update_def sample_firmware_world_def ota_eligible_def sample_firmware_def)

text \<open>An empty device list suits no device.\<close>

lemma empty_device_list_suits_none: "ov_device_ids v = Some [] \<Longrightarrow> \<not> suits p dv k n now v"
  by (simp add: suits_def)

end
