(* ===== verification/Admin_Api.thy ===== *)
theory Admin_Api
  imports Device_Api Registry
begin

text \<open>
  The management endpoints of \<open>backend/src/api/admin_handlers.rs\<close> other than charts and firmware, and the
  product list of \<open>backend/src/api/product_handlers.rs\<close>: files, validation templates, commands, the device
  shadow and the histories. \<open>meta_validate\<close> stands for \<open>jsonschema::meta::validate\<close> (the error text when a
  document is not a schema) and \<open>download_url\<close> for the S3 client.
\<close>

record simple_pagination_info =
  sp_page :: int
  sp_page_size :: int

record common_query =
  cq_product_id :: string
  cq_device_id :: "string option"
  cq_page :: int
  cq_page_size :: int

definition check_device_id :: "string option \<Rightarrow> ('s, api_error, unit) io" where
  "check_device_id device_id =
     (case device_id of Some did \<Rightarrow> lift_res (validate_identifier did ''device_id'') | None \<Rightarrow> ret ())"

definition check_product_id :: "string option \<Rightarrow> ('s, api_error, unit) io" where
  "check_product_id product_id =
     (case product_id of Some pid \<Rightarrow> lift_res (validate_identifier pid ''product_id'') | None \<Rightarrow> ret ())"

section \<open>Files\<close>

definition validate_file_key :: "string \<Rightarrow> api_error + unit" where
  "validate_file_key file_key =
     (if file_key = [] \<or> length file_key > 1024 \<or> starts_with file_key ''/'' \<or>
         list_ex (\<lambda>seg. seg = ''..'') (split_on CHR ''/'' file_key)
      then Inl (bad_request ''Invalid fileKey'')
      else Inr ())"

definition admin_file_download_url_handler ::
  "(string \<Rightarrow> string option) \<Rightarrow> app_config \<Rightarrow> nat \<Rightarrow> string \<Rightarrow> ('s, api_error, string \<times> nat) io" where
  "admin_file_download_url_handler download_url cfg expired_seconds file_key =
     bindE (lift_res (validate_file_key file_key)) (\<lambda>_.
     let directory = (case rsplit_once CHR ''/'' file_key of Some (d, _) \<Rightarrow> d | None \<Rightarrow> [])
     in bindE (ok_or (service_unavailable ''S3 client not configured'') (app_directories cfg)) (\<lambda>directories.
        if \<not> is_file_upload_directory_allowed directories [] [] directory
        then throw (forbidden_with ''Directory not allowed'')
        else
          bindE (ok_or (internal ''Failed to get presigned download url'') (download_url file_key)) (\<lambda>url.
          ret (url, expired_seconds))))"

text \<open>The body shared with the factory upload: the name of the object and its presigned post.\<close>

definition presign_upload :: "libs \<Rightarrow> file_upload_request \<Rightarrow> ('s, api_error, json) io" where
  "presign_upload L req =
     bindE (if fu_use_origin_name req then ret (fu_file_name req)
            else bindE (new_uuid L) (\<lambda>u. ret (u @ ''_'' @ fu_file_name req))) (\<lambda>file_name.
     let file_path = fu_directory req @ ''/'' @ file_name
     in ok_or (internal ''Failed to get presigned post'') (presigned_post L file_path))"

definition admin_file_upload_handler :: "libs \<Rightarrow> app_config \<Rightarrow> file_upload_request \<Rightarrow> ('s, api_error, json) io" where
  "admin_file_upload_handler L cfg req =
     (case app_directories cfg of
        Some directories \<Rightarrow>
          if \<not> is_file_upload_directory_allowed directories [] [] (fu_directory req)
          then throw (bad_request ''Directory not allowed'')
          else presign_upload L req
      | None \<Rightarrow> throw (internal ''S3 client not configured''))"

section \<open>Lists\<close>

record property_command_query =
  pq_product_id :: string
  pq_device_id :: "string option"
  pq_status :: "command_status option"
  pq_source :: "command_source option"
  pq_page :: int
  pq_page_size :: int

definition get_property_commands ::
  "property_command_query \<Rightarrow> ('s, api_error, property_command list \<times> pagination_info) io" where
  "get_property_commands query =
     bindE (lift_res (validate_identifier (pq_product_id query) ''product_id'')) (\<lambda>_.
     bindE (check_device_id (pq_device_id query)) (\<lambda>_.
     bindE (map_err map_db_err (query_property_commands_by_source (pq_product_id query) (pq_device_id query)
       (pq_status query) (pq_source query) (pq_page query) (pq_page_size query))) (\<lambda>(commands, total).
     ret (commands, \<lparr>pg_page = pq_page query, pg_page_size = pq_page_size query, pg_total = total\<rparr>))))"

definition get_device_operations ::
  "device_operation_query \<Rightarrow> ('s, api_error, device_operation_view list \<times> pagination_info) io" where
  "get_device_operations query =
     bindE (lift_res (validate_identifier (oq_product_id query) ''product_id'')) (\<lambda>_.
     bindE (check_device_id (oq_device_id query)) (\<lambda>_.
     if oq_page query < 1 \<or> oq_page_size query < 1 then throw (bad_request ''Invalid pagination'')
     else map_err map_db_err (query_device_operations query)))"

definition simple_list ::
  "(string \<Rightarrow> string option \<Rightarrow> int \<Rightarrow> int \<Rightarrow> ('s, io_error, 'r list) io) \<Rightarrow> common_query \<Rightarrow>
   ('s, api_error, 'r list \<times> simple_pagination_info) io" where
  "simple_list run_query query =
     bindE (lift_res (validate_identifier (cq_product_id query) ''product_id'')) (\<lambda>_.
     bindE (check_device_id (cq_device_id query)) (\<lambda>_.
     bindE (map_err map_db_err (run_query (cq_product_id query) (cq_device_id query) (cq_page query) (cq_page_size query)))
       (\<lambda>rows. ret (rows, \<lparr>sp_page = cq_page query, sp_page_size = cq_page_size query\<rparr>))))"

definition get_property_latest ::
  "common_query \<Rightarrow> ('s, api_error, property_latest list \<times> simple_pagination_info) io" where
  "get_property_latest query = simple_list query_property_latest query"

definition get_device_status_history ::
  "common_query \<Rightarrow> ('s, api_error, device_status_history list \<times> simple_pagination_info) io" where
  "get_device_status_history query = simple_list query_device_status_history query"

definition get_property_history ::
  "common_query \<Rightarrow> ('s, api_error, property_history list \<times> simple_pagination_info) io" where
  "get_property_history query = simple_list query_property_history query"

definition get_event_history ::
  "common_query \<Rightarrow> ('s, api_error, event_history list \<times> simple_pagination_info) io" where
  "get_event_history query = simple_list query_event_history query"

record common_query2 =
  c2_product_id :: "string option"
  c2_device_id :: "string option"
  c2_status :: "device_connection_status option"
  c2_registration_source :: "registration_source option"
  c2_page :: int
  c2_page_size :: int

definition get_device_status ::
  "common_query2 \<Rightarrow> ('s, api_error, device_status_with_source list \<times> pagination_info) io" where
  "get_device_status query =
     bindE (check_product_id (c2_product_id query)) (\<lambda>_.
     bindE (check_device_id (c2_device_id query)) (\<lambda>_.
     bindE (map_err map_db_err (query_device_status (c2_product_id query) (c2_device_id query) (c2_status query)
       (c2_registration_source query) (c2_page query) (c2_page_size query))) (\<lambda>(devices, total).
     ret (devices, \<lparr>pg_page = c2_page query, pg_page_size = c2_page_size query, pg_total = total\<rparr>))))"

definition list_products_handler ::
  "(string \<Rightarrow> string \<Rightarrow> bool) \<Rightarrow> string option \<Rightarrow> int \<Rightarrow> int \<Rightarrow> ('s, api_error, product list \<times> pagination_info) io" where
  "list_products_handler ilike search page page_size =
     bindE (map_err (\<lambda>_. internal ''Database operation failed'') (list_products ilike search page page_size))
       (\<lambda>(rows, total). ret (rows, \<lparr>pg_page = page, pg_page_size = page_size, pg_total = total\<rparr>))"

section \<open>Validation templates\<close>

record event_valid_template_query =
  vq_product_id :: "string option"
  vq_event :: "string option"
  vq_page :: int
  vq_page_size :: int

record create_event_valid_template_request =
  ct_product_id :: string
  ct_event :: string
  ct_description :: "string option"
  ct_schema :: json

definition get_event_valid_templates ::
  "event_valid_template_query \<Rightarrow> ('s, api_error, event_valid_template list \<times> pagination_info) io" where
  "get_event_valid_templates query =
     bindE (check_product_id (vq_product_id query)) (\<lambda>_.
     bindE (map_err map_db_err (query_event_valid_templates (vq_product_id query) (vq_event query)
       (vq_page query) (vq_page_size query))) (\<lambda>(templates, total).
     ret (templates, \<lparr>pg_page = vq_page query, pg_page_size = vq_page_size query, pg_total = total\<rparr>)))"

definition get_event_valid_template_handler :: "int \<Rightarrow> ('s, api_error, event_valid_template) io" where
  "get_event_valid_template_handler i =
     bindE (map_err map_db_err (get_event_valid_template_by_id i)) (\<lambda>template.
     ok_or (not_found ''Template not found'') template)"

definition check_schema :: "(json \<Rightarrow> string option) \<Rightarrow> json \<Rightarrow> api_error + unit" where
  "check_schema meta_validate schema =
     (case meta_validate schema of Some e \<Rightarrow> Inl (bad_request (''Invalid JSON schema: '' @ e)) | None \<Rightarrow> Inr ())"

definition create_event_valid_template_handler ::
  "(json \<Rightarrow> string option) \<Rightarrow> create_event_valid_template_request \<Rightarrow> ('s, api_error, nat) io" where
  "create_event_valid_template_handler meta_validate request =
     bindE (lift_res (validate_identifier (ct_product_id request) ''product_id'')) (\<lambda>_.
     bindE (lift_res (check_schema meta_validate (ct_schema request))) (\<lambda>_.
     bindE (map_err map_db_err (insert_event_valid_template (ct_product_id request) (ct_event request)
       (ct_description request) (ct_schema request))) (\<lambda>_. ret 201)))"

text \<open>The key a template's schema is cached under, and the removal after a change; its result is only logged.\<close>

definition schema_key :: "event_valid_template \<Rightarrow> string" where
  "schema_key t =
     (if vt_event t = ''property'' then vt_product_id t else ''event:'' @ vt_product_id t @ '':'' @ vt_event t)"

definition drop_cached_schema :: "event_valid_template option \<Rightarrow> ('s, 'e, unit) io" where
  "drop_cached_schema template =
     (case template of Some t \<Rightarrow> ignoreE (schema_remove (schema_key t)) | None \<Rightarrow> ret ())"

definition update_event_valid_template_status_handler :: "int \<Rightarrow> template_status \<Rightarrow> ('s, api_error, nat) io" where
  "update_event_valid_template_status_handler i st =
     bindE (map_err map_db_err (get_event_valid_template_by_id i)) (\<lambda>template_to_update.
     bindE (map_err map_db_err (update_event_valid_template_status i st)) (\<lambda>rows_affected.
     if rows_affected > 0
     then bindE (drop_cached_schema template_to_update) (\<lambda>_. ret 200)
     else throw (not_found ''Template not found'')))"

text \<open>\<open>e.to_string().contains(ACTIVE_TEMPLATE_SCHEMA_ERR)\<close>.\<close>

definition template_err :: "io_error \<Rightarrow> api_error" where
  "template_err e =
     (case e of
        Bail m \<Rightarrow> if str_contains m ACTIVE_TEMPLATE_SCHEMA_ERR then bad_request m else map_db_err e
      | _ \<Rightarrow> map_db_err e)"

definition update_event_valid_template_handler ::
  "(json \<Rightarrow> string option) \<Rightarrow> int \<Rightarrow> json option \<Rightarrow> string option \<Rightarrow> ('s, api_error, nat) io" where
  "update_event_valid_template_handler meta_validate i schema description =
     bindE (map_err map_db_err (get_event_valid_template_by_id i)) (\<lambda>template_to_update.
     bindE (case schema of Some s \<Rightarrow> lift_res (check_schema meta_validate s) | None \<Rightarrow> ret ()) (\<lambda>_.
     bindE (map_err template_err (update_event_valid_template i schema description)) (\<lambda>rows_affected.
     if rows_affected > 0
     then bindE (drop_cached_schema template_to_update) (\<lambda>_. ret 200)
     else throw (not_found ''Template not found or cannot be updated''))))"

definition delete_event_valid_template_handler :: "int \<Rightarrow> ('s, api_error, nat) io" where
  "delete_event_valid_template_handler i =
     bindE (map_err map_db_err (get_event_valid_template_by_id i)) (\<lambda>template.
     bindE (map_err map_db_err (delete_event_valid_template i)) (\<lambda>rows_affected.
     if rows_affected = 0 then throw (not_found ''Template not found'')
     else bindE (drop_cached_schema template) (\<lambda>_. ret 200)))"

section \<open>Commands\<close>

record create_property_command_request =
  kp_product_id :: string
  kp_device_id :: string
  kp_command :: json

text \<open>Deliver at once if the device is subscribed; every failure is only logged.\<close>

definition try_deliver_properties :: "libs \<Rightarrow> app_config \<Rightarrow> string \<Rightarrow> string \<Rightarrow> ('s, 'e, unit) io" where
  "try_deliver_properties L cfg product_id device_id =
     matchE (is_subscribed_to_properties product_id device_id)
       (\<lambda>is_subscribed.
          if is_subscribed
          then ignoreE (send_property_command_to_device (ser_payload L) (app_mqtt cfg) product_id device_id)
          else ret ())
       (\<lambda>_. ret ())"

definition create_property_command ::
  "libs \<Rightarrow> app_config \<Rightarrow> create_property_command_request \<Rightarrow> ('s, api_error, nat) io" where
  "create_property_command L cfg request =
     bindE (lift_res (validate_identifier (kp_product_id request) ''product_id'')) (\<lambda>_.
     bindE (lift_res (validate_identifier (kp_device_id request) ''device_id'')) (\<lambda>_.
     if is_null (kp_command request) then throw (bad_request ''command cannot be null'')
     else
       bindE (map_err map_db_err (insert_property_command (kp_product_id request) (kp_device_id request)
         (kp_command request) OneShot)) (\<lambda>_.
       bindE (try_deliver_properties L cfg (kp_product_id request) (kp_device_id request)) (\<lambda>_. ret 201))))"

definition delete_property_commands_handler :: "int list \<Rightarrow> ('s, api_error, nat) io" where
  "delete_property_commands_handler ids =
     bindE (map_err map_db_err (delete_property_commands ids)) (\<lambda>_. ret 200)"

definition validate_service_type :: "string \<Rightarrow> api_error + unit" where
  "validate_service_type service_type =
     (if service_type = [] \<or> length service_type > 32 then Inl (bad_request ''serviceType must be 1-32 characters'')
      else case first_invalid_identifier_char service_type of
             Some ch \<Rightarrow> Inl (bad_request (''serviceType contains invalid character '' @ [CHR 0x27] @ ch @ [CHR 0x27] @
               ''. Only alphanumeric characters, hyphens, and underscores are allowed''))
           | None \<Rightarrow> Inr ())"

record create_action_command_request =
  ka_product_id :: string
  ka_device_id :: string
  ka_service_type :: string
  ka_params :: json

record create_action_command_response =
  kr_id :: int
  kr_status :: command_status

definition try_deliver_actions ::
  "libs \<Rightarrow> app_config \<Rightarrow> string \<Rightarrow> string \<Rightarrow> string \<Rightarrow> ('s, 'e, command_status) io" where
  "try_deliver_actions L cfg product_id device_id service_type =
     matchE (is_subscribed_to_service_action product_id device_id service_type)
       (\<lambda>is_subscribed.
          if is_subscribed
          then matchE (send_action_invocations_to_device (ser_payload L) (app_mqtt cfg) product_id device_id)
                 (\<lambda>_. ret Sent) (\<lambda>_. ret Pending)
          else ret Pending)
       (\<lambda>_. ret Pending)"

definition create_service_command ::
  "libs \<Rightarrow> app_config \<Rightarrow> create_action_command_request \<Rightarrow> ('s, api_error, nat \<times> create_action_command_response) io" where
  "create_service_command L cfg request =
     bindE (lift_res (validate_identifier (ka_product_id request) ''product_id'')) (\<lambda>_.
     bindE (lift_res (validate_identifier (ka_device_id request) ''device_id'')) (\<lambda>_.
     bindE (lift_res (validate_service_type (ka_service_type request))) (\<lambda>_.
     let params = (if is_null (ka_params request) then JObject [] else ka_params request)
     in bindE (map_err map_db_err (insert_action_invocation (ka_product_id request) (ka_device_id request)
          (ka_service_type request) params)) (\<lambda>i.
        bindE (try_deliver_actions L cfg (ka_product_id request) (ka_device_id request) (ka_service_type request)) (\<lambda>st.
        ret (201, \<lparr>kr_id = i, kr_status = st\<rparr>))))))"

record action_command_query =
  aq2_product_id :: string
  aq2_device_id :: "string option"
  aq2_service_type :: "string option"
  aq2_status :: "command_status option"
  aq2_page :: int
  aq2_page_size :: int

record action_invocation_view =
  av_id :: int
  av_service_type :: string
  av_params :: json
  av_status :: command_status
  av_created_time :: instant
  av_updated_time :: instant

definition action_invocation_view_from :: "action_invocation \<Rightarrow> action_invocation_view" where
  "action_invocation_view_from row =
     \<lparr>av_id = ai_id row, av_service_type = ai_service_type row, av_params = ai_params row, av_status = ai_status row,
      av_created_time = ai_created_time row, av_updated_time = ai_updated_time row\<rparr>"

definition get_service_commands ::
  "action_command_query \<Rightarrow> ('s, api_error, action_invocation_view list \<times> pagination_info) io" where
  "get_service_commands query =
     bindE (lift_res (validate_identifier (aq2_product_id query) ''product_id'')) (\<lambda>_.
     bindE (check_device_id (aq2_device_id query)) (\<lambda>_.
     bindE (case aq2_service_type query of Some st \<Rightarrow> lift_res (validate_service_type st) | None \<Rightarrow> ret ()) (\<lambda>_.
     bindE (map_err map_db_err (query_action_invocations (aq2_product_id query) (aq2_device_id query)
       (aq2_service_type query) (aq2_status query) (aq2_page query) (aq2_page_size query))) (\<lambda>(invocations, total).
     ret (map action_invocation_view_from invocations,
          \<lparr>pg_page = aq2_page query, pg_page_size = aq2_page_size query, pg_total = total\<rparr>)))))"

definition delete_service_commands :: "int list \<Rightarrow> ('s, api_error, nat) io" where
  "delete_service_commands ids =
     bindE (map_err map_db_err (delete_action_invocations ids)) (\<lambda>_. ret 200)"

section \<open>The shadow\<close>

record set_desired_request =
  sd_product_id :: string
  sd_device_id :: string
  sd_desired :: jmap

record set_desired_response =
  sr_desired :: json
  sr_delta :: json
  sr_pushed :: bool

definition object_or_empty :: "json \<Rightarrow> jmap" where
  "object_or_empty v = (case as_object v of Some m \<Rightarrow> m | None \<Rightarrow> [])"

definition set_property_desired ::
  "libs \<Rightarrow> app_config \<Rightarrow> set_desired_request \<Rightarrow> ('s, api_error, set_desired_response) io" where
  "set_property_desired L cfg request =
     bindE (lift_res (validate_identifier (sd_product_id request) ''product_id'')) (\<lambda>_.
     bindE (lift_res (validate_identifier (sd_device_id request) ''device_id'')) (\<lambda>_.
     if sd_desired request = [] then throw (bad_request ''desired must be a non-empty JSON object'')
     else
       bindE (map_err map_db_err (upsert_property_desired (sd_product_id request) (sd_device_id request)
         (sd_desired request))) (\<lambda>merged.
       bindE (map_err map_db_err (get_property_latest_one (sd_product_id request) (sd_device_id request))) (\<lambda>reported_row.
       let reported_map = (case reported_row of Some r \<Rightarrow> object_or_empty (pl_properties r) | None \<Rightarrow> []);
           desired_map = object_or_empty (pd_desired merged);
           delta_map = compute_delta desired_map reported_map;
           pushed = (delta_map \<noteq> []);
           delta = JObject delta_map;
           response = \<lparr>sr_desired = pd_desired merged, sr_delta = delta, sr_pushed = pushed\<rparr>
       in if pushed
          then bindE (map_err map_db_err (insert_property_command (sd_product_id request) (sd_device_id request) delta
                 DesiredDelta)) (\<lambda>_.
               bindE (try_deliver_properties L cfg (sd_product_id request) (sd_device_id request)) (\<lambda>_.
               ret response))
          else ret response))))"

record shadow_view =
  sv_desired :: json
  sv_reported :: json
  sv_delta :: json
  sv_desired_updated_time :: "instant option"
  sv_reported_updated_time :: "instant option"

definition get_property_shadow :: "string \<Rightarrow> string \<Rightarrow> ('s, api_error, shadow_view) io" where
  "get_property_shadow product_id device_id =
     bindE (lift_res (validate_identifier product_id ''product_id'')) (\<lambda>_.
     bindE (lift_res (validate_identifier device_id ''device_id'')) (\<lambda>_.
     bindE (map_err map_db_err (get_property_desired product_id device_id)) (\<lambda>desired_row.
     bindE (map_err map_db_err (get_property_latest_one product_id device_id)) (\<lambda>reported_row.
     let desired = (case desired_row of Some d \<Rightarrow> pd_desired d | None \<Rightarrow> JObject []);
         reported = (case reported_row of Some r \<Rightarrow> pl_properties r | None \<Rightarrow> JObject [])
     in ret \<lparr>sv_desired = desired, sv_reported = reported,
             sv_delta = JObject (compute_delta (object_or_empty desired) (object_or_empty reported)),
             sv_desired_updated_time = map_option pd_updated_time desired_row,
             sv_reported_updated_time = map_option pl_updated_time reported_row\<rparr>))))"

end
