(* ===== verification/Admin_Behaviour.thy ===== *)
theory Admin_Behaviour
  imports Admin_Api Device_Behaviour Alarm_Behaviour Engine_Throttle
begin

text \<open>
  What the management endpoints guarantee: a changed validation template reaches the validation of
  reports, unless a write to the schema cache that started before the change lands after it; a patch of
  the desired state queues exactly its delta; and what the answer to a service call says of its delivery.
\<close>

section \<open>Cached schemas\<close>

definition template_key :: "string \<Rightarrow> string \<Rightarrow> string" where
  "template_key p e = (if e = ''property'' then p else ''event:'' @ p @ '':'' @ e)"

lemma schema_key_template: "schema_key t = template_key (vt_product_id t) (vt_event t)"
  by (simp add: schema_key_def template_key_def)

lemma template_key_inject:
  assumes "CHR '':'' \<notin> set p" "CHR '':'' \<notin> set q" "template_key p e = template_key q f"
  shows "p = q \<and> e = f"
proof -
  have colon: "CHR '':'' \<in> set (''event:'' @ r)" for r by simp
  consider "e = ''property''" "f = ''property''" | "e \<noteq> ''property''" "f \<noteq> ''property''"
    using assms colon unfolding template_key_def by metis
  then show ?thesis
  proof cases
    case 1
    with assms(3) show ?thesis by (simp add: template_key_def)
  next
    case 2
    with assms(3) have "p @ CHR '':'' # e = q @ CHR '':'' # f" by (simp add: template_key_def)
    then have "split_once CHR '':'' (p @ CHR '':'' # e) = split_once CHR '':'' (q @ CHR '':'' # f)" by simp
    with assms(1,2) show ?thesis by (simp add: split_once_append)
  qed
qed

definition plain_product_ids :: "database \<Rightarrow> bool" where
  "plain_product_ids d \<longleftrightarrow> (\<forall>t\<in>set (event_valid_templates d). CHR '':'' \<notin> set (vt_product_id t))"

text \<open>A cached schema is the schema of the active template it was read from.\<close>

definition schema_fresh :: "'s world \<Rightarrow> bool" where
  "schema_fresh w \<longleftrightarrow>
     (\<forall>p e s. CHR '':'' \<notin> set p \<longrightarrow> schema_cache w (template_key p e) = Some s \<longrightarrow>
        map_option vt_schema (active_template p e (db w)) = Some s)"

lemma schema_fresh_change:
  assumes "schema_fresh w" "CHR '':'' \<notin> set p" "schema_cache w' = (schema_cache w)(template_key p e := None)"
    and same: "\<And>q f. (q, f) \<noteq> (p, e) \<Longrightarrow> active_template q f (db w') = active_template q f (db w)"
  shows "schema_fresh w'"
  unfolding schema_fresh_def
proof (intro allI impI)
  fix q f s assume q: "CHR '':'' \<notin> set q" and s: "schema_cache w' (template_key q f) = Some s"
  then have other: "(q, f) \<noteq> (p, e)" using assms(3) by auto
  then have "template_key q f \<noteq> template_key p e" using template_key_inject [OF q assms(2)] by blast
  with s assms(3) have "schema_cache w (template_key q f) = Some s" by simp
  with assms(1) q show "map_option vt_schema (active_template q f (db w')) = Some s"
    unfolding same [OF other] schema_fresh_def by blast
qed

lemma find_filter: "find P xs = (case filter P xs of [] \<Rightarrow> None | x # _ \<Rightarrow> Some x)"
  by (induction xs) auto

lemma active_template_eqI:
  assumes "filter (\<lambda>t. vt_product_id t = p \<and> vt_event t = e) (event_valid_templates d') =
    filter (\<lambda>t. vt_product_id t = p \<and> vt_event t = e) (event_valid_templates d)"
  shows "active_template p e d' = active_template p e d"
proof -
  have two: "filter (\<lambda>t. vt_product_id t = p \<and> vt_event t = e \<and> vt_status t = Active) ts =
      filter (\<lambda>t. vt_status t = Active) (filter (\<lambda>t. vt_product_id t = p \<and> vt_event t = e) ts)" for ts
    by (induction ts) auto
  show ?thesis unfolding active_template_def find_filter two assms by (rule refl)
qed

lemma wf_templates_found:
  "wf_templates d \<Longrightarrow> template_by_id i d = Some t \<Longrightarrow> u \<in> set (event_valid_templates d) \<Longrightarrow> vt_id u = i \<Longrightarrow> u = t"
  using template_by_id_Some [of i d t] by (auto simp: wf_templates_def distinct_map inj_on_def)

lemma rows_of_update_id:
  assumes wf: "wf_templates d" and t: "template_by_id i d = Some t"
    and keep: "\<And>u. vt_product_id (f u) = vt_product_id u \<and> vt_event (f u) = vt_event u"
    and other: "(q, e) \<noteq> (vt_product_id t, vt_event t)"
  shows "filter (\<lambda>u. vt_product_id u = q \<and> vt_event u = e) (update_where (\<lambda>u. vt_id u = i) f (event_valid_templates d)) =
    filter (\<lambda>u. vt_product_id u = q \<and> vt_event u = e) (event_valid_templates d)"
proof (rule filter_update_where_skip_set)
  fix u assume "u \<in> set (event_valid_templates d)" "vt_id u = i"
  then have "u = t" using wf t by (blast intro: wf_templates_found)
  with other keep [of t] show "\<not> (vt_product_id u = q \<and> vt_event u = e) \<and> \<not> (vt_product_id (f u) = q \<and> vt_event (f u) = e)"
    by auto
qed

lemma active_after_delete:
  assumes wf: "wf_templates d" and t: "template_by_id i d = Some t" and other: "(q, e) \<noteq> (vt_product_id t, vt_event t)"
  shows "active_template q e (snd (delete_event_valid_template_sql i now d)) = active_template q e d"
proof (rule active_template_eqI)
  have "u = t" if "u \<in> set (event_valid_templates d)" "vt_id u = i" for u
    using wf t that by (blast intro: wf_templates_found)
  then show "filter (\<lambda>u. vt_product_id u = q \<and> vt_event u = e) (event_valid_templates (snd (delete_event_valid_template_sql i now d))) =
      filter (\<lambda>u. vt_product_id u = q \<and> vt_event u = e) (event_valid_templates d)"
    using other by (auto simp: delete_event_valid_template_sql_def intro!: filter_cong)
qed

lemma active_after_edit:
  assumes wf: "wf_templates d" and t: "template_by_id i d = Some t" and other: "(q, e) \<noteq> (vt_product_id t, vt_event t)"
  shows "active_template q e (snd (update_event_valid_template_sql i s ds now d)) = active_template q e d"
  using rows_of_update_id [OF wf t _ other, of "edit_template s ds"] t
  by (auto simp: update_event_valid_template_sql_def edit_template_def intro!: active_template_eqI)

lemma filter_map_skip:
  "(\<And>u. u \<in> set ts \<Longrightarrow> Q (f u) = Q u \<and> (Q u \<longrightarrow> f u = u)) \<Longrightarrow> filter Q (map f ts) = filter Q ts"
  by (induction ts) auto

lemma active_after_status:
  assumes wf: "wf_templates d" and t: "template_by_id i d = Some t" and other: "(q, e) \<noteq> (vt_product_id t, vt_event t)"
  shows "active_template q e (snd (update_event_valid_template_status_sql i st now d)) = active_template q e d"
proof (rule active_template_eqI)
  define f where "f = (\<lambda>u :: event_valid_template. if vt_id u = i then u\<lparr>vt_status := st\<rparr>
     else if st = Active \<and> vt_product_id u = vt_product_id t \<and> vt_status u = Active \<and> vt_event u = vt_event t
     then u\<lparr>vt_status := Inactive\<rparr> else u)"
  have rows: "event_valid_templates (snd (update_event_valid_template_status_sql i st now d)) =
      map f (event_valid_templates d)"
    using t by (auto simp: update_event_valid_template_status_sql_def update_where_def Let_def f_def)
  show "filter (\<lambda>u. vt_product_id u = q \<and> vt_event u = e) (event_valid_templates (snd (update_event_valid_template_status_sql i st now d))) =
      filter (\<lambda>u. vt_product_id u = q \<and> vt_event u = e) (event_valid_templates d)"
    unfolding rows
  proof (rule filter_map_skip, intro conjI impI)
    fix u assume u: "u \<in> set (event_valid_templates d)"
    show "(vt_product_id (f u) = q \<and> vt_event (f u) = e) = (vt_product_id u = q \<and> vt_event u = e)" by (simp add: f_def)
    assume qe: "vt_product_id u = q \<and> vt_event u = e"
    with other have apart: "\<not> (vt_product_id u = vt_product_id t \<and> vt_event u = vt_event t)" by auto
    then have "vt_id u \<noteq> i" using wf_templates_found [OF wf t u] by blast
    with apart show "f u = u" unfolding f_def by auto
  qed
qed

section \<open>Changing a template\<close>

datatype template_call =
  CreateTemplate create_event_valid_template_request | SetTemplateStatus int template_status
| EditTemplate int "json option" "string option" | DeleteTemplate int

fun run_template_call :: "(json \<Rightarrow> string option) \<Rightarrow> template_call \<Rightarrow> ('s, api_error, nat) io" where
  "run_template_call mv (CreateTemplate r) = create_event_valid_template_handler mv r"
| "run_template_call mv (SetTemplateStatus i st) = update_event_valid_template_status_handler i st"
| "run_template_call mv (EditTemplate i s ds) = update_event_valid_template_handler mv i s ds"
| "run_template_call mv (DeleteTemplate i) = delete_event_valid_template_handler i"

definition schema_sound :: "'s world \<Rightarrow> bool" where
  "schema_sound w \<longleftrightarrow> wf_templates (db w) \<and> plain_product_ids (db w) \<and> schema_fresh w"

definition forgets :: "event_valid_template \<Rightarrow> 's world \<Rightarrow> 's world \<Rightarrow> bool" where
  "forgets t w w' \<longleftrightarrow> schema_cache w' = (schema_cache w)(schema_key t := None)"

lemma drop_cached_schema_Inr:
  "drop_cached_schema (Some t) env w = (Inr u, w') \<Longrightarrow> db w' = db w \<and> forgets t w w'"
  by (auto simp: drop_cached_schema_def forgets_def schema_remove_def ignoreE_def matchE_def ret_def)

lemma get_event_valid_template_by_id_Inr:
  "get_event_valid_template_by_id i env w = (Inr t, w') \<Longrightarrow>
   t = template_by_id i (db w) \<and> db w' = db w \<and> schema_cache w' = schema_cache w"
  unfolding get_event_valid_template_by_id_def by (auto dest!: db_query_Inr)

lemma status_handler_Inr:
  assumes "update_event_valid_template_status_handler i st env w = (Inr r, w')"
  obtains t now where "template_by_id i (db w) = Some t" "forgets t w w'"
    "db w' = snd (update_event_valid_template_status_sql i st now (db w))"
proof -
  obtain t w1 n w2 where run: "get_event_valid_template_by_id i env w = (Inr t, w1)"
    "db_exec (update_event_valid_template_status_sql i st) env w1 = (Inr n, w2)"
    "n > 0" "bindE (drop_cached_schema t) (\<lambda>_. ret 200) env w2 = (Inr r :: api_error + nat, w')"
    using assms unfolding update_event_valid_template_status_handler_def update_event_valid_template_status_def
    by (elim bindE_InrE) (auto simp: Inr_simps split: if_splits)
  note get = get_event_valid_template_by_id_Inr [OF run(1)]
  from db_exec_Inr [OF run(2)] get obtain now where
    q: "update_event_valid_template_status_sql i st now (db w) = (n, db w2)" and c: "schema_cache w2 = schema_cache w" by auto
  from q run(3) obtain u where u: "template_by_id i (db w) = Some u"
    by (cases "template_by_id i (db w)") (auto simp: update_event_valid_template_status_sql_def)
  with get run(4) have "db w' = db w2 \<and> forgets u w2 w'"
    by (auto elim!: bindE_InrE simp: Inr_simps dest: drop_cached_schema_Inr)
  with u q c that [of u now] show ?thesis by (simp add: forgets_def)
qed

lemma edit_handler_Inr:
  assumes "update_event_valid_template_handler mv i s ds env w = (Inr r, w')"
  obtains t now where "template_by_id i (db w) = Some t" "forgets t w w'"
    "db w' = snd (update_event_valid_template_sql i s ds now (db w))"
proof -
  obtain t w1 v w1' n w2 where run: "get_event_valid_template_by_id i env w = (Inr t, w1)"
    "(case s of Some x \<Rightarrow> lift_res (check_schema mv x) | None \<Rightarrow> ret ()) env w1 = (Inr v :: api_error + unit, w1')"
    and ex': "update_event_valid_template i s ds env w1' = (Inr n, w2)"
    "n > 0" "bindE (drop_cached_schema t) (\<lambda>_. ret 200) env w2 = (Inr r :: api_error + nat, w')"
    using assms unfolding update_event_valid_template_handler_def
    by (elim bindE_InrE) (auto simp: Inr_simps split: if_splits)
  have "w1' = w1" using run(2) by (cases s) (auto simp: Inr_simps)
  with ex' have ex: "db_exec (update_event_valid_template_sql i s ds) env w1 = (Inr (Inr n), w2)"
    "n > 0" "bindE (drop_cached_schema t) (\<lambda>_. ret 200) env w2 = (Inr r :: api_error + nat, w')"
    unfolding update_event_valid_template_def by (auto elim!: bindE_InrE simp: Inr_simps)
  note get = get_event_valid_template_by_id_Inr [OF run(1)]
  from db_exec_Inr [OF ex(1)] get obtain now where
    q: "update_event_valid_template_sql i s ds now (db w) = (Inr n, db w2)" and c: "schema_cache w2 = schema_cache w" by auto
  from q ex(2) obtain u where u: "template_by_id i (db w) = Some u"
    by (cases "template_by_id i (db w)") (auto simp: update_event_valid_template_sql_def)
  with get ex(3) have "db w' = db w2 \<and> forgets u w2 w'"
    by (auto elim!: bindE_InrE simp: Inr_simps dest: drop_cached_schema_Inr)
  with u q c that [of u now] show ?thesis by (simp add: forgets_def)
qed

lemma delete_handler_Inr:
  assumes "delete_event_valid_template_handler i env w = (Inr r, w')"
  obtains t now where "template_by_id i (db w) = Some t" "forgets t w w'"
    "db w' = snd (delete_event_valid_template_sql i now (db w))"
proof -
  obtain t w1 n w2 where run: "get_event_valid_template_by_id i env w = (Inr t, w1)"
    "db_exec (delete_event_valid_template_sql i) env w1 = (Inr n, w2)"
    "n \<noteq> 0" "bindE (drop_cached_schema t) (\<lambda>_. ret 200) env w2 = (Inr r :: api_error + nat, w')"
    using assms unfolding delete_event_valid_template_handler_def delete_event_valid_template_def
    by (elim bindE_InrE) (auto simp: Inr_simps split: if_splits)
  note get = get_event_valid_template_by_id_Inr [OF run(1)]
  from db_exec_Inr [OF run(2)] get obtain now where
    q: "delete_event_valid_template_sql i now (db w) = (n, db w2)" and c: "schema_cache w2 = schema_cache w" by auto
  from q run(3) obtain u where u: "template_by_id i (db w) = Some u"
    by (cases "template_by_id i (db w)")
      (auto simp: delete_event_valid_template_sql_def template_by_id_def find_None_iff count_where_def filter_empty_conv)
  with get run(4) have "db w' = db w2 \<and> forgets u w2 w'"
    by (auto elim!: bindE_InrE simp: Inr_simps dest: drop_cached_schema_Inr)
  with u q c that [of u now] show ?thesis by (simp add: forgets_def)
qed

lemma create_handler_Inr:
  assumes "create_event_valid_template_handler mv q env w = (Inr r, w')"
  obtains now where "CHR '':'' \<notin> set (ct_product_id q)" "schema_cache w' = schema_cache w"
    "db w' = snd (insert_event_valid_template_sql (ct_product_id q) (ct_event q) (ct_description q) (ct_schema q) now (db w))"
proof -
  obtain n where run: "valid_identifier (ct_product_id q)"
    "db_exec (insert_event_valid_template_sql (ct_product_id q) (ct_event q) (ct_description q) (ct_schema q)) env w = (Inr n, w')"
    using assms unfolding create_event_valid_template_handler_def insert_event_valid_template_def
    by (elim bindE_InrE) (auto simp: Inr_simps validate_identifier_ok)
  have "CHR '':'' \<notin> set (ct_product_id q)" using run(1) by (rule valid_identifier_plain) simp
  with db_exec_Inr_snd [OF run(2)] that show ?thesis by blast
qed

lemma active_after_create:
  "active_template q e (snd (insert_event_valid_template_sql p f ds s now d)) = active_template q e d"
  by (auto simp: active_template_def insert_event_valid_template_sql_def Let_def find_filter split: list.split)

lemma plain_after_write:
  assumes "plain_product_ids d"
  shows "plain_product_ids (snd (update_event_valid_template_status_sql i st now d))"
    "plain_product_ids (snd (update_event_valid_template_sql i s ds now d))"
    "plain_product_ids (snd (delete_event_valid_template_sql i now d))"
    "CHR '':'' \<notin> set p \<Longrightarrow> plain_product_ids (snd (insert_event_valid_template_sql p e ds s' now d))"
  using assms
  by (auto simp: plain_product_ids_def update_event_valid_template_status_sql_def update_event_valid_template_sql_def
      delete_event_valid_template_sql_def insert_event_valid_template_sql_def Let_def set_update_where edit_template_def
      split: option.split)

lemma schema_sound_forgets:
  assumes sound: "schema_sound w" and t: "template_by_id i (db w) = Some t" and "forgets t w w'"
    and step: "template_step (db w) (db w')" and "plain_product_ids (db w')"
    and "\<And>q e. (q, e) \<noteq> (vt_product_id t, vt_event t) \<Longrightarrow> active_template q e (db w') = active_template q e (db w)"
  shows "schema_sound w'"
proof -
  have "CHR '':'' \<notin> set (vt_product_id t)"
    using sound template_by_id_Some [OF t] by (auto simp: schema_sound_def plain_product_ids_def)
  then have "schema_fresh w'"
    using schema_fresh_change [of w "vt_product_id t" w' "vt_event t"] assms
    by (auto simp: schema_sound_def forgets_def schema_key_template)
  moreover have "wf_templates (db w')" using template_step_wf [OF step] sound by (simp add: schema_sound_def)
  ultimately show ?thesis using assms(5) by (simp add: schema_sound_def)
qed

lemma template_call_sound:
  assumes sound: "schema_sound w" and run: "run_template_call mv c env w = (Inr r, w')"
  shows "schema_sound w'"
proof -
  have wf: "wf_templates (db w)" and plain: "plain_product_ids (db w)" using sound by (auto simp: schema_sound_def)
  show ?thesis
  proof (cases c)
    case (CreateTemplate q)
    with run obtain now where new: "CHR '':'' \<notin> set (ct_product_id q)" "schema_cache w' = schema_cache w"
      "db w' = snd (insert_event_valid_template_sql (ct_product_id q) (ct_event q) (ct_description q) (ct_schema q) now (db w))"
      by (auto elim: create_handler_Inr)
    then have "schema_fresh w'" using sound by (simp add: schema_sound_def schema_fresh_def active_after_create)
    with new plain_after_write(4) [OF plain new(1)] template_step_wf [OF ts_insert wf] show ?thesis
      by (simp add: schema_sound_def)
  next
    case (SetTemplateStatus i st)
    with run obtain t now where t: "template_by_id i (db w) = Some t" "forgets t w w'"
      "db w' = snd (update_event_valid_template_status_sql i st now (db w))" by (auto elim: status_handler_Inr)
    show ?thesis
      by (rule schema_sound_forgets [OF sound t(1,2)])
        (simp_all only: t(3) ts_status plain_after_write [OF plain] active_after_status [OF wf t(1)] not_False_eq_True)
  next
    case (EditTemplate i s ds)
    with run obtain t now where t: "template_by_id i (db w) = Some t" "forgets t w w'"
      "db w' = snd (update_event_valid_template_sql i s ds now (db w))" by (auto elim: edit_handler_Inr)
    show ?thesis
      by (rule schema_sound_forgets [OF sound t(1,2)])
        (simp_all only: t(3) ts_update plain_after_write [OF plain] active_after_edit [OF wf t(1)] not_False_eq_True)
  next
    case (DeleteTemplate i)
    with run obtain t now where t: "template_by_id i (db w) = Some t" "forgets t w w'"
      "db w' = snd (delete_event_valid_template_sql i now (db w))" by (auto elim: delete_handler_Inr)
    show ?thesis
      by (rule schema_sound_forgets [OF sound t(1,2)])
        (simp_all only: t(3) ts_delete plain_after_write [OF plain] active_after_delete [OF wf t(1)] not_False_eq_True)
  qed
qed

lemma load_property_validator_sound:
  assumes "schema_sound w" "CHR '':'' \<notin> set p" "load_property_validator L p env w = (Inr v, w')"
  shows "v = (case active_template p ''property'' (db w) of None \<Rightarrow> None | Some t \<Rightarrow> validator_new L (vt_schema t))"
proof (cases "schema_cache w p")
  case (Some s)
  with assms have "map_option vt_schema (active_template p ''property'' (db w)) = Some s"
    by (auto simp: schema_sound_def schema_fresh_def template_key_def)
  with Some assms(3) show ?thesis unfolding load_property_validator_def
    by (auto elim!: bindE_InrE simp: Inr_simps schema_get_def compile_schema_def split: option.splits)
next
  case None
  with assms(3) show ?thesis unfolding load_property_validator_def get_property_schema_def
    by (auto elim!: bindE_InrE dest!: db_query_Inr simp: Inr_simps schema_get_def compile_schema_def split: option.splits)
qed

text \<open>
  C9: as long as a product's and event's cached schema is that of its active template, every template
  endpoint that succeeds (create, change of status, edit, delete) keeps it so, keeps at most one active
  template per product and event, and the property validator loaded afterwards, from the cache or from the
  table, is the compiled schema of the product's active template, or none if there is no active one.
\<close>

theorem template_changes_reach_validation:
  assumes "schema_sound w" "run_template_call mv c env w = (Inr r, w')"
  shows "schema_sound w' \<and>
    (\<forall>L p env1 v w1. CHR '':'' \<notin> set p \<longrightarrow> load_property_validator L p env1 w' = (Inr v, w1) \<longrightarrow>
      v = (case active_template p ''property'' (db w') of None \<Rightarrow> None | Some t \<Rightarrow> validator_new L (vt_schema t)))"
  using template_call_sound [OF assms] load_property_validator_sound by blast

definition one_template_world :: "unit world" where
  "one_template_world = empty_world\<lparr>db := snd (update_event_valid_template_status_sql 1 Active 3
     (snd (insert_event_valid_template_sql ''p'' ''property'' None JNull 2 empty_db))),
     schema_cache := [''p'' \<mapsto> JNull]\<rparr>"

lemma one_template_sound: "schema_sound one_template_world"
proof -
  have key: "template_key p e = ''p'' \<longleftrightarrow> p = ''p'' \<and> e = ''property''" for p e
    by (auto simp: template_key_def)
  show ?thesis
    by (simp add: schema_sound_def one_template_world_def wf_templates_def one_active_def plain_product_ids_def
        schema_fresh_def key update_event_valid_template_status_sql_def insert_event_valid_template_sql_def
        template_by_id_def active_template_def empty_db_def empty_world_def update_where_def)
qed

theorem template_changes_reach_validation_witness:
  "schema_sound (snd (run_template_call (\<lambda>s. None) (DeleteTemplate 1) all_done one_template_world))"
proof -
  have "fst (run_template_call (\<lambda>s. None) (DeleteTemplate 1) all_done one_template_world) = Inr 200"
    by (simp add: one_template_world_def delete_event_valid_template_handler_def prog_simps
        get_event_valid_template_by_id_def delete_event_valid_template_def db_query_def db_exec_def ext_call_def
        all_done_def empty_world_def Let_def delete_event_valid_template_sql_def count_where_def drop_cached_schema_def
        schema_remove_def template_by_id_def update_event_valid_template_status_sql_def
        insert_event_valid_template_sql_def empty_db_def update_where_def)
  then have "run_template_call (\<lambda>s. None) (DeleteTemplate 1) all_done one_template_world =
      (Inr 200, snd (run_template_call (\<lambda>s. None) (DeleteTemplate 1) all_done one_template_world))"
    by (metis prod.collapse)
  from template_changes_reach_validation [OF one_template_sound this] show ?thesis by blast
qed

section \<open>A write to the schema cache that comes late\<close>

lemma active_after_own_delete:
  assumes wf: "wf_templates d" and t: "active_template p e d = Some t"
  shows "active_template p e (snd (delete_event_valid_template_sql (vt_id t) now d)) = None"
proof (rule ccontr)
  assume "active_template p e (snd (delete_event_valid_template_sql (vt_id t) now d)) \<noteq> None"
  then obtain u where u: "u \<in> set (event_valid_templates d)" "vt_id u \<noteq> vt_id t"
    "vt_product_id u = p" "vt_event u = e" "vt_status u = Active"
    by (auto simp: active_template_def delete_event_valid_template_sql_def find_Some_iff dest!: nth_mem)
  moreover from t have "t \<in> set (event_valid_templates d)" "rivals u t" using u
    by (auto simp: active_template_def rivals_def dest!: find_SomeD)
  ultimately show False using wf unfolding wf_templates_def by (blast dest: one_activeD)
qed

lemma load_property_validator_miss:
  assumes "schema_cache w p = None" "active_template p ''property'' (db w) = Some t"
    "load_property_validator L p env w = (Inr v, w1)"
  shows "db w1 = db w \<and> schema_cache w1 = schema_cache w \<and> CacheSchema p (vt_schema t) \<in> set (spawned w1)"
  using assms unfolding load_property_validator_def get_property_schema_def
  by (auto elim!: bindE_InrE dest!: db_query_Inr simp: Inr_simps schema_get_def compile_schema_def spawn_def
      split: option.splits)

text \<open>
  A report loads its product's active schema from the table and leaves the write to the cache to a
  spawned task. If that template is deleted before the task runs, the task puts the deleted schema into the
  cache, and later reports are validated by it although the product has no active template.
\<close>

theorem late_cache_write_revives_schema:
  assumes "schema_sound w" "schema_cache w p = None" "active_template p ''property'' (db w) = Some t"
    and load: "load_property_validator L p env w = (Inr v, w1)"
    and del: "delete_event_valid_template_handler (vt_id t) env1 w1 = (Inr r, w2)"
    and task: "w3 = snd ((run_task ops repo (CacheSchema p (vt_schema t)) :: ('s, unit, unit) io) env2 w2)"
  shows "CacheSchema p (vt_schema t) \<in> set (spawned w1) \<and> active_template p ''property'' (db w3) = None \<and>
    load_property_validator L p env3 w3 = (Inr v, w3) \<and> v \<noteq> None"
proof -
  note loaded = load_property_validator_miss [OF assms(2,3) load]
  have v: "v = validator_new L (vt_schema t)" "v \<noteq> None"
    using load assms(2,3) unfolding load_property_validator_def get_property_schema_def
    by (auto elim!: bindE_InrE dest!: db_query_Inr simp: Inr_simps schema_get_def compile_schema_def split: option.splits)
  have w3: "db w3 = db w2" "schema_cache w3 p = Some (vt_schema t)"
    unfolding task run_task_def by (simp_all add: schema_set_def ignoreE_def matchE_def ret_def)
  from del obtain now where "db w2 = snd (delete_event_valid_template_sql (vt_id t) now (db w))"
    using loaded by (auto elim: delete_handler_Inr)
  then have "active_template p ''property'' (db w3) = None"
    unfolding w3(1) using assms(1,3) by (simp add: active_after_own_delete schema_sound_def)
  moreover have "load_property_validator L p env3 w3 = (Inr v, w3)"
    using v w3(2) by (auto simp: load_property_validator_def prog_simps schema_get_def compile_schema_def)
  ultimately show ?thesis using loaded v(2) by blast
qed

theorem late_cache_write_revives_schema_witness:
  "\<exists>v w3 :: unit world. v \<noteq> None \<and> active_template ''p'' ''property'' (db w3) = None \<and>
     load_property_validator sample_libs ''p'' all_done w3 = (Inr v, w3)"
proof -
  let ?w = "one_template_world\<lparr>schema_cache := Map.empty\<rparr>"
  let ?w3 = "\<lambda>w2. snd ((run_task noop_ops sample_repo (CacheSchema ''p'' JNull) :: (unit, unit, unit) io) all_done w2)"
  let ?t = "\<lparr>vt_id = 1, vt_product_id = ''p'', vt_event = ''property'', vt_description = None, vt_schema = JNull,
    vt_status = Active, vt_created_at = 2, vt_updated_at = 2\<rparr>"
  note world = one_template_world_def empty_world_def empty_db_def update_where_def
    update_event_valid_template_status_sql_def insert_event_valid_template_sql_def template_by_id_def Let_def
  have sound: "schema_sound ?w" using one_template_sound by (simp add: schema_sound_def schema_fresh_def)
  have act: "active_template ''p'' ''property'' (db ?w) = Some ?t" by (simp add: active_template_def world)
  obtain r w1 where load: "load_property_validator sample_libs ''p'' all_done ?w = (r, w1)" by fastforce
  have r: "\<exists>v. r = Inr v" and db1: "db w1 = db ?w"
    using load act by (auto simp: load_property_validator_def get_property_schema_def prog_simps schema_get_def
        db_query_def db_exec_def ext_call_def all_done_def Let_def compile_schema_def sample_libs_def spawn_def)
  obtain r2 w2 where del: "(delete_event_valid_template_handler (vt_id ?t) all_done w1 :: (api_error + nat) \<times> unit world) = (r2, w2)"
    by fastforce
  have "r2 = Inr 200"
    using del db1 by (auto simp: delete_event_valid_template_handler_def prog_simps
        get_event_valid_template_by_id_def delete_event_valid_template_def db_query_def db_exec_def ext_call_def
        all_done_def delete_event_valid_template_sql_def count_where_def drop_cached_schema_def schema_remove_def world)
  moreover obtain v where "r = Inr v" using r by blast
  ultimately have "active_template ''p'' ''property'' (db (?w3 w2)) = None \<and>
      load_property_validator sample_libs ''p'' all_done (?w3 w2) = (Inr v, ?w3 w2) \<and> v \<noteq> None"
    using late_cache_write_revives_schema [OF sound _ act, of sample_libs all_done v w1 all_done 200 w2 "?w3 w2" noop_ops sample_repo all_done all_done] load del by simp
  then show ?thesis by blast
qed

section \<open>Patching the desired state\<close>

text \<open>What a delivery leaves alone, and that no row of the command table is lost or rewritten.\<close>

definition same_command :: "property_command \<Rightarrow> property_command \<Rightarrow> bool" where
  "same_command r r' \<longleftrightarrow> pc_id r' = pc_id r \<and> pc_product_id r' = pc_product_id r \<and> pc_device_id r' = pc_device_id r \<and>
     pc_command r' = pc_command r \<and> pc_source r' = pc_source r"

definition keeps_shadow :: "database \<Rightarrow> database \<Rightarrow> bool" where
  "keeps_shadow d d' \<longleftrightarrow> property_desireds d' = property_desireds d \<and> property_latests d' = property_latests d \<and>
     (\<forall>r\<in>set (property_commands d). \<exists>r'\<in>set (property_commands d'). same_command r r')"

lemma keeps_shadow_move: "keeps_shadow d (snd (move_commands P s t now d))"
proof -
  have "\<exists>r'\<in>set (update_where Q (set_pc_status t now) rs). same_command r r'" if "r \<in> set rs" for Q r rs
    using that unfolding set_update_where
    by (intro bexI [of _ "if Q r then set_pc_status t now r else r"]) (auto simp: same_command_def set_pc_status_def)
  then show ?thesis by (simp add: keeps_shadow_def move_commands_def Let_def)
qed

lemma keeps_shadow_same:
  "property_desireds d' = property_desireds d \<Longrightarrow> property_latests d' = property_latests d \<Longrightarrow>
   set (property_commands d) \<subseteq> set (property_commands d') \<Longrightarrow> keeps_shadow d d'"
  unfolding keeps_shadow_def same_command_def by blast

lemma command_step_keeps_shadow: "command_step d d' \<Longrightarrow> keeps_shadow d d'"
proof (induction rule: command_step.induct)
  case (cs_claim_action d p dv now)
  show ?case
    by (rule keeps_shadow_same) (auto simp: claim_next_pending_action_sql_def move_actions_def Let_def split: list.split)
qed (auto intro: keeps_shadow_move keeps_shadow_same simp: insert_property_command_sql_def
      insert_action_invocation_sql_def move_actions_def Let_def)

lemma command_steps_keep_shadow: "command_step\<^sup>*\<^sup>* d d' \<Longrightarrow> keeps_shadow d d'"
proof (induction rule: rtranclp_induct)
  case base
  show ?case by (auto simp: keeps_shadow_def same_command_def)
next
  case (step y z)
  from step.IH command_step_keeps_shadow [OF step.hyps(2)] show ?case
    unfolding keeps_shadow_def same_command_def by metis
qed

lemma steps_try_deliver_properties [steps_intros]: "steps_by command_step (try_deliver_properties L cfg p d)"
  unfolding try_deliver_properties_def by (intro steps_intros)

lemma keeps_shadow_docs:
  "keeps_shadow d d' \<Longrightarrow> desired_doc p dv d' = desired_doc p dv d \<and> reported_doc p dv d' = reported_doc p dv d"
  by (simp add: keeps_shadow_def desired_doc_def reported_doc_def)

lemma upsert_property_desired_sql_frame:
  "property_commands (snd (upsert_property_desired_sql p d patch now D)) = property_commands D"
  "next_property_command_id (snd (upsert_property_desired_sql p d patch now D)) = next_property_command_id D"
  "fst (upsert_property_desired_sql p d patch now D) = Some row \<Longrightarrow>
   find (desired_for p d) (property_desireds (snd (upsert_property_desired_sql p d patch now D))) = Some row"
proof -
  define rows where "rows = (if count_where (desired_for p d) (property_desireds D) = 0
    then property_desireds D @ [\<lparr>pd_product_id = p, pd_device_id = d, pd_desired = JObject [], pd_updated_time = now\<rparr>]
    else property_desireds D)"
  note sql = upsert_property_desired_sql_def [of p d patch now D, folded rows_def, unfolded Let_def, folded rows_def]
  show "property_commands (snd (upsert_property_desired_sql p d patch now D)) = property_commands D"
    "next_property_command_id (snd (upsert_property_desired_sql p d patch now D)) = next_property_command_id D"
    "fst (upsert_property_desired_sql p d patch now D) = Some row \<Longrightarrow>
     find (desired_for p d) (property_desireds (snd (upsert_property_desired_sql p d patch now D))) = Some row"
    unfolding sql by (cases "find (desired_for p d) rows"; simp)+
qed

lemma upsert_property_desired_Inr:
  assumes "upsert_property_desired p d patch env w = (Inr row, w')"
  shows "object_or_empty (pd_desired row) = desired_doc p d (db w') \<and>
    desired_doc p d (db w') = merge_desired (desired_doc p d (db w)) patch \<and>
    property_commands (db w') = property_commands (db w) \<and>
    next_property_command_id (db w') = next_property_command_id (db w)"
proof -
  obtain now where q: "upsert_property_desired_sql p d patch now (db w) = (Some row, db w')"
    using assms unfolding upsert_property_desired_def by (auto elim!: bindE_InrE dest!: db_exec_Inr simp: Inr_simps)
  then have "fst (upsert_property_desired_sql p d patch now (db w)) = Some row" and
    snd: "db w' = snd (upsert_property_desired_sql p d patch now (db w))" by simp_all
  from upsert_property_desired_sql_frame(3) [OF this(1)] have "object_or_empty (pd_desired row) = desired_doc p d (db w')"
    unfolding snd by (simp add: desired_doc_def object_or_empty_def)
  then show ?thesis unfolding snd by (simp add: desired_doc_upsert upsert_property_desired_sql_frame)
qed

text \<open>
  C19: \<open>set_property_desired\<close> stores the patched desired document and answers with the delta of the two
  documents as they are stored when it returns; it pushes exactly when the delta is not empty, and then the
  command table holds a new \<open>DesiredDelta\<close> command for the device that carries exactly this delta, whatever
  becomes of the delivery; when the delta is empty the command table is not touched.
\<close>

theorem desired_patch_queues_delta:
  assumes "set_property_desired L cfg request env w = (Inr response, w')"
  shows "let p = sd_product_id request; d = sd_device_id request;
             delta = compute_delta (desired_doc p d (db w')) (reported_doc p d (db w'))
         in desired_doc p d (db w') = merge_desired (desired_doc p d (db w)) (sd_desired request) \<and>
            object_or_empty (sr_desired response) = desired_doc p d (db w') \<and>
            sr_delta response = JObject delta \<and> (sr_pushed response \<longleftrightarrow> delta \<noteq> []) \<and>
            (if delta = [] then property_commands (db w') = property_commands (db w)
             else \<exists>r\<in>set (property_commands (db w')). pc_id r = next_property_command_id (db w) \<and>
               pc_product_id r = p \<and> pc_device_id r = d \<and> pc_command r = JObject delta \<and> pc_source r = DesiredDelta)"
proof -
  let ?p = "sd_product_id request" and ?d = "sd_device_id request"
  obtain row w1 latest w2 delta where up: "upsert_property_desired ?p ?d (sd_desired request) env w = (Inr row, w1)"
    and get: "get_property_latest_one ?p ?d env w1 = (Inr latest, w2)"
    and delta: "delta = compute_delta (object_or_empty (pd_desired row))
      (case latest of Some r \<Rightarrow> object_or_empty (pl_properties r) | None \<Rightarrow> [])"
    and resp: "response = \<lparr>sr_desired = pd_desired row, sr_delta = JObject delta, sr_pushed = (delta \<noteq> [])\<rparr>"
    and rest: "if delta = [] then w' = w2 else \<exists>i w3 env'. insert_property_command ?p ?d (JObject delta) DesiredDelta env w2 = (Inr i, w3) \<and>
      (try_deliver_properties L cfg ?p ?d :: ('a, api_error, unit) io) env w3 = (Inr (), w')"
    using assms unfolding set_property_desired_def
    by (elim bindE_InrE) (auto elim!: bindE_InrE simp: Inr_simps Let_def split: if_splits)
  note row = upsert_property_desired_Inr [OF up]
  have same: "db w2 = db w1" and latest: "latest = find (latest_for ?p ?d) (property_latests (db w1))"
    using db_query_Inr [OF get [unfolded get_property_latest_one_def]] by auto
  have d1: "delta = compute_delta (desired_doc ?p ?d (db w2)) (reported_doc ?p ?d (db w2))"
    unfolding delta same latest row [THEN conjunct1] by (simp add: reported_doc_def object_or_empty_def split: option.split)
  show ?thesis
  proof (cases "delta = []")
    case True
    with rest have "w' = w2" by simp
    with True row same d1 resp show ?thesis by (simp add: Let_def)
  next
    case False
    with rest obtain i w3 where ins: "insert_property_command ?p ?d (JObject delta) DesiredDelta env w2 = (Inr i, w3)"
      and deliver: "(try_deliver_properties L cfg ?p ?d :: ('a, api_error, unit) io) env w3 = (Inr (), w')" by auto
    have steps: "command_step\<^sup>*\<^sup>* (db w2) (db w3)" "command_step\<^sup>*\<^sup>* (db w3) (db w')"
      using steps_byD [OF steps_command_inserts(1) ins] steps_byD [OF steps_try_deliver_properties deliver] by auto
    then have "keeps_shadow (db w2) (db w')" by (auto intro: command_steps_keep_shadow)
    note docs = keeps_shadow_docs [OF this, of ?p ?d]
    from db_exec_Inr_snd [OF ins [unfolded insert_property_command_def]] obtain now where
      "db w3 = snd (insert_property_command_sql ?p ?d (JObject delta) DesiredDelta now (db w2))" by blast
    then have "\<exists>r\<in>set (property_commands (db w3)). pc_id r = next_property_command_id (db w) \<and> pc_product_id r = ?p \<and>
        pc_device_id r = ?d \<and> pc_command r = JObject delta \<and> pc_source r = DesiredDelta"
      using row same by (simp add: insert_property_command_sql_def Let_def)
    then have "\<exists>r\<in>set (property_commands (db w')). pc_id r = next_property_command_id (db w) \<and> pc_product_id r = ?p \<and>
        pc_device_id r = ?d \<and> pc_command r = JObject delta \<and> pc_source r = DesiredDelta"
      using command_steps_keep_shadow [OF steps(2)] unfolding keeps_shadow_def same_command_def by metis
    with False row same d1 resp docs show ?thesis by (simp add: Let_def)
  qed
qed

definition sample_desired :: set_desired_request where
  "sample_desired = \<lparr>sd_product_id = ''p'', sd_device_id = ''d'', sd_desired = [(''mode'', JString ''eco'')]\<rparr>"

theorem desired_patch_queues_delta_witness:
  "\<exists>response w' r. set_property_desired sample_libs sample_app sample_desired all_done empty_world = (Inr response, w') \<and>
     r \<in> set (property_commands (db w')) \<and> pc_id r = 1 \<and> pc_source r = DesiredDelta"
proof -
  have ok: "validate_identifier ''p'' ''product_id'' = Inr ()" "validate_identifier ''d'' ''device_id'' = Inr ()"
    using sample_identifiers by (simp_all add: validate_identifier_ok)
  obtain res w' where run: "set_property_desired sample_libs sample_app sample_desired all_done empty_world = (res, w')" by fastforce
  have "\<exists>response. res = Inr response \<and> sr_pushed response"
    using run by (auto simp: set_property_desired_def sample_desired_def ok prog_simps upsert_property_desired_def
        get_property_latest_one_def insert_property_command_def db_query_def db_exec_def ext_call_def all_done_def
        empty_world_def empty_db_def Let_def upsert_property_desired_sql_def desired_for_def count_where_def
        update_where_def merge_desired_def is_null_def jmap_insert.simps as_object_def object_or_empty_def compute_delta_def
        insert_property_command_sql_def try_deliver_properties_def is_subscribed_to_properties_def
        is_subscribed_to_service_action_def get_subscriptions_def)
  then obtain response where response: "res = Inr response" "sr_pushed response" by blast
  from desired_patch_queues_delta [OF run [unfolded response(1)]] response(2)
  have "\<exists>r\<in>set (property_commands (db w')). pc_id r = next_property_command_id (db empty_world) \<and> pc_source r = DesiredDelta"
    by (auto simp: Let_def split: if_splits)
  with run response show ?thesis by (auto simp: empty_world_def empty_db_def)
qed

section \<open>The answer to a service call\<close>

text \<open>
  The broker lists the device's subscription but refuses every publish: the row ends as \<open>Failed\<close>, nothing was
  published, and the answer to the caller still says \<open>Sent\<close>.
\<close>

definition publish_refused :: env where
  "publish_refused = all_done\<lparr>net_outcome_at := (\<lambda>n. if n = 1 then Done else Refused),
     subscriptions_at := (\<lambda>n. [''p/d/thing/service/reboot/set''])\<rparr>"

definition sample_call :: create_action_command_request where
  "sample_call = \<lparr>ka_product_id = ''p'', ka_device_id = ''d'', ka_service_type = ''reboot'', ka_params = JNull\<rparr>"

lemma failed_delivery_answers_sent:
  "\<exists>w' :: unit world. create_service_command sample_libs sample_app sample_call publish_refused empty_world =
      (Inr (201, \<lparr>kr_id = 1, kr_status = Sent\<rparr>), w') \<and>
    map ai_status (action_invocations (db w')) = [Failed] \<and> published w' = []"
proof -
  have ok: "validate_identifier ''p'' ''product_id'' = Inr ()" "validate_identifier ''d'' ''device_id'' = Inr ()"
    "validate_service_type ''reboot'' = Inr ()"
    using sample_identifiers
    by (simp_all add: validate_identifier_ok validate_service_type_def identifier_char_def is_ascii_alphanumeric_def)
  have sub: "mqtt_topic_matches ''p/d/thing/service/reboot/set'' ''p/d/thing/service/reboot/set''" by code_simp
  show ?thesis
    by (simp add: create_service_command_def sample_call_def ok prog_simps insert_action_invocation_def db_exec_def
        ext_call_def publish_refused_def all_done_def empty_world_def empty_db_def Let_def is_null_def
        insert_action_invocation_sql_def try_deliver_actions_def is_subscribed_to_service_action_def
        get_subscriptions_def sub send_action_invocations_to_device_def action_drain.simps
        claim_next_pending_action_def claim_next_pending_action_sql_def pending_actions_def move_actions_def
        publish_action_row_def set_ai_status_def update_where_def sample_libs_def sample_app_def sample_mqtt_def
        publish_command_def post_publish_def net_call_def numeral_2_eq_2 command_payload_def
        update_action_invocation_status_def sort_key_def)
qed

end
