(* ===== verification/Http_Guard.thy ===== *)
theory Http_Guard
  imports Registry "HOL-Library.Word"
begin

text \<open>
  The middlewares in front of the routes: \<open>backend/src/api/middleware/mod.rs\<close> (Herald permissions and the
  internal network), \<open>backend/src/api/factory_middleware.rs\<close> (factory keys) and the route table of
  \<open>backend/src/api/mod.rs\<close>. A header map is the lookup of a header and of its text, which is missing when
  the value is not visible ASCII. \<open>check_permission\<close> stands for the Herald client and \<open>ct_eq\<close> for
  \<open>constant_time_eq\<close>. IP addresses are parsed as \<open>std::net\<close> does.
\<close>

unbundle bit_operations_syntax

definition strip_prefix :: "string \<Rightarrow> string \<Rightarrow> string option" where
  "strip_prefix s p = (if starts_with s p then Some (drop (length p) s) else None)"

type_synonym header_map = "string \<Rightarrow> string option option"

text \<open>\<open>headers.get(name).and_then(|v| v.to_str().ok())\<close>.\<close>

definition header_str :: "header_map \<Rightarrow> string \<Rightarrow> string option" where
  "header_str headers name = Option.bind (headers name) (\<lambda>v. v)"

section \<open>Cookies\<close>

definition cookie_named :: "string \<Rightarrow> string \<Rightarrow> string option" where
  "cookie_named name cookie =
     (case split_once CHR ''='' (str_trim cookie) of
        None \<Rightarrow> None
      | Some (cookie_name, value) \<Rightarrow> if cookie_name = name \<and> value \<noteq> [] then Some value else None)"

definition get_cookie :: "header_map \<Rightarrow> string \<Rightarrow> string option" where
  "get_cookie headers name =
     (case header_str headers ''cookie'' of
        None \<Rightarrow> None
      | Some cookies \<Rightarrow> find_map (cookie_named name) (split_on CHR '';'' cookies))"

definition extract_auth_token :: "header_map \<Rightarrow> string option" where
  "extract_auth_token headers =
     (case header_str headers ''cookie'' of
        None \<Rightarrow> None
      | Some cookies \<Rightarrow> find_map (cookie_named ''X-Auth'') (split_on CHR '';'' cookies))"

section \<open>Permissions\<close>

datatype http_method = GET | POST | PUT | PATCH | DELETE | OtherMethod string

record herald_rule =
  hr_resource :: string
  hr_action :: string

definition extract_permission :: "string \<Rightarrow> http_method \<Rightarrow> herald_rule option" where
  "extract_permission full_path m =
     (let path = (case strip_prefix full_path ''/api'' of Some r \<Rightarrow> r | None \<Rightarrow> full_path);
          resource =
            (if starts_with path ''/admin/product'' \<or> starts_with path ''/admin/valid'' \<or> starts_with path ''/admin/file''
             then Some ''product''
             else if starts_with path ''/admin/device'' \<or> starts_with path ''/admin/property'' \<or>
                     starts_with path ''/admin/event'' \<or> starts_with path ''/admin/service'' \<or>
                     starts_with path ''/admin/alarm-rule'' \<or> starts_with path ''/admin/alarm'' \<or>
                     starts_with path ''/admin/factory''
             then Some ''device''
             else if starts_with path ''/admin/ca'' \<or> starts_with path ''/admin/ota'' then Some ''cert''
             else None)
      in case resource of
           None \<Rightarrow> None
         | Some r \<Rightarrow>
             (case (case m of GET \<Rightarrow> Some ''read'' | POST \<Rightarrow> Some ''write'' | PUT \<Rightarrow> Some ''write''
                    | PATCH \<Rightarrow> Some ''write'' | DELETE \<Rightarrow> Some ''write'' | OtherMethod _ \<Rightarrow> None) of
                None \<Rightarrow> None
              | Some a \<Rightarrow> Some \<lparr>hr_resource = r, hr_action = a\<rparr>))"

datatype herald_error = HeraldUnauthorized string | HeraldForbidden string | HeraldOther string

definition classify_auth_error :: "herald_error \<Rightarrow> api_error" where
  "classify_auth_error e =
     (case e of
        HeraldUnauthorized _ \<Rightarrow> unauthorized
      | HeraldForbidden _ \<Rightarrow> forbidden
      | _ \<Rightarrow> service_unavailable ''auth service unavailable'')"

record permission =
  pm_allowed :: bool
  pm_user_id :: "string option"

record http_request =
  rq_method :: http_method
  rq_path :: string
  rq_headers :: header_map

text \<open>\<open>next\<close> is the rest of the stack; it sees the user id put into the request's extensions.\<close>

definition herald_auth_middleware ::
  "(string \<Rightarrow> herald_rule list \<Rightarrow> herald_error + permission) \<Rightarrow> http_request \<Rightarrow> (string \<Rightarrow> ('s, api_error, 'r) io) \<Rightarrow>
   ('s, api_error, 'r) io" where
  "herald_auth_middleware check_permission request nxt =
     (case extract_auth_token (rq_headers request) of
        None \<Rightarrow> throw unauthorized
      | Some token \<Rightarrow>
          (case extract_permission (rq_path request) (rq_method request) of
             None \<Rightarrow> throw forbidden
           | Some rule \<Rightarrow>
               (case check_permission token [rule] of
                  Inr perm \<Rightarrow>
                    if pm_allowed perm
                    then (case pm_user_id perm of None \<Rightarrow> throw unauthorized | Some user_id \<Rightarrow> nxt user_id)
                    else if pm_user_id perm = None then throw unauthorized
                    else throw forbidden
                | Inl e \<Rightarrow> throw (classify_auth_error e))))"

section \<open>IP addresses\<close>

datatype ip_addr = V4 "8 word" "8 word" "8 word" "8 word" | V6 "16 word list"

definition to_digit :: "nat \<Rightarrow> char \<Rightarrow> nat option" where
  "to_digit radix c =
     (let n = (of_char c :: nat);
          v = (if 48 \<le> n \<and> n \<le> 57 then Some (n - 48)
               else if 97 \<le> n \<and> n \<le> 122 then Some (n - 87)
               else if 65 \<le> n \<and> n \<le> 90 then Some (n - 55) else None)
      in case v of None \<Rightarrow> None | Some d \<Rightarrow> if d < radix then Some d else None)"

text \<open>A number of at most \<open>max_digits\<close> digits that fits the type, and what follows it.\<close>

definition read_number :: "nat \<Rightarrow> nat \<Rightarrow> bool \<Rightarrow> nat \<Rightarrow> string \<Rightarrow> (nat \<times> string) option" where
  "read_number radix max_digits allow_zero_prefix limit s =
     (let ds = takeWhile (\<lambda>c. to_digit radix c \<noteq> None) s;
          n = foldl (\<lambda>a c. a * radix + the (to_digit radix c)) 0 ds
      in if ds = [] \<or> max_digits < length ds \<or> \<not> allow_zero_prefix \<and> hd ds = CHR ''0'' \<and> 1 < length ds \<or> limit < n
         then None else Some (n, drop (length ds) s))"

definition read_separator :: "char \<Rightarrow> nat \<Rightarrow> (string \<Rightarrow> ('a \<times> string) option) \<Rightarrow> string \<Rightarrow> ('a \<times> string) option" where
  "read_separator sep index inner s =
     (if index = 0 then inner s
      else case s of c # r \<Rightarrow> if c = sep then inner r else None | [] \<Rightarrow> None)"

fun read_octets :: "nat \<Rightarrow> nat \<Rightarrow> string \<Rightarrow> (8 word list \<times> string) option" where
  "read_octets i 0 s = Some ([], s)"
| "read_octets i (Suc k) s =
     (case read_separator CHR ''.'' i (read_number 10 3 False 255) s of
        None \<Rightarrow> None
      | Some (n, r) \<Rightarrow> map_option (\<lambda>(ws, r'). (word_of_nat n # ws, r')) (read_octets (Suc i) k r))"

definition read_ipv4_addr :: "string \<Rightarrow> (8 word list \<times> string) option" where
  "read_ipv4_addr s = read_octets 0 4 s"

definition u16_from_be_bytes :: "8 word \<Rightarrow> 8 word \<Rightarrow> 16 word" where
  "u16_from_be_bytes a b = push_bit 8 (ucast a) OR ucast b"

fun u16_pairs :: "8 word list \<Rightarrow> 16 word list" where
  "u16_pairs (a # b # r) = u16_from_be_bytes a b # u16_pairs r"
| "u16_pairs _ = []"

text \<open>Groups \<open>i\<close> to \<open>i + k\<close>: how many were read, whether they end in an IPv4 address, the rest.\<close>

fun read_groups :: "nat \<Rightarrow> nat \<Rightarrow> string \<Rightarrow> 16 word list \<times> bool \<times> string" where
  "read_groups i 0 s = ([], False, s)"
| "read_groups i (Suc k) s =
     (case (if 0 < k then read_separator CHR '':'' i read_ipv4_addr s else None) of
        Some (octets, r) \<Rightarrow> (u16_pairs octets, True, r)
      | None \<Rightarrow>
          (case read_separator CHR '':'' i (read_number 16 4 True 65535) s of
             Some (g, r) \<Rightarrow> (case read_groups (Suc i) k r of (gs, v4, r') \<Rightarrow> (word_of_nat g # gs, v4, r'))
           | None \<Rightarrow> ([], False, s)))"

definition read_ipv6_addr :: "string \<Rightarrow> (16 word list \<times> string) option" where
  "read_ipv6_addr s =
     (case read_groups 0 8 s of
        (head, head_ipv4, r) \<Rightarrow>
          if length head = 8 then Some (head, r)
          else if head_ipv4 then None
          else (case strip_prefix r ''::'' of
                  None \<Rightarrow> None
                | Some r' \<Rightarrow>
                    (case read_groups 0 (8 - (length head + 1)) r' of
                       (tail, _, r'') \<Rightarrow> Some (head @ replicate (8 - length head - length tail) 0 @ tail, r''))))"

definition parse_ip :: "string \<Rightarrow> ip_addr option" where
  "parse_ip s =
     (case read_ipv4_addr s of
        Some ([a, b, c, d], r) \<Rightarrow> if r = [] then Some (V4 a b c d) else None
      | _ \<Rightarrow> (case read_ipv6_addr s of Some (segments, r) \<Rightarrow> if r = [] then Some (V6 segments) else None | None \<Rightarrow> None))"

section \<open>The internal network\<close>

definition LOCALHOST :: "16 word list" where
  "LOCALHOST = [0, 0, 0, 0, 0, 0, 0, 1]"

fun is_private_ip :: "ip_addr \<Rightarrow> bool" where
  "is_private_ip (V4 a b c d) \<longleftrightarrow>
     a = 127 \<or> a = 10 \<or> a = 172 \<and> b AND 0xf0 = 16 \<or> a = 192 \<and> b = 168"
| "is_private_ip (V6 segments) \<longleftrightarrow> segments = LOCALHOST \<or> hd segments AND 0xfe00 = 0xfc00"

text \<open>\<open>connect_info\<close> is the peer of the connection, when the server recorded it.\<close>

definition extract_client_ip :: "header_map \<Rightarrow> ip_addr option \<Rightarrow> ip_addr option" where
  "extract_client_ip headers connect_info =
     (case Option.bind (header_str headers ''x-real-ip'') (\<lambda>v. parse_ip (str_trim v)) of
        Some real_ip \<Rightarrow> Some real_ip
      | None \<Rightarrow>
          (case Option.bind (header_str headers ''x-forwarded-for'')
                  (\<lambda>xff. parse_ip (str_trim (hd (split_on CHR '','' xff)))) of
             Some ip \<Rightarrow> Some ip
           | None \<Rightarrow> connect_info))"

definition internal_ip_middleware ::
  "header_map \<Rightarrow> ip_addr option \<Rightarrow> ('s, api_error, 'r) io \<Rightarrow> ('s, api_error, 'r) io" where
  "internal_ip_middleware headers connect_info nxt =
     (case extract_client_ip headers connect_info of
        Some ip \<Rightarrow> if is_private_ip ip then nxt else throw (forbidden_with ''access denied: internal network only'')
      | None \<Rightarrow> throw (forbidden_with ''access denied: internal network only''))"

section \<open>Factory keys\<close>

definition factory_auth_middleware ::
  "(string \<Rightarrow> string \<Rightarrow> bool) \<Rightarrow> string list \<Rightarrow> header_map \<Rightarrow> (string \<Rightarrow> ('s, api_error, 'r) io) \<Rightarrow> ('s, api_error, 'r) io" where
  "factory_auth_middleware ct_eq api_keys headers nxt =
     bindE (ok_or (unauthorized_with ''Invalid factory API key'')
       (Option.bind (header_str headers ''authorization'') (\<lambda>s. strip_prefix s ''Bearer ''))) (\<lambda>bearer.
     if \<not> list_ex (\<lambda>k. ct_eq bearer k) api_keys then throw (unauthorized_with ''Invalid factory API key'')
     else nxt ''factory'')"

section \<open>Routes\<close>

text \<open>The route table, one list per group; a path parameter is written in braces.\<close>

definition auth_routes :: "(string \<times> http_method list) list" where
  "auth_routes =
     [(''/auth/config'', [GET]), (''/auth/oauth/start'', [GET]), (''/auth/oauth/callback'', [GET]),
      (''/auth/refresh'', [POST]), (''/auth/logout'', [POST])]"

definition webhook_routes :: "(string \<times> http_method list) list" where
  "webhook_routes =
     [(''/access/auth'', [POST]), (''/access/acl'', [POST]), (''/thing/service/set_subscribe'', [POST]),
      (''/thing/property/post'', [POST]), (''/thing/service/set_reply'', [POST]), (''/thing/event/post'', [POST]),
      (''/thing/file/upload'', [POST]), (''/thing/factory-metadata/get'', [POST]), (''/ota/version'', [POST]),
      (''/device/connect'', [POST]), (''/device/disconnect'', [POST])]"

definition admin_routes :: "(string \<times> http_method list) list" where
  "admin_routes =
     [(''/admin/property'', [GET]),
      (''/admin/property/command'', [GET, POST, DELETE]),
      (''/admin/service/command'', [GET, POST, DELETE]),
      (''/admin/property/shadow/desired'', [PUT]),
      (''/admin/property/shadow'', [GET]),
      (''/admin/property/history'', [GET]),
      (''/admin/property/history/keys'', [GET]),
      (''/admin/property/history/series'', [GET]),
      (''/admin/event'', [GET]),
      (''/admin/device/status'', [GET]),
      (''/admin/device/operation'', [GET]),
      (''/admin/device/status/history'', [GET]),
      (''/admin/valid/event'', [GET, POST]),
      (''/admin/valid/event/{id}'', [GET, PATCH, DELETE]),
      (''/admin/valid/event/{id}/status'', [PATCH]),
      (''/admin/ca/cert'', [GET, POST]),
      (''/admin/ca/pem'', [GET]),
      (''/admin/ca/cert/{id}'', [GET]),
      (''/admin/ca/cert/status'', [PATCH]),
      (''/admin/product'', [GET, POST]),
      (''/admin/product/{id}'', [GET, PATCH]),
      (''/admin/ota/version'', [GET, POST]),
      (''/admin/ota/version/{id}'', [GET, PUT, DELETE]),
      (''/admin/file/upload'', [POST]),
      (''/admin/file/download-url'', [GET]),
      (''/admin/alarm-rule'', [GET, POST]),
      (''/admin/alarm-rule/{id}'', [GET, PATCH, DELETE]),
      (''/admin/alarm-rule/{id}/status'', [PATCH]),
      (''/admin/alarm'', [GET]),
      (''/admin/alarm/{id}/ack'', [PATCH]),
      (''/admin/alarm/{id}/clear'', [PATCH]),
      (''/admin/factory/devices/{device_sn}'', [GET]),
      (''/admin/factory/sn/{sn}/changes'', [GET])]"

definition factory_routes :: "(string \<times> http_method list) list" where
  "factory_routes =
     [(''/factory/file/upload'', [POST]), (''/factory/components/{component_sn}'', [PUT]),
      (''/factory/devices/{device_sn}'', [PUT]), (''/factory/devices/{device_sn}/components'', [PUT])]"

text \<open>The part of a route before its first parameter: every path it serves starts with it.\<close>

definition literal_part :: "string \<Rightarrow> string" where
  "literal_part pattern = takeWhile (\<lambda>c. c \<noteq> CHR ''{'') pattern"

definition admin_prefixes :: "string list" where
  "admin_prefixes =
     [''/admin/product'', ''/admin/valid'', ''/admin/file'', ''/admin/device'', ''/admin/property'', ''/admin/event'',
      ''/admin/service'', ''/admin/alarm'', ''/admin/factory'', ''/admin/ca'', ''/admin/ota'']"

lemma permission_prefix:
  assumes "p \<in> set admin_prefixes" "m \<in> {GET, POST, PUT, PATCH, DELETE}"
  shows "\<exists>r. extract_permission (p @ q) m = Some \<lparr>hr_resource = r, hr_action = (if m = GET then ''read'' else ''write'')\<rparr> \<and>
    extract_permission (''/api'' @ p @ q) m = extract_permission (p @ q) m"
proof -
  define a where "a = (if m = GET then ''read'' else ''write'')"
  have act: "(case m of GET \<Rightarrow> Some ''read'' | POST \<Rightarrow> Some ''write'' | PUT \<Rightarrow> Some ''write''
      | PATCH \<Rightarrow> Some ''write'' | DELETE \<Rightarrow> Some ''write'' | OtherMethod _ \<Rightarrow> None) = Some a"
    using assms(2) by (auto simp: a_def)
  show ?thesis
    using assms(1) unfolding admin_prefixes_def a_def [symmetric] extract_permission_def act
    by (auto simp: strip_prefix_def starts_with_def)
qed

lemma permission_outside:
  assumes "7 \<le> length p" "take 4 p \<noteq> ''/api''" "take 7 p \<noteq> ''/admin/''"
  shows "extract_permission (p @ q) m = None"
proof -
  have "\<not> starts_with (p @ q) (''/admin/'' @ r)" for r
  proof
    assume "starts_with (p @ q) (''/admin/'' @ r)"
    then have "take 7 (take (length (''/admin/'' @ r)) (p @ q)) = take 7 (''/admin/'' @ r)" unfolding starts_with_def by (rule arg_cong)
    with assms(1,3) show False by (simp add: eval_nat_numeral)
  qed
  from this [of "''product''"] this [of "''valid''"] this [of "''file''"] this [of "''device''"] this [of "''property''"]
    this [of "''event''"] this [of "''service''"] this [of "''alarm-rule''"] this [of "''alarm''"] this [of "''factory''"]
    this [of "''ca''"] this [of "''ota''"]
  moreover have "strip_prefix (p @ q) ''/api'' = None"
    using assms(1,2) by (simp add: strip_prefix_def starts_with_def eval_nat_numeral)
  ultimately show ?thesis by (simp add: extract_permission_def Let_def)
qed

lemma admin_routes_prefixed:
  "list_all (\<lambda>(pattern, ms). list_ex (\<lambda>p. starts_with (literal_part pattern) p) admin_prefixes \<and>
     list_all (\<lambda>m. m \<in> {GET, POST, PUT, PATCH, DELETE}) ms) admin_routes"
  by code_simp

lemma other_routes_apart:
  "list_all (\<lambda>(pattern, ms). let p = literal_part pattern in 7 \<le> length p \<and> take 4 p \<noteq> ''/api'' \<and> take 7 p \<noteq> ''/admin/'')
     (auth_routes @ webhook_routes @ factory_routes)"
  by code_simp

text \<open>
  With Herald in front of the management routes, every one of them is reachable: for each route and each
  of its methods, and for every path the route can serve, with or without the \<open>/api\<close> prefix, there is a
  permission to ask for, which reads for \<open>GET\<close> and writes for every other method; a request to any other
  group of routes, or with another method, has none and would be refused.
\<close>

theorem permissions_cover_admin_routes:
  "(\<forall>(pattern, ms)\<in>set admin_routes. \<forall>m\<in>set ms. \<forall>path. starts_with path (literal_part pattern) \<longrightarrow>
      (\<exists>r. extract_permission path m = Some \<lparr>hr_resource = r, hr_action = (if m = GET then ''read'' else ''write'')\<rparr> \<and>
           extract_permission (''/api'' @ path) m = extract_permission path m)) \<and>
   (\<forall>(pattern, ms)\<in>set (auth_routes @ webhook_routes @ factory_routes). \<forall>m path.
      starts_with path (literal_part pattern) \<longrightarrow> extract_permission path m = None) \<and>
   (\<forall>path m. extract_permission path (OtherMethod m) = None)"
proof (intro conjI)
  show "\<forall>(pattern, ms)\<in>set admin_routes. \<forall>m\<in>set ms. \<forall>path. starts_with path (literal_part pattern) \<longrightarrow>
      (\<exists>r. extract_permission path m = Some \<lparr>hr_resource = r, hr_action = (if m = GET then ''read'' else ''write'')\<rparr> \<and>
           extract_permission (''/api'' @ path) m = extract_permission path m)"
  proof (clarify)
    fix pattern ms m path assume "(pattern, ms) \<in> set admin_routes" "m \<in> set ms" "starts_with path (literal_part pattern)"
    then obtain p where p: "p \<in> set admin_prefixes" "starts_with (literal_part pattern) p" "m \<in> {GET, POST, PUT, PATCH, DELETE}"
      using admin_routes_prefixed unfolding list_all_iff list_ex_iff by fast
    then obtain q where "path = p @ q"
      using \<open>starts_with path (literal_part pattern)\<close> unfolding starts_with_iff by auto
    with permission_prefix [OF p(1,3), of q]
    show "\<exists>r. extract_permission path m = Some \<lparr>hr_resource = r, hr_action = (if m = GET then ''read'' else ''write'')\<rparr> \<and>
        extract_permission (''/api'' @ path) m = extract_permission path m" by simp
  qed
  show "\<forall>(pattern, ms)\<in>set (auth_routes @ webhook_routes @ factory_routes). \<forall>m path.
      starts_with path (literal_part pattern) \<longrightarrow> extract_permission path m = None"
    using other_routes_apart unfolding list_all_iff starts_with_iff Let_def by (auto intro: permission_outside)
  show "\<forall>path m. extract_permission path (OtherMethod m) = None"
    by (simp add: extract_permission_def Let_def split: option.split)
qed

theorem permissions_cover_admin_routes_witness:
  "\<exists>r. extract_permission ''/admin/alarm/7/ack'' PATCH = Some \<lparr>hr_resource = r, hr_action = ''write''\<rparr>"
proof -
  have "(''/admin/alarm/{id}/ack'', [PATCH]) \<in> set admin_routes" by (simp add: admin_routes_def)
  moreover have "starts_with ''/admin/alarm/7/ack'' (literal_part ''/admin/alarm/{id}/ack'')" by code_simp
  ultimately have "\<exists>r. extract_permission ''/admin/alarm/7/ack'' PATCH =
      Some \<lparr>hr_resource = r, hr_action = (if PATCH = GET then ''read'' else ''write'')\<rparr> \<and>
      extract_permission (''/api'' @ ''/admin/alarm/7/ack'') PATCH = extract_permission ''/admin/alarm/7/ack'' PATCH"
    using permissions_cover_admin_routes [THEN conjunct1, THEN bspec, of "(''/admin/alarm/{id}/ack'', [PATCH])"]
    by (simp only: prod.case list.set insert_iff empty_iff simp_thms ball_simps)
  then show ?thesis by auto
qed

section \<open>What the guards let through\<close>

text \<open>Addresses as numbers and networks as prefixes, the notation of the comment of \<open>is_private_ip\<close>.\<close>

definition ipv4_number :: "8 word \<Rightarrow> 8 word \<Rightarrow> 8 word \<Rightarrow> 8 word \<Rightarrow> nat" where
  "ipv4_number a b c d = ((unat a * 256 + unat b) * 256 + unat c) * 256 + unat d"

definition in_cidr :: "nat \<Rightarrow> nat \<Rightarrow> nat \<Rightarrow> bool" where
  "in_cidr base bits n \<longleftrightarrow> base \<le> n \<and> n < base + 2 ^ (32 - bits)"

lemma unat8: "unat (a :: 8 word) < 256"
  using unsigned_less [of a] by simp

lemma and_push_bit: "(n :: nat) AND push_bit k m = push_bit k (drop_bit k n AND m)"
  by (rule bit_eqI) (auto simp: bit_simps)

lemma and_high_bits: "(n :: nat) AND push_bit k (mask m) = 2 ^ k * (n div 2 ^ k mod 2 ^ m)"
  unfolding and_push_bit take_bit_eq_mask [symmetric]
  by (simp add: push_bit_eq_mult drop_bit_eq_div take_bit_eq_mod)

lemma high_nibble: "(b :: 8 word) AND 0xf0 = 16 \<longleftrightarrow> 16 \<le> unat b \<and> unat b < 32"
proof -
  have "(0xf0 :: nat) = push_bit 4 (mask 4)" by (simp add: push_bit_eq_mult mask_eq_exp_minus_1)
  then have masked: "unat (b AND 0xf0) = 16 * (unat b div 16)"
    using unat8 [of b] and_high_bits [of "unat b" 4 4] by (simp add: unsigned_and_eq)
  have "b AND 0xf0 = 16 \<longleftrightarrow> unat (b AND 0xf0) = 16" by (simp add: word_unat_eq_iff)
  also have "\<dots> \<longleftrightarrow> unat b div 16 = 1" unfolding masked by simp
  also have "\<dots> \<longleftrightarrow> 16 \<le> unat b \<and> unat b < 32" by auto
  finally show ?thesis .
qed

lemma unique_local: "(s :: 16 word) AND 0xfe00 = 0xfc00 \<longleftrightarrow> 0xfc00 \<le> unat s \<and> unat s \<le> 0xfdff"
proof -
  have s: "unat s < 65536" using unsigned_less [of s] by simp
  have "(0xfe00 :: nat) = push_bit 9 (mask 7)" by (simp add: push_bit_eq_mult mask_eq_exp_minus_1)
  then have masked: "unat (s AND 0xfe00) = 512 * (unat s div 512)"
    using s and_high_bits [of "unat s" 9 7] by (simp add: unsigned_and_eq)
  have "s AND 0xfe00 = 0xfc00 \<longleftrightarrow> unat (s AND 0xfe00) = 0xfc00" by (simp add: word_unat_eq_iff)
  also have "\<dots> \<longleftrightarrow> unat s div 512 = 126" unfolding masked by simp
  also have "\<dots> \<longleftrightarrow> 0xfc00 \<le> unat s \<and> unat s \<le> 0xfdff" by auto
  finally show ?thesis .
qed

lemma octet_ranges:
  fixes a b r :: nat
  assumes "b < 256" "r < 65536"
  shows "in_cidr 0x7f000000 8 ((a * 256 + b) * 65536 + r) \<longleftrightarrow> a = 127"
    "in_cidr 0x0a000000 8 ((a * 256 + b) * 65536 + r) \<longleftrightarrow> a = 10"
    "in_cidr 0xac100000 12 ((a * 256 + b) * 65536 + r) \<longleftrightarrow> a = 172 \<and> 16 \<le> b \<and> b < 32"
    "in_cidr 0xc0a80000 16 ((a * 256 + b) * 65536 + r) \<longleftrightarrow> a = 192 \<and> b = 168"
proof -
  have block: "k * 65536 \<le> x * 65536 + r \<longleftrightarrow> k \<le> x" for k x :: nat using assms(2) by linarith
  have cidr: "in_cidr (k * 65536) bits ((a * 256 + b) * 65536 + r) \<longleftrightarrow> k \<le> a * 256 + b \<and> a * 256 + b < k + 2 ^ (16 - bits)"
    if "bits \<le> 16" for k bits
  proof -
    have split: "32 - bits = (16 - bits) + 16" using that by simp
    have "(2 :: nat) ^ (32 - bits) = 2 ^ (16 - bits) * 65536" unfolding split power_add by simp
    then have "in_cidr (k * 65536) bits ((a * 256 + b) * 65536 + r) \<longleftrightarrow>
        k * 65536 \<le> (a * 256 + b) * 65536 + r \<and> (a * 256 + b) * 65536 + r < (k + 2 ^ (16 - bits)) * 65536"
      unfolding in_cidr_def by (simp add: distrib_right)
    also have "\<dots> \<longleftrightarrow> k \<le> a * 256 + b \<and> a * 256 + b < k + 2 ^ (16 - bits)"
      using block [of k "a * 256 + b"] block [of "k + 2 ^ (16 - bits)" "a * 256 + b"] by (simp only: not_le [symmetric])
    finally show ?thesis .
  qed
  have digits: "k * 256 + l \<le> a * 256 + b \<and> a * 256 + b < k * 256 + l + m \<longleftrightarrow> a = k \<and> l \<le> b \<and> b < l + m"
    if "l + m \<le> 256" for k l m
  proof (cases "a = k")
    case False
    then consider "a + 1 \<le> k" | "k + 1 \<le> a" by linarith
    then show ?thesis using assms(1) that False mult_le_mono1 [of "a + 1" k 256] mult_le_mono1 [of "k + 1" a 256]
      by cases linarith+
  qed auto
  have net: "in_cidr ((k * 256 + l) * 65536) bits ((a * 256 + b) * 65536 + r) \<longleftrightarrow> a = k \<and> l \<le> b \<and> b < l + 2 ^ (16 - bits)"
    if "bits \<le> 16" "l + 2 ^ (16 - bits) \<le> 256" for k l bits
    unfolding cidr [OF that(1)] digits [OF that(2)] by (rule refl)
  have base: "(0x7f000000 :: nat) = (127 * 256 + 0) * 65536" "(0x0a000000 :: nat) = (10 * 256 + 0) * 65536"
    "(0xac100000 :: nat) = (172 * 256 + 16) * 65536" "(0xc0a80000 :: nat) = (192 * 256 + 168) * 65536" by simp_all
  show "in_cidr 0x7f000000 8 ((a * 256 + b) * 65536 + r) \<longleftrightarrow> a = 127"
    unfolding base using net [where bits = 8 and k = 127 and l = 0] assms(1) by simp
  show "in_cidr 0x0a000000 8 ((a * 256 + b) * 65536 + r) \<longleftrightarrow> a = 10"
    unfolding base using net [where bits = 8 and k = 10 and l = 0] assms(1) by simp
  show "in_cidr 0xac100000 12 ((a * 256 + b) * 65536 + r) \<longleftrightarrow> a = 172 \<and> 16 \<le> b \<and> b < 32"
    unfolding base using net [where bits = 12 and k = 172 and l = 16] by simp
  show "in_cidr 0xc0a80000 16 ((a * 256 + b) * 65536 + r) \<longleftrightarrow> a = 192 \<and> b = 168"
    unfolding base using net [where bits = 16 and k = 192 and l = 168] by auto
qed

text \<open>
  \<open>is_private_ip\<close> accepts exactly the ranges its comment lists. Read as a 32-bit number, an IPv4 address
  is private iff it lies in 127.0.0.0/8, 10.0.0.0/8, 172.16.0.0/12 or 192.168.0.0/16; an IPv6 address is
  private iff it is \<open>::1\<close> or its first segment, the top sixteen bits, lies between \<open>fc00\<close> and \<open>fdff\<close>.
\<close>

theorem private_ranges_exact:
  "(is_private_ip (V4 a b c d) \<longleftrightarrow>
      (let n = ipv4_number a b c d
       in in_cidr 0x7f000000 8 n \<or> in_cidr 0x0a000000 8 n \<or> in_cidr 0xac100000 12 n \<or> in_cidr 0xc0a80000 16 n)) \<and>
   (is_private_ip (V6 (s # ss)) \<longleftrightarrow> s # ss = [0, 0, 0, 0, 0, 0, 0, 1] \<or> 0xfc00 \<le> unat s \<and> unat s \<le> 0xfdff)"
proof (rule conjI)
  have eqs: "a = 127 \<longleftrightarrow> unat a = 127" "a = 10 \<longleftrightarrow> unat a = 10" "a = 172 \<longleftrightarrow> unat a = 172" "a = 192 \<longleftrightarrow> unat a = 192"
    "b = 168 \<longleftrightarrow> unat b = 168" by (simp_all add: word_unat_eq_iff)
  have num: "ipv4_number a b c d = (unat a * 256 + unat b) * 65536 + (unat c * 256 + unat d)" by (simp add: ipv4_number_def)
  have low: "unat c * 256 + unat d < 65536" using unat8 [of c] unat8 [of d] by linarith
  show "is_private_ip (V4 a b c d) \<longleftrightarrow>
      (let n = ipv4_number a b c d
       in in_cidr 0x7f000000 8 n \<or> in_cidr 0x0a000000 8 n \<or> in_cidr 0xac100000 12 n \<or> in_cidr 0xc0a80000 16 n)"
    unfolding is_private_ip.simps eqs high_nibble num Let_def octet_ranges [OF unat8 low] by blast
  show "is_private_ip (V6 (s # ss)) \<longleftrightarrow> s # ss = [0, 0, 0, 0, 0, 0, 0, 1] \<or> 0xfc00 \<le> unat s \<and> unat s \<le> 0xfdff"
    by (simp add: unique_local LOCALHOST_def)
qed

text \<open>The user for whom Herald grants a request: the specification of the permission guard.\<close>

definition granted_user ::
  "(string \<Rightarrow> herald_rule list \<Rightarrow> herald_error + permission) \<Rightarrow> http_request \<Rightarrow> string \<Rightarrow> bool" where
  "granted_user check_permission rq u \<longleftrightarrow>
     (\<exists>token rule perm. get_cookie (rq_headers rq) ''X-Auth'' = Some token \<and>
        extract_permission (rq_path rq) (rq_method rq) = Some rule \<and>
        check_permission token [rule] = Inr perm \<and> pm_allowed perm \<and> pm_user_id perm = Some u)"

text \<open>
  C23: the guards fail closed. The rest of the stack runs only for a request that carries a session cookie for
  which Herald allows the route's permission and names a user (management routes), whose bearer token is one
  of the configured keys (factory routes, none when no key is configured), or whose client address is
  private (webhooks); every other request is answered with an error of the guard and changes nothing.
\<close>

theorem guards_fail_closed:
  assumes "\<And>a b. ct_eq a b \<longleftrightarrow> a = b"
  shows "((\<exists>u. granted_user check rq u \<and> herald_auth_middleware check rq admin env w = admin u env w) \<or>
     (\<nexists>u. granted_user check rq u) \<and>
       (\<exists>e. herald_auth_middleware check rq admin env w = (Inl e, w) \<and> status e \<in> {401, 403, 503})) \<and>
    factory_auth_middleware ct_eq keys headers factory env w =
      (if \<exists>k\<in>set keys. header_str headers ''authorization'' = Some (''Bearer '' @ k) then factory ''factory'' env w
       else (Inl (unauthorized_with ''Invalid factory API key''), w)) \<and>
    internal_ip_middleware headers peer webhook env w =
      (if \<exists>ip. extract_client_ip headers peer = Some ip \<and> is_private_ip ip then webhook env w
       else (Inl (forbidden_with ''access denied: internal network only''), w))"
proof (intro conjI)
  show "(\<exists>u. granted_user check rq u \<and> herald_auth_middleware check rq admin env w = admin u env w) \<or>
     (\<nexists>u. granted_user check rq u) \<and>
       (\<exists>e. herald_auth_middleware check rq admin env w = (Inl e, w) \<and> status e \<in> {401, 403, 503})"
    by (auto simp: herald_auth_middleware_def granted_user_def extract_auth_token_def get_cookie_def throw_def
        classify_auth_error_def split: option.split sum.split herald_error.split)
  define bearer where "bearer = Option.bind (header_str headers ''authorization'') (\<lambda>s. strip_prefix s ''Bearer '')"
  have bearer: "header_str headers ''authorization'' = Some (''Bearer '' @ b) \<longleftrightarrow> bearer = Some b" for b
    by (cases "header_str headers ''authorization''") (auto simp: bearer_def strip_prefix_def starts_with_iff)
  show "factory_auth_middleware ct_eq keys headers factory env w =
      (if \<exists>k\<in>set keys. header_str headers ''authorization'' = Some (''Bearer '' @ k) then factory ''factory'' env w
       else (Inl (unauthorized_with ''Invalid factory API key''), w))"
    unfolding factory_auth_middleware_def bearer bearer_def [symmetric] assms list_ex_iff
    by (cases bearer) (auto simp: bindE_def ok_or_def throw_def ret_def)
  show "internal_ip_middleware headers peer webhook env w =
      (if \<exists>ip. extract_client_ip headers peer = Some ip \<and> is_private_ip ip then webhook env w
       else (Inl (forbidden_with ''access denied: internal network only''), w))"
    by (auto simp: internal_ip_middleware_def throw_def split: option.split)
qed

theorem guards_fail_closed_witness:
  "factory_auth_middleware (=) [''k1'', ''k2''] (\<lambda>n. if n = ''authorization'' then Some (Some ''Bearer k2'') else None)
     (\<lambda>caller. ret caller) all_done empty_world = (Inr ''factory'' :: api_error + string, empty_world)"
  using guards_fail_closed [where ct_eq = "(=)" and keys = "[''k1'', ''k2'']" and env = all_done and w = empty_world
      and headers = "\<lambda>n. if n = ''authorization'' then Some (Some ''Bearer k2'') else None"
      and factory = "\<lambda>caller. ret caller :: (unit, api_error, string) io", THEN conjunct2, THEN conjunct1, OF refl]
  by (simp add: header_str_def ret_def)

section \<open>Reading addresses\<close>

definition show_ipv4 :: "8 word \<Rightarrow> 8 word \<Rightarrow> 8 word \<Rightarrow> 8 word \<Rightarrow> string" where
  "show_ipv4 a b c d =
     show_nat (unat a) @ ''.'' @ show_nat (unat b) @ ''.'' @ show_nat (unat c) @ ''.'' @ show_nat (unat d)"

lemma to_digit_10: "to_digit 10 c = (if is_ascii_digit c then Some (digit_val c) else None)"
  by (auto simp: to_digit_def is_ascii_digit_def digit_val_def Let_def)

lemma show_nat_small:
  assumes "n < 1000"
  shows "length (show_nat n) \<le> 3" "1 < length (show_nat n) \<Longrightarrow> hd (show_nat n) \<noteq> CHR ''0''"
proof -
  have zero: "k = 0" if "digit_char k = CHR ''0''" "k < 10" for k
    using digit_char_props(2) [OF that(2)] unfolding that(1) by (simp add: digit_val_def)
  have "n div 10 div 10 < 10" using assms by simp
  then show "length (show_nat n) \<le> 3" "1 < length (show_nat n) \<Longrightarrow> hd (show_nat n) \<noteq> CHR ''0''"
    by (auto dest!: zero simp: show_nat.simps [of n] show_nat.simps [of "n div 10"] show_nat.simps [of "n div 10 div 10"]
        div_eq_0_iff split: if_splits)
qed

lemma read_octet:
  assumes "n < 256" and r: "r = [] \<or> to_digit 10 (hd r) = None"
  shows "read_number 10 3 False 255 (show_nat n @ r) = Some (n, r)"
proof -
  have own: "list_all is_ascii_digit (show_nat n)" by (rule show_nat_digits)
  have "takeWhile (\<lambda>c. to_digit 10 c \<noteq> None) (show_nat n @ r) = show_nat n"
    using own r by (cases r) (auto simp: takeWhile_append list_all_iff to_digit_10 split: if_splits)
  moreover have "foldl (\<lambda>a c. a * 10 + the (to_digit 10 c)) 0 (show_nat n) = digits_val (show_nat n)"
    unfolding digits_val_def using own by (intro foldl_cong) (auto simp: to_digit_10 list_all_iff)
  ultimately show ?thesis
    using show_nat_small [of n] assms(1) unfolding read_number_def Let_def by (auto simp: digits_val_show_nat)
qed

lemma read_octet_of_word:
  assumes "r = [] \<or> hd r = CHR ''.''"
  shows "read_number 10 3 False 255 (show_nat (unat (a :: 8 word)) @ r) = Some (unat a, r)"
  using assms by (intro read_octet unat8) (auto simp: to_digit_10 is_ascii_digit_def)

lemma read_octets_first:
  "r = [] \<or> hd r = CHR ''.'' \<Longrightarrow>
   read_octets 0 (Suc k) (show_nat (unat a) @ r) = map_option (\<lambda>(ws, r'). (a # ws, r')) (read_octets 1 k r)"
  by (simp add: read_separator_def read_octet_of_word)

lemma read_octets_next:
  "r = [] \<or> hd r = CHR ''.'' \<Longrightarrow>
   read_octets (Suc i) (Suc k) (CHR ''.'' # show_nat (unat a) @ r) =
     map_option (\<lambda>(ws, r'). (a # ws, r')) (read_octets (Suc (Suc i)) k r)"
  by (simp add: read_separator_def read_octet_of_word)

text \<open>
  The address a peer is shown as is the address the guard reads: parsing the dotted form of an IPv4
  address gives it back.
\<close>

theorem ipv4_roundtrip: "parse_ip (show_ipv4 a b c d) = Some (V4 a b c d)"
proof -
  have four: "(4 :: nat) = Suc (Suc (Suc (Suc 0)))" by simp
  have "read_ipv4_addr (show_ipv4 a b c d) = Some ([a, b, c, d], [])"
    using read_octets_next [of "[]" "Suc (Suc 0)" 0 d]
    unfolding read_ipv4_addr_def show_ipv4_def four
    by (simp add: read_octets_first read_octets_next del: read_octets.simps(2))
  then show ?thesis by (simp add: parse_ip_def)
qed

end
