(* ===== verification/Access.thy ===== *)
theory Access
  imports Http_Guard Rmqtt Hoare
begin

text \<open>
  Who may connect, subscribe and log in: \<open>backend/src/api/auth_handlers.rs\<close>. The broker asks \<open>auth\<close> when a
  device connects and \<open>acl\<close> for every topic; the web console goes through the OAuth endpoints. The record
  \<open>auth_libs\<close> holds what comes from other crates and services: URL parsing, HMAC, SHA-256, base64 and hex, the
  serialisation of the OAuth cookie, random tokens, the check of a header value and the answers of Herald.
  Arithmetic on \<open>i64\<close> wraps, as in a release build.
\<close>

definition trim_end_matches :: "char \<Rightarrow> string \<Rightarrow> string" where
  "trim_end_matches c s = rev (dropWhile (\<lambda>x. x = c) (rev s))"

section \<open>Configuration and libraries\<close>

record herald_config =
  hc_base_url :: string
  hc_realm_id :: string
  hc_client_id :: string

record auth_config =
  ac_suffix :: string
  ac_timestamp_tolerance_secs :: int

record oauth_cookie =
  oc_state :: string
  oc_code_verifier :: string
  oc_return_to :: string
  oc_redirect_uri :: string

record token_response =
  tr_access_token :: string
  tr_refresh_token :: string
  tr_expires_in :: int
  tr_refresh_expires_in :: int

text \<open>A parsed URL, and the outcome of a post to Herald.\<close>

record parsed_url =
  url_scheme :: string
  url_host_str :: "string option"
  url_port :: "nat option"
  url_path :: string
  url_query :: "string option"
  url_fragment :: "string option"

datatype token_answer = SendFailed | BadStatus | BadBody | Tokens token_response

record auth_libs =
  url_parse :: "string \<Rightarrow> parsed_url option"
  url_with_query :: "string \<Rightarrow> (string \<times> string) list \<Rightarrow> string option"
  random_string :: "nat \<Rightarrow> string"
  sha256_digest :: "string \<Rightarrow> string"
  b64url_encode :: "string \<Rightarrow> string"
  b64url_decode :: "string \<Rightarrow> string option"
  cookie_to_json :: "oauth_cookie \<Rightarrow> string option"
  cookie_from_json :: "string \<Rightarrow> oauth_cookie option"
  header_value_ok :: "string \<Rightarrow> bool"
  post_for_tokens :: "string \<Rightarrow> (string \<times> string) list \<Rightarrow> token_answer"
  hmac_sha1 :: "string \<Rightarrow> string \<Rightarrow> string option"
  hex_encode :: "string \<Rightarrow> string"
  constant_time_eq :: "string \<Rightarrow> string \<Rightarrow> bool"

section \<open>Cookies and return paths\<close>

definition build_cookie :: "string \<Rightarrow> string \<Rightarrow> int \<Rightarrow> string" where
  "build_cookie name value max_age_seconds =
     name @ ''='' @ value @ ''; Path=/; Max-Age='' @ show_int max_age_seconds @ ''; HttpOnly; SameSite=Lax''"

definition clear_cookie :: "string \<Rightarrow> string" where
  "clear_cookie name = name @ ''=; Path=/; Max-Age=0; HttpOnly; SameSite=Lax''"

text \<open>\<open>char::is_control\<close> on the UTF-8 form: U+0000 to U+001F, U+007F and U+0080 to U+009F.\<close>

fun has_control :: "string \<Rightarrow> bool" where
  "has_control [] = False"
| "has_control (c # cs) \<longleftrightarrow>
     of_char c < (32 :: nat) \<or> of_char c = (127 :: nat) \<or>
     (of_char c = (194 :: nat) \<and> (case cs of d # _ \<Rightarrow> (128 :: nat) \<le> of_char d \<and> of_char d \<le> (159 :: nat) | [] \<Rightarrow> False)) \<or>
     has_control cs"

definition safe_return_path :: "string \<Rightarrow> string" where
  "safe_return_path path =
     (if starts_with path ''/'' \<and> \<not> starts_with path ''//'' \<and> \<not> has_control path then path else ''/'')"

definition request_origin :: "header_map \<Rightarrow> api_error + string" where
  "request_origin headers =
     (let proto = (case header_str headers ''x-forwarded-proto'' of Some v \<Rightarrow> v | None \<Rightarrow> ''http'');
          host = Option.bind (case headers ''x-forwarded-host'' of Some v \<Rightarrow> Some v | None \<Rightarrow> headers ''host'') (\<lambda>v. v)
      in case host of
           None \<Rightarrow> Inl (bad_request ''missing host header'')
         | Some h \<Rightarrow> Inr (proto @ ''://'' @ h))"

definition url_origin :: "parsed_url \<Rightarrow> api_error + string" where
  "url_origin url =
     (let scheme = url_scheme url
      in if scheme \<noteq> ''http'' \<and> scheme \<noteq> ''https'' then Inl (bad_request ''invalid redirect URL scheme'')
         else case url_host_str url of
                None \<Rightarrow> Inl (bad_request ''invalid redirect URL host'')
              | Some host \<Rightarrow>
                  Inr (scheme @ ''://'' @ host @ (case url_port url of Some p \<Rightarrow> '':'' @ show_nat p | None \<Rightarrow> [])))"

definition resolve_app_origin_and_return_to ::
  "auth_libs \<Rightarrow> header_map \<Rightarrow> string option \<Rightarrow> api_error + string \<times> string" where
  "resolve_app_origin_and_return_to L headers redirect =
     (let fallback = (case request_origin headers of Inl e \<Rightarrow> Inl e | Inr origin \<Rightarrow> Inr (origin, ''/''))
      in case redirect of
           None \<Rightarrow> fallback
         | Some redirect \<Rightarrow>
             (case url_parse L redirect of
                Some url \<Rightarrow>
                  (case url_origin url of
                     Inl e \<Rightarrow> Inl e
                   | Inr origin \<Rightarrow>
                       let return_to = url_path url @
                             (case url_query url of Some query \<Rightarrow> ''?'' @ query | None \<Rightarrow> []) @
                             (case url_fragment url of Some fragment \<Rightarrow> ''#'' @ fragment | None \<Rightarrow> [])
                       in Inr (origin, safe_return_path return_to))
              | None \<Rightarrow>
                  if starts_with redirect ''/'' \<and> \<not> starts_with redirect ''//''
                  then (case request_origin headers of Inl e \<Rightarrow> Inl e | Inr origin \<Rightarrow> Inr (origin, safe_return_path redirect))
                  else fallback))"

section \<open>The OAuth endpoints\<close>

record auth_config_response =
  cr_enabled :: bool
  cr_login_url :: "string option"
  cr_herald_login_url :: "string option"

definition get_auth_config :: "herald_config option \<Rightarrow> auth_config_response" where
  "get_auth_config herald =
     \<lparr>cr_enabled = (herald \<noteq> None),
      cr_login_url = map_option (\<lambda>_. ''/api/auth/oauth/start'') herald,
      cr_herald_login_url = map_option (\<lambda>h. trim_end_matches CHR ''/'' (hc_base_url h) @ ''/'' @ hc_realm_id h @
        ''/auth/login'') herald\<rparr>"

record http_response =
  rs_status :: nat
  rs_location :: "string option"
  rs_set_cookies :: "string list"

definition pkce_challenge :: "auth_libs \<Rightarrow> string \<Rightarrow> string" where
  "pkce_challenge L code_verifier = b64url_encode L (sha256_digest L code_verifier)"

definition encode_oauth_cookie :: "auth_libs \<Rightarrow> oauth_cookie \<Rightarrow> api_error + string" where
  "encode_oauth_cookie L cookie =
     (case cookie_to_json L cookie of
        None \<Rightarrow> Inl (internal ''failed to serialize OAuth state'')
      | Some json \<Rightarrow> Inr (b64url_encode L json))"

definition decode_oauth_cookie :: "auth_libs \<Rightarrow> string \<Rightarrow> api_error + oauth_cookie" where
  "decode_oauth_cookie L value =
     (case b64url_decode L value of
        None \<Rightarrow> Inl unauthorized
      | Some bytes \<Rightarrow> (case cookie_from_json L bytes of None \<Rightarrow> Inl unauthorized | Some cookie \<Rightarrow> Inr cookie))"

definition build_authorize_url ::
  "auth_libs \<Rightarrow> string \<Rightarrow> string \<Rightarrow> string \<Rightarrow> string \<Rightarrow> string \<Rightarrow> string \<Rightarrow> api_error + string" where
  "build_authorize_url L herald_base_url realm_id client_id redirect_uri st code_challenge =
     (case url_with_query L (herald_base_url @ ''/api/oauth/'' @ realm_id @ ''/authorize'')
        [(''client_id'', client_id), (''redirect_uri'', redirect_uri), (''state'', st), (''response_type'', ''code''),
         (''code_challenge'', code_challenge), (''code_challenge_method'', ''S256'')] of
        None \<Rightarrow> Inl (internal ''invalid Herald OAuth authorize URL'')
      | Some url \<Rightarrow> Inr url)"

definition oauth_start ::
  "auth_libs \<Rightarrow> herald_config option \<Rightarrow> header_map \<Rightarrow> string option \<Rightarrow> api_error + http_response" where
  "oauth_start L herald headers redirect =
     (case herald of
        None \<Rightarrow> Inl (not_found ''Herald auth is not configured'')
      | Some h \<Rightarrow>
          (case resolve_app_origin_and_return_to L headers redirect of
             Inl e \<Rightarrow> Inl e
           | Inr (app_origin, return_to) \<Rightarrow>
               let redirect_uri = app_origin @ ''/api/auth/oauth/callback'';
                   oauth_state = random_string L 32;
                   code_verifier = random_string L 64;
                   code_challenge = pkce_challenge L code_verifier
               in case build_authorize_url L (trim_end_matches CHR ''/'' (hc_base_url h)) (hc_realm_id h) (hc_client_id h)
                         redirect_uri oauth_state code_challenge of
                    Inl e \<Rightarrow> Inl e
                  | Inr authorize_url \<Rightarrow>
                      (case encode_oauth_cookie L \<lparr>oc_state = oauth_state, oc_code_verifier = code_verifier,
                              oc_return_to = return_to, oc_redirect_uri = redirect_uri\<rparr> of
                         Inl e \<Rightarrow> Inl e
                       | Inr cookie \<Rightarrow>
                           Inr \<lparr>rs_status = 302, rs_location = Some authorize_url,
                                rs_set_cookies = [build_cookie ''RMQTT_OAUTH'' cookie 300]\<rparr>)))"

definition token_result :: "token_answer \<Rightarrow> api_error + token_response" where
  "token_result answer =
     (case answer of
        SendFailed \<Rightarrow> Inl (service_unavailable ''auth service unavailable'')
      | BadStatus \<Rightarrow> Inl unauthorized
      | BadBody \<Rightarrow> Inl (service_unavailable ''auth service unavailable'')
      | Tokens t \<Rightarrow> Inr t)"

definition exchange_oauth_code ::
  "auth_libs \<Rightarrow> string \<Rightarrow> string \<Rightarrow> string \<Rightarrow> string \<Rightarrow> string \<Rightarrow> string \<Rightarrow> api_error + token_response" where
  "exchange_oauth_code L herald_base_url realm_id client_id code redirect_uri code_verifier =
     token_result (post_for_tokens L (herald_base_url @ ''/api/oauth/'' @ realm_id @ ''/token'')
       [(''grant_type'', ''authorization_code''), (''code'', code), (''redirect_uri'', redirect_uri),
        (''client_id'', client_id), (''code_verifier'', code_verifier)])"

definition refresh_oauth_token :: "auth_libs \<Rightarrow> string \<Rightarrow> string \<Rightarrow> api_error + token_response" where
  "refresh_oauth_token L herald_base_url refresh_token =
     token_result (post_for_tokens L (herald_base_url @ ''/api/auth/browser-token/refresh'') [(''refreshToken'', refresh_token)])"

text \<open>\<open>HeaderValue::from_str(v).map_err(|_| internal m)?\<close> for a list of values.\<close>

fun header_values :: "auth_libs \<Rightarrow> (string \<times> string) list \<Rightarrow> api_error + string list" where
  "header_values L [] = Inr []"
| "header_values L ((v, m) # vs) =
     (if \<not> header_value_ok L v then Inl (internal m)
      else case header_values L vs of Inl e \<Rightarrow> Inl e | Inr r \<Rightarrow> Inr (v # r))"

definition oauth_callback ::
  "auth_libs \<Rightarrow> herald_config option \<Rightarrow> header_map \<Rightarrow> string \<Rightarrow> string \<Rightarrow> api_error + http_response" where
  "oauth_callback L herald headers code st =
     (case herald of
        None \<Rightarrow> Inl (not_found ''Herald auth is not configured'')
      | Some h \<Rightarrow>
          (case get_cookie headers ''RMQTT_OAUTH'' of
             None \<Rightarrow> Inl unauthorized
           | Some oauth_cookie_value \<Rightarrow>
               (case decode_oauth_cookie L oauth_cookie_value of
                  Inl e \<Rightarrow> Inl e
                | Inr oauth_cookie \<Rightarrow>
                    if oc_state oauth_cookie \<noteq> st then Inl unauthorized
                    else (case exchange_oauth_code L (trim_end_matches CHR ''/'' (hc_base_url h)) (hc_realm_id h)
                                 (hc_client_id h) code (oc_redirect_uri oauth_cookie) (oc_code_verifier oauth_cookie) of
                            Inl e \<Rightarrow> Inl e
                          | Inr token \<Rightarrow>
                              (case header_values L
                                 [(oc_return_to oauth_cookie, ''invalid OAuth return path''),
                                  (build_cookie ''X-Auth'' (tr_access_token token) (tr_expires_in token), ''invalid auth cookie''),
                                  (build_cookie ''X-Auth-Refresh'' (tr_refresh_token token) (tr_refresh_expires_in token),
                                   ''invalid refresh cookie''),
                                  (clear_cookie ''RMQTT_OAUTH'', ''invalid OAuth cookie'')] of
                                 Inl e \<Rightarrow> Inl e
                               | Inr vs \<Rightarrow> Inr \<lparr>rs_status = 302, rs_location = Some (hd vs), rs_set_cookies = tl vs\<rparr>)))))"

definition refresh_token ::
  "auth_libs \<Rightarrow> herald_config option \<Rightarrow> header_map \<Rightarrow> api_error + http_response \<times> int" where
  "refresh_token L herald headers =
     (case herald of
        None \<Rightarrow> Inl (not_found ''Herald auth is not configured'')
      | Some h \<Rightarrow>
          (case get_cookie headers ''X-Auth-Refresh'' of
             None \<Rightarrow> Inl unauthorized
           | Some refresh_cookie \<Rightarrow>
               (case refresh_oauth_token L (trim_end_matches CHR ''/'' (hc_base_url h)) refresh_cookie of
                  Inl e \<Rightarrow> Inl e
                | Inr tokens \<Rightarrow>
                    (case header_values L
                       [(build_cookie ''X-Auth'' (tr_access_token tokens) (tr_expires_in tokens), ''invalid auth cookie''),
                        (build_cookie ''X-Auth-Refresh'' (tr_refresh_token tokens) (tr_refresh_expires_in tokens),
                         ''invalid refresh cookie'')] of
                       Inl e \<Rightarrow> Inl e
                     | Inr vs \<Rightarrow>
                         Inr (\<lparr>rs_status = 200, rs_location = None, rs_set_cookies = vs\<rparr>, tr_expires_in tokens)))))"

text \<open>
  The second part of the result is what is posted to Herald, with its bearer header; the answer to that post is
  dropped. The post happens before the cookies are built.
\<close>

definition herald_logout :: "string \<Rightarrow> string \<Rightarrow> string \<times> string" where
  "herald_logout herald_base_url access_token = (herald_base_url @ ''/api/auth/logout'', ''Bearer '' @ access_token)"

definition logout ::
  "auth_libs \<Rightarrow> herald_config option \<Rightarrow> header_map \<Rightarrow> (api_error + http_response) \<times> (string \<times> string) option" where
  "logout L herald headers =
     (case herald of
        None \<Rightarrow> (Inl (not_found ''Herald auth is not configured''), None)
      | Some h \<Rightarrow>
          let posted = map_option (herald_logout (trim_end_matches CHR ''/'' (hc_base_url h))) (get_cookie headers ''X-Auth'')
          in (case header_values L [(clear_cookie ''X-Auth'', ''invalid auth cookie''),
                                    (clear_cookie ''X-Auth-Refresh'', ''invalid refresh cookie'')] of
                Inl e \<Rightarrow> Inl e
              | Inr vs \<Rightarrow> Inr \<lparr>rs_status = 200, rs_location = None, rs_set_cookies = vs\<rparr>, posted))"

section \<open>Devices\<close>

datatype verdict = Allow | Deny

datatype access = AccessSubscribe | AccessPublish

record acl_payload =
  ap_access :: access
  ap_username :: "string option"
  ap_client_id :: string
  ap_ip :: string
  ap_topic :: string

definition acl :: "acl_payload \<Rightarrow> verdict" where
  "acl payload =
     (let topic = (case strip_prefix (ap_topic payload) ''/'' of Some t \<Rightarrow> t | None \<Rightarrow> ap_topic payload)
      in case split_on CHR ''/'' topic of
           p0 # p1 # p2 # p3 # _ \<Rightarrow>
             if p1 \<noteq> ap_client_id payload then Deny
             else (case ap_username payload of
                     None \<Rightarrow> Deny
                   | Some username \<Rightarrow>
                       if p0 \<noteq> username then Deny
                       else if p2 = ''thing'' \<and> (p3 = ''event'' \<or> p3 = ''service'' \<or> p3 = ''file'' \<or> p3 = ''factory-metadata'')
                       then Allow
                       else if p2 = ''ota'' \<and> (p3 = ''upgrade'' \<or> p3 = ''version'') then Allow
                       else Deny)
         | _ \<Rightarrow> Deny)"

record auth_payload =
  au_client_id :: string
  au_username :: "string option"
  au_password :: string

definition check_device_admission :: "string \<Rightarrow> string \<Rightarrow> ('s, 'e, verdict) io" where
  "check_device_admission product_id device_id =
     matchE (admission_check product_id device_id)
       (\<lambda>(device_exists, auto_provisioning).
          if device_exists then ret Allow
          else case auto_provisioning of
                 Some True \<Rightarrow>
                   matchE (device_upsert product_id device_id Auto) (\<lambda>_. ret Allow) (\<lambda>_. ret Deny)
               | Some False \<Rightarrow> ret Deny
               | None \<Rightarrow> ret Deny)
       (\<lambda>_. ret Deny)"

definition auth :: "auth_libs \<Rightarrow> auth_config \<Rightarrow> auth_payload \<Rightarrow> ('s, 'e, verdict) io" where
  "auth L cfg payload =
     (let suffix = ac_suffix cfg
      in if 64 < length (au_client_id payload) \<or> 256 < length (au_password payload) \<or> au_password payload = []
         then ret Deny
         else case split_on CHR ''.'' (au_password payload) of
                [nonce, timestamp_str, hash] \<Rightarrow>
                  if length nonce \<noteq> 6 then ret Deny
                  else (case parse_i64 timestamp_str of
                          None \<Rightarrow> ret Deny
                        | Some timestamp \<Rightarrow>
                            bindE now_utc (\<lambda>t.
                            let now = t div ns_per_sec;
                                time_diff = wrap_i64 \<bar>wrap_i64 (now - timestamp)\<bar>
                            in if ac_timestamp_tolerance_secs cfg < time_diff then ret Deny
                               else let to_sign = au_client_id payload @ ''.'' @ nonce @ ''.'' @ timestamp_str @ ''.'' @ suffix
                                    in case hmac_sha1 L suffix to_sign of
                                         None \<Rightarrow> ret Deny
                                       | Some mac \<Rightarrow>
                                           if \<not> constant_time_eq L (hex_encode L mac) hash then ret Deny
                                           else case au_username payload of
                                                  None \<Rightarrow> ret Deny
                                                | Some product_id \<Rightarrow>
                                                    check_device_admission product_id (au_client_id payload)))
              | _ \<Rightarrow> ret Deny)"

end
