(* ===== verification/Access_Behaviour.thy ===== *)
theory Access_Behaviour
  imports Access
begin

text \<open>
  What the access endpoints guarantee: a device reaches its own topics and no others, it connects only with a
  fresh signature and when it is or becomes registered, and a login ends on a path of the application.
\<close>

section \<open>Topics\<close>

lemma split_on_Cons_iff:
  "split_on c s = a # b # r \<longleftrightarrow> (\<exists>t. s = a @ c # t \<and> c \<notin> set a \<and> split_on c t = b # r)"
proof (induction s arbitrary: a)
  case (Cons x s)
  show ?case
  proof (cases "x = c")
    case True
    then show ?thesis by (cases a) auto
  next
    case False
    obtain y ys where ys: "split_on c s = y # ys" by (cases "split_on c s") auto
    with False show ?thesis using Cons.IH by (cases a) (auto simp: Cons_eq_append_conv)
  qed
qed simp

lemma split_on_join: "c \<notin> set a \<Longrightarrow> split_on c (a @ c # t) = a # split_on c t"
  by (rule split_on_append)

text \<open>The topics of a device, with or without a leading slash.\<close>

definition own_areas :: "(string \<times> string) list" where
  "own_areas = [(''thing'', ''event''), (''thing'', ''service''), (''thing'', ''file''), (''thing'', ''factory-metadata''),
     (''ota'', ''upgrade''), (''ota'', ''version'')]"

definition own_path :: "string \<Rightarrow> string \<Rightarrow> string \<Rightarrow> bool" where
  "own_path product device topic \<longleftrightarrow>
     (\<exists>a b rest. (a, b) \<in> set own_areas \<and> (rest = [] \<or> hd rest = CHR ''/'') \<and>
        topic = product @ ''/'' @ device @ ''/'' @ a @ ''/'' @ b @ rest)"

definition own_topic :: "string \<Rightarrow> string \<Rightarrow> string \<Rightarrow> bool" where
  "own_topic product device topic \<longleftrightarrow>
     own_path product device topic \<or> (\<exists>t. topic = CHR ''/'' # t \<and> own_path product device t)"

lemma own_areas_plain: "(a, b) \<in> set own_areas \<Longrightarrow> CHR ''/'' \<notin> set a \<and> CHR ''/'' \<notin> set b \<and> a \<notin> {''+'', ''#''} \<and> b \<notin> {''+'', ''#''}"
  by (auto simp: own_areas_def)

lemma split_levels:
  "split_on CHR ''/'' s = p # q # a # b # r \<longleftrightarrow>
     (\<exists>rest. s = p @ ''/'' @ q @ ''/'' @ a @ ''/'' @ b @ rest \<and> (rest = [] \<and> r = [] \<or> (\<exists>t. rest = CHR ''/'' # t \<and> r = split_on CHR ''/'' t)) \<and>
        CHR ''/'' \<notin> set p \<and> CHR ''/'' \<notin> set q \<and> CHR ''/'' \<notin> set a \<and> CHR ''/'' \<notin> set b)"
proof -
  have last: "split_on c t = b # r \<longleftrightarrow>
      (\<exists>rest. t = b @ rest \<and> c \<notin> set b \<and> (rest = [] \<and> r = [] \<or> (\<exists>u. rest = c # u \<and> r = split_on c u)))" for c t
  proof (cases r)
    case Nil
    show ?thesis
    proof
      assume one: "split_on c t = b # r"
      then have "c \<notin> set b" using split_on_parts [of b c t] by simp
      moreover have "t = b"
        using one Nil by (induction t arbitrary: b) (auto split: if_splits list.splits)
      ultimately show "\<exists>rest. t = b @ rest \<and> c \<notin> set b \<and> (rest = [] \<and> r = [] \<or> (\<exists>u. rest = c # u \<and> r = split_on c u))"
        using Nil by simp
    qed (auto simp: Nil split_on_fresh dest: sym)
  next
    case (Cons y ys)
    then show ?thesis using split_on_Cons_iff [of c t b y ys] by auto
  qed
  show ?thesis unfolding split_on_Cons_iff last by auto
qed

lemma own_path_split:
  assumes "CHR ''/'' \<notin> set u" "CHR ''/'' \<notin> set c"
  shows "own_path u c s \<longleftrightarrow> (\<exists>a b r. split_on CHR ''/'' s = u # c # a # b # r \<and> (a, b) \<in> set own_areas)"
proof
  assume "own_path u c s"
  then obtain a b rest where s: "(a, b) \<in> set own_areas" "rest = [] \<or> hd rest = CHR ''/''"
    "s = u @ ''/'' @ c @ ''/'' @ a @ ''/'' @ b @ rest" unfolding own_path_def by blast
  have "\<exists>r. split_on CHR ''/'' s = u # c # a # b # r"
  proof (cases rest)
    case Nil
    with s show ?thesis using assms own_areas_plain [OF s(1)] unfolding split_levels by blast
  next
    case (Cons x xs)
    with s show ?thesis using assms own_areas_plain [OF s(1)] unfolding split_levels by auto
  qed
  with s(1) show "\<exists>a b r. split_on CHR ''/'' s = u # c # a # b # r \<and> (a, b) \<in> set own_areas" by blast
next
  assume "\<exists>a b r. split_on CHR ''/'' s = u # c # a # b # r \<and> (a, b) \<in> set own_areas"
  then show "own_path u c s" unfolding split_levels own_path_def by fastforce
qed

lemma acl_allow_iff:
  assumes "CHR ''/'' \<notin> set (ap_client_id pl)" and u: "ap_username pl = Some u" "CHR ''/'' \<notin> set u" "u \<noteq> []"
  shows "acl pl = Allow \<longleftrightarrow> own_topic u (ap_client_id pl) (ap_topic pl)"
proof -
  let ?c = "ap_client_id pl"
  define t where "t = (case strip_prefix (ap_topic pl) ''/'' of Some t \<Rightarrow> t | None \<Rightarrow> ap_topic pl)"
  have "acl pl = Allow \<longleftrightarrow> (\<exists>a b r. split_on CHR ''/'' t = u # ?c # a # b # r \<and> (a, b) \<in> set own_areas)"
    unfolding acl_def t_def [symmetric] Let_def using u(1) by (auto simp: own_areas_def split: list.splits)
  then have "acl pl = Allow \<longleftrightarrow> own_path u ?c t" unfolding own_path_split [OF u(2) assms(1)] .
  also have "\<dots> \<longleftrightarrow> own_topic u ?c (ap_topic pl)"
  proof -
    have plain: "x \<noteq> [] \<and> hd x \<noteq> CHR ''/''" if "own_path u ?c x" for x
      using that u(2,3) by (cases u) (auto simp: own_path_def)
    show ?thesis
    proof (cases "ap_topic pl")
      case Nil
      then show ?thesis using plain by (auto simp: t_def own_topic_def strip_prefix_def starts_with_def)
    next
      case (Cons x xs)
      then show ?thesis using plain [of "x # xs"]
        by (cases "x = CHR ''/''") (auto simp: t_def own_topic_def strip_prefix_def starts_with_def)
    qed
  qed
  finally show ?thesis .
qed

lemma match_parts_literal:
  "match_parts (x # fs) ts \<Longrightarrow> x \<noteq> ''+'' \<Longrightarrow> x \<noteq> ''#'' \<Longrightarrow> \<exists>ts'. ts = x # ts' \<and> match_parts fs ts'"
  by (cases ts) auto

lemma match_own_levels:
  assumes "match_parts (u # c # a # b # r) ts" "(a, b) \<in> set own_areas" "{u, c} \<inter> {''+'', ''#''} = {}"
  shows "\<exists>r'. ts = u # c # a # b # r'"
proof -
  from assms(3) obtain ts1 where 1: "ts = u # ts1" "match_parts (c # a # b # r) ts1"
    using match_parts_literal [OF assms(1)] by blast
  from assms(3) obtain ts2 where 2: "ts1 = c # ts2" "match_parts (a # b # r) ts2"
    using match_parts_literal [OF 1(2)] by blast
  from own_areas_plain [OF assms(2)] obtain ts3 where 3: "ts2 = a # ts3" "match_parts (b # r) ts3"
    using match_parts_literal [OF 2(2)] by blast
  from own_areas_plain [OF assms(2)] obtain ts4 where "ts3 = b # ts4"
    using match_parts_literal [OF 3(2)] by blast
  with 1 2 3 show ?thesis by simp
qed

lemma own_topic_matches:
  assumes "valid_identifier u" "valid_identifier c" "own_topic u c f" "mqtt_topic_matches f t"
  shows "own_topic u c t"
proof (cases "f = t")
  case False
  have plain: "CHR ''/'' \<notin> set u" "CHR ''/'' \<notin> set c" 
    using valid_identifier_plain [OF assms(1), of "CHR ''/''"] valid_identifier_plain [OF assms(2), of "CHR ''/''"] by simp_all
  have wild: "{u, c} \<inter> {''+'', ''#''} = {}"
    using valid_identifier_plain [OF assms(1), of "CHR ''+''"] valid_identifier_plain [OF assms(1), of "CHR ''#''"]
      valid_identifier_plain [OF assms(2), of "CHR ''+''"] valid_identifier_plain [OF assms(2), of "CHR ''#''"] by auto
  have levels: "own_path u c s'" if "own_path u c s" "match_parts (split_on CHR ''/'' s) (split_on CHR ''/'' s')" for s s'
    using that match_own_levels wild unfolding own_path_split [OF plain] by metis
  from False assms(4) have parts: "match_parts (split_on CHR ''/'' f) (split_on CHR ''/'' t)"
    by (simp add: mqtt_topic_matches_def)
  from assms(3) consider "own_path u c f" | f' where "f = CHR ''/'' # f'" "own_path u c f'" unfolding own_topic_def by blast
  then show ?thesis
  proof cases
    case 1
    with parts levels show ?thesis unfolding own_topic_def by blast
  next
    case 2
    with parts obtain ts where ts: "split_on CHR ''/'' t = [] # ts" "match_parts (split_on CHR ''/'' f') ts"
      using match_parts_literal [of "[]" "split_on CHR ''/'' f'" "split_on CHR ''/'' t"] by auto
    from 2(2) obtain a b r where "split_on CHR ''/'' f' = u # c # a # b # r" unfolding own_path_split [OF plain] by blast
    with ts(2) wild have "ts \<noteq> []" by (cases ts) auto
    then obtain t' where "t = CHR ''/'' # t'" "split_on CHR ''/'' t' = ts"
      using ts(1) split_on_Cons_iff [of "CHR ''/''" t "[]" "hd ts" "tl ts"] by auto
    with levels 2 ts show ?thesis unfolding own_topic_def by blast
  qed
qed (use assms(3) in simp)

text \<open>
  C3: the ACL confines a device to its own topics. For a device whose product (user name) and client id are
  identifiers, \<open>acl\<close> allows exactly the topics \<open>product/device/thing/{event, service, file, factory-metadata}\<close>
  and \<open>product/device/ota/{upgrade, version}\<close> and what is below them, with or without a leading slash; and every
  topic that an allowed filter, wildcards included, matches is itself one of them. Without a user name nothing
  is allowed.
\<close>

theorem acl_confines_device:
  assumes "valid_identifier u" "valid_identifier (ap_client_id pl)"
  shows "(ap_username pl = Some u \<longrightarrow>
      (acl pl = Allow \<longleftrightarrow> own_topic u (ap_client_id pl) (ap_topic pl)) \<and>
      (\<forall>t. acl pl = Allow \<longrightarrow> mqtt_topic_matches (ap_topic pl) t \<longrightarrow> own_topic u (ap_client_id pl) t)) \<and>
    (ap_username pl = None \<longrightarrow> acl pl = Deny)"
proof (intro conjI impI)
  assume user: "ap_username pl = Some u"
  have plain: "CHR ''/'' \<notin> set u" "CHR ''/'' \<notin> set (ap_client_id pl)" "u \<noteq> []"
    using valid_identifier_plain [OF assms(1), of "CHR ''/''"] valid_identifier_plain [OF assms(2), of "CHR ''/''"] assms(1)
    by (simp_all add: valid_identifier_def)
  show allow: "acl pl = Allow \<longleftrightarrow> own_topic u (ap_client_id pl) (ap_topic pl)"
    by (rule acl_allow_iff [OF plain(2) user plain(1,3)])
  show "\<forall>t. acl pl = Allow \<longrightarrow> mqtt_topic_matches (ap_topic pl) t \<longrightarrow> own_topic u (ap_client_id pl) t"
    unfolding allow using own_topic_matches [OF assms] by blast
next
  assume "ap_username pl = None"
  then show "acl pl = Deny" by (simp add: acl_def Let_def split: list.split)
qed

definition sample_acl :: "string \<Rightarrow> string \<Rightarrow> acl_payload" where
  "sample_acl client topic = \<lparr>ap_access = AccessSubscribe, ap_username = Some ''p'', ap_client_id = client, ap_ip = ''10.0.0.7'',
     ap_topic = topic\<rparr>"

lemma sample_valid: "valid_identifier ''p''" "valid_identifier ''d''"
  by (simp_all add: valid_identifier_def identifier_char_def is_ascii_alphanumeric_def)

theorem acl_confines_device_witness:
  "acl (sample_acl ''d'' ''p/d/thing/service/#'') = Allow \<and> own_topic ''p'' ''d'' ''p/d/thing/service/reboot/set''"
proof -
  have "acl (sample_acl ''d'' ''p/d/thing/service/#'') = Allow" by code_simp
  moreover have "mqtt_topic_matches ''p/d/thing/service/#'' ''p/d/thing/service/reboot/set''" by code_simp
  ultimately show ?thesis
    using acl_confines_device [of "''p''" "sample_acl ''d'' ''p/d/thing/service/#''"] sample_valid
    by (simp add: sample_acl_def)
qed

text \<open>
  The condition on the client id is needed: \<open>auth\<close> does not check that a client id is an identifier, and the
  ACL of a client called \<open>+\<close> lets it listen to the commands of every device of the product.
\<close>

lemma acl_wildcard_client:
  "acl (sample_acl ''+'' ''p/+/thing/service/#'') = Allow \<and>
   mqtt_topic_matches ''p/+/thing/service/#'' ''p/d/thing/service/reboot/set''"
  by code_simp

section \<open>Connecting\<close>

lemma wrap_i64_shift: "wrap_i64 (x + 2 ^ 64) = wrap_i64 x"
  unfolding wrap_i64_def by (rule arg_cong [where f = sint]) (simp add: of_int_add)

text \<open>The time window the code checks, for a clock between 1970 and the middle of the range of \<open>i64\<close>.\<close>

lemma time_window:
  assumes "0 \<le> now" "now < 2 ^ 62" "i64_min \<le> t" "t \<le> i64_max" "0 \<le> tol" "tol < 2 ^ 62"
  shows "wrap_i64 \<bar>wrap_i64 (now - t)\<bar> \<le> tol \<longleftrightarrow> \<bar>now - t\<bar> \<le> tol \<or> t = now - 2 ^ 63"
proof (cases "now - t \<le> i64_max")
  case True
  with assms have in_range: "i64_min \<le> now - t" "\<bar>now - t\<bar> \<le> i64_max" by (simp_all add: i64_min_def i64_max_def)
  then have "wrap_i64 \<bar>wrap_i64 (now - t)\<bar> = \<bar>now - t\<bar>"
    using True by (simp add: wrap_i64_id i64_min_def)
  with True show ?thesis by (auto simp: i64_max_def)
next
  case False
  let ?d = "now - t - 2 ^ 64"
  have d: "i64_min \<le> ?d" "?d \<le> i64_max" "?d < 0" using False assms by (simp_all add: i64_min_def i64_max_def)
  then have w: "wrap_i64 (now - t) = ?d" using wrap_i64_shift [of ?d] wrap_i64_id [of ?d] by simp
  show ?thesis
  proof (cases "t = now - 2 ^ 63")
    case True
    have "wrap_i64 (2 ^ 63) = - (2 ^ 63)" using wrap_i64_shift [of "- (2 ^ 63)"] wrap_i64_id [of "- (2 ^ 63)"]
      by (simp add: i64_min_def i64_max_def)
    with True w assms(5) show ?thesis by simp
  next
    case False
    then have "\<bar>?d\<bar> \<le> i64_max" using d by (simp add: i64_min_def i64_max_def)
    then have "wrap_i64 \<bar>?d\<bar> = 2 ^ 64 - (now - t)" using d by (simp add: wrap_i64_id i64_min_def)
    moreover have "now - t > i64_max" using \<open>\<not> now - t \<le> i64_max\<close> by simp
    ultimately show ?thesis using assms False unfolding w by (auto simp: i64_min_def i64_max_def)
  qed
qed

text \<open>
  What a password must be, word for word: nonce, timestamp and the hexadecimal HMAC of
  \<open>client.nonce.timestamp.suffix\<close>; and the timestamp must lie in the window. The difference of the two times
  wraps, which lets one timestamp far outside of the window pass: the one \<open>2^63\<close> seconds before now.
\<close>

definition signed_at :: "auth_libs \<Rightarrow> auth_config \<Rightarrow> string \<Rightarrow> string \<Rightarrow> int \<Rightarrow> bool" where
  "signed_at L cfg client password t \<longleftrightarrow>
     (\<exists>nonce ts mac. password = nonce @ ''.'' @ ts @ ''.'' @ hex_encode L mac \<and> length nonce = 6 \<and>
        CHR ''.'' \<notin> set nonce \<and> CHR ''.'' \<notin> set ts \<and> CHR ''.'' \<notin> set (hex_encode L mac) \<and> parse_i64 ts = Some t \<and>
        hmac_sha1 L (ac_suffix cfg) (client @ ''.'' @ nonce @ ''.'' @ ts @ ''.'' @ ac_suffix cfg) = Some mac)"

definition in_time_window :: "auth_config \<Rightarrow> int \<Rightarrow> int \<Rightarrow> bool" where
  "in_time_window cfg now t \<longleftrightarrow> \<bar>now - t\<bar> \<le> ac_timestamp_tolerance_secs cfg \<or> t = now - 2 ^ 63"

definition admissible :: "auth_libs \<Rightarrow> auth_config \<Rightarrow> auth_payload \<Rightarrow> int \<Rightarrow> string \<Rightarrow> bool" where
  "admissible L cfg pl now p \<longleftrightarrow>
     au_username pl = Some p \<and> length (au_client_id pl) \<le> 64 \<and> length (au_password pl) \<le> 256 \<and>
     (\<exists>t. signed_at L cfg (au_client_id pl) (au_password pl) t \<and> in_time_window cfg now t)"

definition registered :: "string \<Rightarrow> string \<Rightarrow> database \<Rightarrow> bool" where
  "registered p c d \<longleftrightarrow> (\<exists>r\<in>set (devices d). dv_product_id r = p \<and> dv_device_id r = c)"

definition auto_provisioned :: "string \<Rightarrow> database \<Rightarrow> bool" where
  "auto_provisioned p d \<longleftrightarrow> map_option pt_auto_provisioning (find (\<lambda>r. pt_model_no r = p) (products d)) = Some True"

lemma parse_i64_range: "parse_i64 s = Some t \<Longrightarrow> i64_min \<le> t \<and> t \<le> i64_max"
  by (auto simp: parse_i64_def Let_def split: option.splits if_splits)

lemma split_three:
  "split_on c s = [x, y, z] \<longleftrightarrow> s = x @ c # y @ c # z \<and> c \<notin> set x \<and> c \<notin> set y \<and> c \<notin> set z"
proof
  assume three: "split_on c s = [x, y, z]"
  then obtain t where t: "s = x @ c # t" "c \<notin> set x" "split_on c t = [y, z]" using split_on_Cons_iff [of c s x y "[z]"] by blast
  then obtain r where r: "t = y @ c # r" "c \<notin> set y" "split_on c r = [z]" using split_on_Cons_iff [of c t y z "[]"] by blast
  have "r = z" using r(3) by (induction r arbitrary: z) (auto split: if_splits list.splits)
  moreover have "c \<notin> set z" using split_on_parts [of z c r] r(3) by simp
  ultimately show "s = x @ c # y @ c # z \<and> c \<notin> set x \<and> c \<notin> set y \<and> c \<notin> set z" using t r by simp
qed (auto simp: split_on_append split_on_fresh)

lemma signed_at_split:
  "signed_at L cfg client pw t \<longleftrightarrow>
     (\<exists>nonce ts mac. split_on CHR ''.'' pw = [nonce, ts, hex_encode L mac] \<and> length nonce = 6 \<and> parse_i64 ts = Some t \<and>
        hmac_sha1 L (ac_suffix cfg) (client @ ''.'' @ nonce @ ''.'' @ ts @ ''.'' @ ac_suffix cfg) = Some mac)"
  unfolding signed_at_def split_three by auto

lemma auth_run:
  fixes m :: "('s, 'e, verdict) io"
  assumes ct: "\<And>a b. constant_time_eq L a b \<longleftrightarrow> a = b"
    and clock: "0 \<le> now" "now < 2 ^ 62" "now = now_at env (tick w) div ns_per_sec"
    and tol: "0 \<le> ac_timestamp_tolerance_secs cfg" "ac_timestamp_tolerance_secs cfg < 2 ^ 62"
    and m: "m = auth L cfg pl"
  shows "(\<exists>p. admissible L cfg pl now p \<and>
        m env w = check_device_admission p (au_client_id pl) env (w\<lparr>tick := Suc (tick w)\<rparr>)) \<or>
     (\<nexists>p. admissible L cfg pl now p) \<and> (\<exists>w1. m env w = (Inr Deny, w1) \<and> db w1 = db w)"
proof (cases "\<exists>nonce ts hash t. split_on CHR ''.'' (au_password pl) = [nonce, ts, hash] \<and> length nonce = 6 \<and> parse_i64 ts = Some t")
  case False
  then have "\<nexists>p. admissible L cfg pl now p" unfolding admissible_def signed_at_split by blast
  moreover have "\<exists>w1. m env w = (Inr Deny, w1) \<and> db w1 = db w"
    using False unfolding m auth_def by (auto simp: ret_def Let_def split: list.splits option.splits)
  ultimately show ?thesis by blast
next
  case True
  then obtain nonce ts hash t where pw: "split_on CHR ''.'' (au_password pl) = [nonce, ts, hash]" "length nonce = 6"
    "parse_i64 ts = Some t" by blast
  define msg where "msg = au_client_id pl @ ''.'' @ nonce @ ''.'' @ ts @ ''.'' @ ac_suffix cfg"
  have signed: "signed_at L cfg (au_client_id pl) (au_password pl) t' \<longleftrightarrow>
      t' = t \<and> (\<exists>mac. hmac_sha1 L (ac_suffix cfg) msg = Some mac \<and> hash = hex_encode L mac)" for t'
    unfolding signed_at_split pw(1) msg_def using pw(2,3) by auto
  have window: "in_time_window cfg now t \<longleftrightarrow> \<not> ac_timestamp_tolerance_secs cfg < wrap_i64 \<bar>wrap_i64 (now - t)\<bar>"
    using time_window [OF clock(1,2) _ _ tol, of t] parse_i64_range [OF pw(3)] by (auto simp: in_time_window_def)
  have "au_password pl \<noteq> []" using pw(1) by auto
  then have run: "m env w =
      (if 64 < length (au_client_id pl) \<or> 256 < length (au_password pl) then (Inr Deny, w)
       else let w1 = w\<lparr>tick := Suc (tick w)\<rparr>
            in if \<not> in_time_window cfg now t then (Inr Deny, w1)
               else case hmac_sha1 L (ac_suffix cfg) msg of
                      None \<Rightarrow> (Inr Deny, w1)
                    | Some mac \<Rightarrow> if hex_encode L mac \<noteq> hash then (Inr Deny, w1)
                        else case au_username pl of None \<Rightarrow> (Inr Deny, w1)
                             | Some p \<Rightarrow> check_device_admission p (au_client_id pl) env w1)"
    unfolding m auth_def pw(1) window msg_def using pw(2,3) clock(3) [symmetric]
    by (simp add: ret_def Let_def bindE_def now_utc_def ct split: option.split)
  show ?thesis unfolding run admissible_def signed using pw(2)
    by (auto simp: Let_def split: option.split)
qed

lemma admission_run:
  fixes p c :: string
  assumes "(check_device_admission p c :: ('s, 'e, verdict) io) env w = (res, w')"
  shows "(res = Inr Allow \<longrightarrow> registered p c (db w') \<and> (registered p c (db w) \<or> auto_provisioned p (db w))) \<and>
    (reliable env \<longrightarrow> registered p c (db w) \<or> auto_provisioned p (db w) \<longrightarrow> res = Inr Allow) \<and>
    (devices (db w') = devices (db w) \<or>
     auto_provisioned p (db w) \<and> \<not> registered p c (db w) \<and>
       (\<exists>r. devices (db w') = devices (db w) @ [r] \<and> dv_product_id r = p \<and> dv_device_id r = c \<and> dv_registration_source r = Auto))"
proof -
  have ex: "list_ex (\<lambda>r. dv_product_id r = p \<and> dv_device_id r = c) (devices d) \<longleftrightarrow> registered p c d" for d
    by (simp add: list_ex_iff registered_def)
  show ?thesis
    using assms unfolding check_device_admission_def admission_check_def device_upsert_def db_query_def
    by (auto simp: matchE_def ret_def db_exec_def ext_call_def Let_def device_upsert_sql_def ex auto_provisioned_def
        reliable_def registered_def split: outcome.splits option.splits bool.splits if_splits)
qed

text \<open>
  C4: \<open>auth\<close> admits exactly the devices it should. Whatever the database does, a device that is admitted presented
  a password of the required form, signed with the configured suffix, with a timestamp in the window, and is
  registered afterwards, because it was before or because its product provisions devices by itself; when the
  database answers, every such device is admitted; and the registry changes at most by this one device, added with
  source \<open>Auto\<close> for a product that provisions devices by itself.
\<close>

theorem auth_admits_exactly:
  fixes m :: "('s, 'e, verdict) io"
  assumes "m = auth L cfg pl" and "\<And>a b. constant_time_eq L a b \<longleftrightarrow> a = b"
    and "0 \<le> now" "now < 2 ^ 62" "now = now_at env (tick w) div ns_per_sec"
    and "0 \<le> ac_timestamp_tolerance_secs cfg" "ac_timestamp_tolerance_secs cfg < 2 ^ 62"
    and "m env w = (res, w')"
  shows "(res = Inr Allow \<longrightarrow> (\<exists>p. admissible L cfg pl now p \<and> registered p (au_client_id pl) (db w') \<and>
        (registered p (au_client_id pl) (db w) \<or> auto_provisioned p (db w)))) \<and>
    (reliable env \<longrightarrow> (\<exists>p. admissible L cfg pl now p \<and>
        (registered p (au_client_id pl) (db w) \<or> auto_provisioned p (db w))) \<longrightarrow> res = Inr Allow) \<and>
    (devices (db w') = devices (db w) \<or>
     (\<exists>p r. admissible L cfg pl now p \<and> auto_provisioned p (db w) \<and> devices (db w') = devices (db w) @ [r] \<and>
        dv_product_id r = p \<and> dv_device_id r = au_client_id pl \<and> dv_registration_source r = Auto))"
proof -
  have user: "admissible L cfg pl now p \<Longrightarrow> admissible L cfg pl now q \<Longrightarrow> p = q" for p q
    by (auto simp: admissible_def)
  from auth_run [OF assms(2,3,4,5,6,7,1)] consider
    (go) p where "admissible L cfg pl now p"
      "(check_device_admission p (au_client_id pl) :: ('s, 'e, verdict) io) env (w\<lparr>tick := Suc (tick w)\<rparr>) = (res, w')"
  | (deny) "\<nexists>p. admissible L cfg pl now p" "res = Inr Deny" "db w' = db w"
    using assms(8) by auto
  then show ?thesis
  proof cases
    case go
    with admission_run [OF go(2)] user show ?thesis by simp blast
  next
    case deny
    then show ?thesis by auto
  qed
qed

definition sample_auth_libs :: auth_libs where
  "sample_auth_libs = \<lparr>url_parse = (\<lambda>s. None), url_with_query = (\<lambda>u q. Some u), random_string = (\<lambda>n. replicate n CHR ''r''),
     sha256_digest = (\<lambda>s. s), b64url_encode = (\<lambda>s. s), b64url_decode = Some,
     cookie_to_json = (\<lambda>c. Some (oc_return_to c)),
     cookie_from_json = (\<lambda>s. Some \<lparr>oc_state = replicate 32 CHR ''r'', oc_code_verifier = replicate 64 CHR ''r'', oc_return_to = s,
       oc_redirect_uri = ''http://h/api/auth/oauth/callback''\<rparr>),
     header_value_ok = (\<lambda>s. True),
     post_for_tokens = (\<lambda>u b. Tokens \<lparr>tr_access_token = ''a'', tr_refresh_token = ''r'', tr_expires_in = 900, tr_refresh_expires_in = 2592000\<rparr>),
     hmac_sha1 = (\<lambda>k s. Some ''mac''), hex_encode = (\<lambda>s. s), constant_time_eq = (=)\<rparr>"

theorem auth_admits_exactly_witness:
  "fst ((auth sample_auth_libs \<lparr>ac_suffix = ''s'', ac_timestamp_tolerance_secs = 300\<rparr>
       \<lparr>au_client_id = ''d'', au_username = Some ''p'', au_password = ''abcdef.10.mac''\<rparr> :: (unit, unit, verdict) io)
     all_done (empty_world\<lparr>db := snd (device_upsert_sql ''p'' ''d'' Manual 1 empty_db)\<rparr>)) = Inr Allow"
proof -
  let ?cfg = "\<lparr>ac_suffix = ''s'', ac_timestamp_tolerance_secs = 300\<rparr>"
  let ?pl = "\<lparr>au_client_id = ''d'', au_username = Some ''p'', au_password = ''abcdef.10.mac''\<rparr>"
  let ?w = "empty_world\<lparr>db := snd (device_upsert_sql ''p'' ''d'' Manual 1 empty_db)\<rparr>"
  obtain res w' where run: "(auth sample_auth_libs ?cfg ?pl :: (unit, unit, verdict) io) all_done ?w = (res, w')" by fastforce
  have "signed_at sample_auth_libs ?cfg ''d'' ''abcdef.10.mac'' 10"
    unfolding signed_at_def
    by (rule exI [of _ "''abcdef''"], rule exI [of _ "''10''"], rule exI [of _ "''mac''"])
      (simp add: sample_auth_libs_def, code_simp)
  then have "admissible sample_auth_libs ?cfg ?pl 0 ''p''" by (auto simp: admissible_def in_time_window_def)
  moreover have "registered ''p'' ''d'' (db ?w)" by (simp add: registered_def device_upsert_sql_def empty_db_def Let_def)
  ultimately have "res = Inr Allow"
    using auth_admits_exactly [OF refl _ _ _ _ _ _ run, of 0] reliable_all_done
    by (auto simp: sample_auth_libs_def all_done_def)
  with run show ?thesis by simp
qed

section \<open>Logging in\<close>

definition graphic :: "char \<Rightarrow> bool" where
  "graphic c \<longleftrightarrow> (33 :: nat) \<le> of_char c \<and> of_char c \<le> (126 :: nat)"

lemma trim_seqs_graphic:
  assumes "list_all (\<lambda>p. \<not> graphic (hd p)) ps" "list_all graphic s"
  shows "trim_seqs ps s = s"
proof -
  have "find (\<lambda>p. p \<noteq> [] \<and> starts_with s p) ps = None"
    unfolding find_None_iff
  proof (intro notI, elim exE conjE)
    fix p assume p: "p \<in> set ps" "p \<noteq> []" "starts_with s p"
    from p(3) obtain r where "s = p @ r" unfolding starts_with_iff by blast
    with p(2) have "hd p \<in> set s" by simp
    with assms p(1) show False by (auto simp: list_all_iff)
  qed
  then show ?thesis by (subst trim_seqs.simps) simp
qed

lemma str_trim_graphic:
  assumes "list_all graphic s"
  shows "str_trim s = s"
proof -
  have "list_all (\<lambda>p. \<not> graphic (hd p)) white_space" by (simp add: white_space_def utf8_def graphic_def)
  moreover have "list_all (\<lambda>p. \<not> graphic (hd p)) (map rev white_space)" by (simp add: white_space_def utf8_def graphic_def)
  ultimately show ?thesis using assms by (simp add: str_trim_def trim_seqs_graphic list_all_rev)
qed

definition cookie_char :: "char \<Rightarrow> bool" where
  "cookie_char c \<longleftrightarrow> is_ascii_alphanumeric c \<or> c = CHR ''-'' \<or> c = CHR ''_''"

lemma cookie_char_graphic: "cookie_char c \<Longrightarrow> graphic c \<and> c \<noteq> CHR '';'' \<and> c \<noteq> CHR ''=''"
  by (auto simp: cookie_char_def is_ascii_alphanumeric_def graphic_def Let_def)

text \<open>The header in which a browser sends its cookies: \<open>name=value\<close> pairs, joined by a semicolon and a space.\<close>

fun cookie_header :: "(string \<times> string) list \<Rightarrow> string" where
  "cookie_header [] = []"
| "cookie_header [(n, v)] = n @ ''='' @ v"
| "cookie_header ((n, v) # c # cs) = n @ ''='' @ v @ ''; '' @ cookie_header (c # cs)"

definition plain_cookie :: "string \<times> string \<Rightarrow> bool" where
  "plain_cookie = (\<lambda>(n, v). list_all (\<lambda>c. graphic c \<and> c \<noteq> CHR '';'' \<and> c \<noteq> CHR ''='') n \<and>
     list_all (\<lambda>c. graphic c \<and> c \<noteq> CHR '';'') v)"

lemma str_trim_space:
  assumes "list_all graphic s"
  shows "str_trim (CHR '' '' # s) = s"
proof -
  have only: "list_all (\<lambda>p. p \<noteq> [] \<and> hd p = CHR '' '' \<longrightarrow> p = '' '') white_space" "'' '' \<in> set white_space" by code_simp+
  have space: "find (\<lambda>p. p \<noteq> [] \<and> starts_with (CHR '' '' # s) p) white_space = Some '' ''"
  proof (cases "find (\<lambda>p. p \<noteq> [] \<and> starts_with (CHR '' '' # s) p) white_space")
    case None
    then show ?thesis using only(2) by (auto simp: find_None_iff starts_with_def)
  next
    case (Some p)
    then have p: "p \<in> set white_space" "p \<noteq> []" "starts_with (CHR '' '' # s) p"
      by (auto simp: find_Some_iff)
    moreover have "hd p = CHR '' ''"
      using p(2,3) unfolding starts_with_iff by (metis hd_append2 list.sel(1))
    ultimately show ?thesis using Some only(1) by (auto simp: list_all_iff)
  qed
  have "list_all (\<lambda>p. \<not> graphic (hd p)) white_space" by (simp add: white_space_def utf8_def graphic_def)
  then have "trim_seqs white_space (CHR '' '' # s) = s"
    using trim_seqs_graphic [OF _ assms] by (subst trim_seqs.simps) (simp add: space)
  moreover have "list_all (\<lambda>p. \<not> graphic (hd p)) (map rev white_space)" by (simp add: white_space_def utf8_def graphic_def)
  ultimately show ?thesis using assms by (simp add: str_trim_def trim_seqs_graphic list_all_rev)
qed

lemma cookie_named_pair:
  assumes "plain_cookie (n, v)"
  shows "cookie_named name (n @ ''='' @ v) = (if n = name \<and> v \<noteq> [] then Some v else None)"
    "cookie_named name (CHR '' '' # n @ ''='' @ v) = (if n = name \<and> v \<noteq> [] then Some v else None)"
proof -
  have g: "list_all graphic (n @ ''='' @ v)"
    using assms by (auto simp: plain_cookie_def list_all_iff graphic_def)
  have "CHR ''='' \<notin> set n" using assms by (auto simp: plain_cookie_def list_all_iff)
  then have "split_once CHR ''='' (n @ ''='' @ v) = Some (n, v)" using split_once_append [of _ n v] by simp
  then show "cookie_named name (n @ ''='' @ v) = (if n = name \<and> v \<noteq> [] then Some v else None)"
    "cookie_named name (CHR '' '' # n @ ''='' @ v) = (if n = name \<and> v \<noteq> [] then Some v else None)"
    unfolding cookie_named_def str_trim_graphic [OF g] str_trim_space [OF g] by simp_all
qed

lemmas cookie_named_simps = cookie_named_pair [simplified]

lemma split_cookie_header:
  "list_all plain_cookie ((n, v) # cs) \<Longrightarrow>
   split_on CHR '';'' (cookie_header ((n, v) # cs)) = (n @ ''='' @ v) # map (\<lambda>(n, v). CHR '' '' # n @ ''='' @ v) cs"
proof (induction cs arbitrary: n v)
  case Nil
  then have "CHR '';'' \<notin> set (n @ ''='' @ v)" by (auto simp: plain_cookie_def list_all_iff)
  then show ?case by (simp add: split_on_fresh)
next
  case (Cons c cs)
  obtain n' v' where c: "c = (n', v')" by (cases c)
  have "CHR '';'' \<notin> set (n @ ''='' @ v)" using Cons.prems by (auto simp: plain_cookie_def list_all_iff)
  from split_on_append [OF this, of "CHR '' '' # cookie_header (c # cs)"]
  have "split_on CHR '';'' (cookie_header ((n, v) # c # cs)) =
      (n @ ''='' @ v) # split_on CHR '';'' (CHR '' '' # cookie_header (c # cs))" by simp
  then show ?case using Cons.IH [of n' v'] Cons.prems by (simp add: c)
qed

lemma get_cookie_sent_back:
  assumes "headers ''cookie'' = Some (Some (cookie_header cs))" "list_all plain_cookie cs"
    and "distinct (map fst cs)" "(name, val) \<in> set cs" "val \<noteq> []"
  shows "get_cookie headers name = Some val"
proof -
  have pairs: "find_map (cookie_named name) (map (\<lambda>(n, v). CHR '' '' # n @ ''='' @ v) xs) =
      find_map (\<lambda>(n, v). if n = name \<and> v \<noteq> [] then Some v else None) xs" if "list_all plain_cookie xs" for xs
    using that by (induction xs) (auto simp: cookie_named_simps split: option.split)
  obtain n v cs' where cs: "cs = (n, v) # cs'" using assms(4) by (cases cs) auto
  have "get_cookie headers name = find_map (\<lambda>(n, v). if n = name \<and> v \<noteq> [] then Some v else None) cs"
    using assms(1,2) split_cookie_header [of n v cs'] pairs [of cs']
    by (simp add: get_cookie_def header_str_def cs cookie_named_simps)
  also have "\<dots> = Some val" using assms(3-5)
  proof (induction cs)
    case (Cons c cs)
    show ?case
    proof (cases "c = (name, val)")
      case False
      with Cons have "(name, val) \<in> set cs" "fst c \<noteq> name" by (auto simp: rev_image_eqI)
      with Cons show ?thesis by (cases c) simp
    qed (simp add: assms(5))
  qed simp
  finally show ?thesis .
qed

lemma cookie_char_plain: "list_all cookie_char n \<Longrightarrow> list_all cookie_char v \<Longrightarrow> plain_cookie (n, v)"
  using cookie_char_graphic by (auto simp: plain_cookie_def list_all_iff)

text \<open>The check on a return path: one slash, not two, and no control characters.\<close>

definition single_slash_path :: "string \<Rightarrow> bool" where
  "single_slash_path path \<longleftrightarrow> (\<exists>r. path = CHR ''/'' # r \<and> (r = [] \<or> hd r \<noteq> CHR ''/'')) \<and> \<not> has_control path"

lemma single_slash_iff:
  "single_slash_path path \<longleftrightarrow> starts_with path ''/'' \<and> \<not> starts_with path ''//'' \<and> \<not> has_control path"
  by (cases path; cases "tl path") (auto simp: single_slash_path_def starts_with_def)

lemma resolve_path:
  assumes "resolve_app_origin_and_return_to L headers redirect = Inr (origin, path)"
  shows "single_slash_path path"
    "redirect = Some q \<Longrightarrow> url_parse L q = None \<Longrightarrow> single_slash_path q \<Longrightarrow> path = q"
proof -
  have root: "single_slash_path ''/''" by (simp add: single_slash_iff starts_with_def)
  have "single_slash_path (safe_return_path p)" for p
    using root by (simp add: safe_return_path_def single_slash_iff)
  with assms root show "single_slash_path path"
    by (auto simp: resolve_app_origin_and_return_to_def Let_def split: option.splits sum.splits if_splits)
  show "path = q" if "redirect = Some q" "url_parse L q = None" "single_slash_path q"
    using that assms by (auto simp: resolve_app_origin_and_return_to_def Let_def safe_return_path_def single_slash_iff
      split: option.splits sum.splits)
qed

text \<open>
  C24: a login comes back to the path it started with. Let the cookie encoding be readable and use only
  characters of base64url, and let the browser return the cookie of \<open>oauth_start\<close> among any other cookies of
  different names. Then \<open>oauth_callback\<close> answers 401 to every state but the one \<open>oauth_start\<close> drew. For that
  state it fails only if Herald refuses the code or a value cannot be a header, and otherwise redirects to the
  stored path: the path that was asked for, if the request named a path with a single slash in front and no
  control character. Every stored path has this form, so it is no absolute URL and names no foreign host in
  the form \<open>//host\<close>. (A slash followed by a backslash is not excluded: see \<open>backslash_return_path\<close> below.)
\<close>

theorem login_returns_to_path:
  assumes json: "\<And>c j. cookie_to_json L c = Some j \<Longrightarrow> cookie_from_json L j = Some c"
    and b64: "\<And>s. b64url_decode L (b64url_encode L s) = Some s"
    and safe: "\<And>s. list_all cookie_char (b64url_encode L s)"
    and nonempty: "\<And>c j. cookie_to_json L c = Some j \<Longrightarrow> b64url_encode L j \<noteq> []"
    and start: "oauth_start L (Some h) headers redirect = Inr r"
    and sent: "rs_set_cookies r = [build_cookie ''RMQTT_OAUTH'' v 300]"
    and returned: "headers' ''cookie'' = Some (Some (cookie_header cs))" "(''RMQTT_OAUTH'', v) \<in> set cs"
      "distinct (map fst cs)" "list_all plain_cookie cs"
  shows "\<exists>origin path. resolve_app_origin_and_return_to L headers redirect = Inr (origin, path) \<and> single_slash_path path \<and>
    (\<forall>q. redirect = Some q \<and> url_parse L q = None \<and> single_slash_path q \<longrightarrow> path = q) \<and>
    (\<forall>code st. st \<noteq> random_string L 32 \<longrightarrow> oauth_callback L (Some h) headers' code st = Inl unauthorized) \<and>
    (\<forall>code. case exchange_oauth_code L (trim_end_matches CHR ''/'' (hc_base_url h)) (hc_realm_id h) (hc_client_id h) code
              (origin @ ''/api/auth/oauth/callback'') (random_string L 64) of
        Inl e \<Rightarrow> oauth_callback L (Some h) headers' code (random_string L 32) = Inl e
      | Inr token \<Rightarrow>
          if \<forall>x\<in>{path, build_cookie ''X-Auth'' (tr_access_token token) (tr_expires_in token),
                build_cookie ''X-Auth-Refresh'' (tr_refresh_token token) (tr_refresh_expires_in token), clear_cookie ''RMQTT_OAUTH''}.
               header_value_ok L x
          then oauth_callback L (Some h) headers' code (random_string L 32) = Inr \<lparr>rs_status = 302, rs_location = Some path,
                 rs_set_cookies = [build_cookie ''X-Auth'' (tr_access_token token) (tr_expires_in token),
                   build_cookie ''X-Auth-Refresh'' (tr_refresh_token token) (tr_refresh_expires_in token), clear_cookie ''RMQTT_OAUTH'']\<rparr>
          else isl (oauth_callback L (Some h) headers' code (random_string L 32)))"
proof -
  from start obtain origin path where res: "resolve_app_origin_and_return_to L headers redirect = Inr (origin, path)"
    by (auto simp: oauth_start_def split: sum.splits)
  define c where "c = \<lparr>oc_state = random_string L 32, oc_code_verifier = random_string L 64, oc_return_to = path,
    oc_redirect_uri = origin @ ''/api/auth/oauth/callback''\<rparr>"
  from start res obtain j where j: "cookie_to_json L c = Some j" and r: "rs_set_cookies r = [build_cookie ''RMQTT_OAUTH'' (b64url_encode L j) 300]"
    by (auto simp: oauth_start_def c_def encode_oauth_cookie_def Let_def split: sum.splits option.splits)
  have v: "v = b64url_encode L j" using r sent by (simp add: build_cookie_def)
  have got: "get_cookie headers' ''RMQTT_OAUTH'' = Some v"
    by (rule get_cookie_sent_back [where headers = headers', OF returned(1,4,3,2)]) (simp add: v nonempty [OF j])
  have read: "decode_oauth_cookie L v = Inr c" by (simp add: decode_oauth_cookie_def v b64 json [OF j])
  show ?thesis
  proof (rule exI [of _ origin], rule exI [of _ path], intro conjI allI)
    show "redirect = Some q \<and> url_parse L q = None \<and> single_slash_path q \<longrightarrow> path = q" for q
      using resolve_path(2) [OF res] by blast
  qed (auto simp: res resolve_path(1) [OF res] oauth_callback_def got read c_def split: sum.split)
qed

text \<open>A cookie encoding with the assumed properties: every byte as two letters, fields separated by a dot.\<close>

fun letters :: "string \<Rightarrow> string" where
  "letters [] = []"
| "letters (c # s) = char_of (65 + of_char c div (16 :: nat)) # char_of (65 + of_char c mod (16 :: nat)) # letters s"

fun unletters :: "string \<Rightarrow> string" where
  "unletters (x # y # s) = char_of ((of_char x - 65) * 16 + (of_char y - (65 :: nat))) # unletters s"
| "unletters _ = []"

lemma unletters_letters: "unletters (letters s) = s"
proof (induction s)
  case (Cons c s)
  have n: "of_char c < (256 :: nat)" using nat_of_char_less_256 by simp
  then have "of_char c div (16 :: nat) < 16" by linarith
  then have "(of_char (char_of (65 + of_char c div (16 :: nat)) :: char) :: nat) - 65 = of_char c div 16"
    "(of_char (char_of (65 + of_char c mod (16 :: nat)) :: char) :: nat) - 65 = of_char c mod 16" by simp_all
  with Cons.IH show ?case by (simp add: div_mult_mod_eq)
qed simp

lemma letters_cookie: "list_all cookie_char (letters s)"
proof (induction s)
  case (Cons c s)
  have upper: "cookie_char (char_of (65 + k))" if "k < (16 :: nat)" for k
    using that by (simp add: cookie_char_def is_ascii_alphanumeric_def)
  have "of_char c < (256 :: nat)" using nat_of_char_less_256 by simp
  then have "of_char c div (16 :: nat) < 16" by linarith
  with Cons.IH upper show ?case by simp
qed simp

definition show_cookie :: "oauth_cookie \<Rightarrow> string" where
  "show_cookie c = letters (oc_state c) @ ''.'' @ letters (oc_code_verifier c) @ ''.'' @ letters (oc_return_to c) @ ''.'' @
     letters (oc_redirect_uri c)"

definition read_cookie :: "string \<Rightarrow> oauth_cookie option" where
  "read_cookie s =
     (case split_on CHR ''.'' s of
        [a, b, c, d] \<Rightarrow> Some \<lparr>oc_state = unletters a, oc_code_verifier = unletters b, oc_return_to = unletters c,
                             oc_redirect_uri = unletters d\<rparr>
      | _ \<Rightarrow> None)"

lemma read_show_cookie: "read_cookie (show_cookie c) = Some c"
proof -
  have "\<not> cookie_char CHR ''.''" by code_simp
  then have "CHR ''.'' \<notin> set (letters s)" for s using letters_cookie [of s] by (auto simp: list_all_iff)
  then show ?thesis by (simp add: read_cookie_def show_cookie_def split_on_append split_on_fresh unletters_letters)
qed

definition letter_libs :: auth_libs where
  "letter_libs = sample_auth_libs\<lparr>b64url_encode := letters, b64url_decode := (\<lambda>s. Some (unletters s)),
     cookie_to_json := (\<lambda>c. Some (show_cookie c)), cookie_from_json := read_cookie\<rparr>"

theorem login_returns_to_path_witness:
  "\<exists>v r'. oauth_callback letter_libs (Some \<lparr>hc_base_url = ''http://herald/'', hc_realm_id = ''r'', hc_client_id = ''c''\<rparr>)
      (\<lambda>n. if n = ''cookie'' then Some (Some (''theme=dark; RMQTT_OAUTH='' @ v)) else None) ''code'' (replicate 32 CHR ''r'') = Inr r' \<and>
    rs_location r' = Some ''/alarms''"
proof -
  let ?h = "\<lparr>hc_base_url = ''http://herald/'', hc_realm_id = ''r'', hc_client_id = ''c''\<rparr>"
  let ?hs = "\<lambda>n. if n = ''host'' then Some (Some ''h'') else None"
  let ?c = "\<lparr>oc_state = replicate 32 CHR ''r'', oc_code_verifier = replicate 64 CHR ''r'', oc_return_to = ''/alarms'',
    oc_redirect_uri = ''http://h/api/auth/oauth/callback''\<rparr>"
  define v where "v = letters (show_cookie ?c)"
  let ?hs' = "\<lambda>n. if n = ''cookie'' then Some (Some (''theme=dark; RMQTT_OAUTH='' @ v)) else None"
  let ?cs = "[(''theme'', ''dark''), (''RMQTT_OAUTH'', v)]"
  have lib: "cookie_to_json letter_libs = (\<lambda>c. Some (show_cookie c))" "cookie_from_json letter_libs = read_cookie"
    "b64url_encode letter_libs = letters" "b64url_decode letter_libs = (\<lambda>s. Some (unletters s))"
    "random_string letter_libs = (\<lambda>n. replicate n CHR ''r'')" "url_parse letter_libs = (\<lambda>s. None)"
    "url_with_query letter_libs = (\<lambda>u q. Some u)" "header_value_ok letter_libs = (\<lambda>s. True)"
    "post_for_tokens letter_libs = post_for_tokens sample_auth_libs"
    by (simp_all add: letter_libs_def sample_auth_libs_def)
  have path: "resolve_app_origin_and_return_to letter_libs ?hs (Some ''/alarms'') = Inr (''http://h'', ''/alarms'')"
    by (simp add: resolve_app_origin_and_return_to_def lib starts_with_def request_origin_def header_str_def safe_return_path_def)
  obtain r where start: "oauth_start letter_libs (Some ?h) ?hs (Some ''/alarms'') = Inr r"
    and set: "rs_set_cookies r = [build_cookie ''RMQTT_OAUTH'' v 300]"
    by (simp add: oauth_start_def path build_authorize_url_def encode_oauth_cookie_def lib v_def)
  have "show_cookie c \<noteq> []" for c by (simp add: show_cookie_def)
  then have ne: "letters (show_cookie c) \<noteq> []" for c by (cases "show_cookie c") auto
  have plain: "list_all plain_cookie ?cs"
  proof -
    have "list_all cookie_char v" by (simp add: v_def letters_cookie)
    moreover have "list_all cookie_char ''theme''" "list_all cookie_char ''dark''" "list_all cookie_char ''RMQTT_OAUTH''"
      by code_simp+
    ultimately show ?thesis using cookie_char_plain by simp
  qed
  have sent: "?hs' ''cookie'' = Some (Some (cookie_header ?cs))" by simp
  let ?t = "\<lparr>tr_access_token = ''a'', tr_refresh_token = ''r'', tr_expires_in = 900, tr_refresh_expires_in = 2592000\<rparr>"
  have token: "exchange_oauth_code letter_libs b rl cl code uri ver = Inr ?t" for b rl cl code uri ver
    by (simp add: exchange_oauth_code_def token_result_def lib sample_auth_libs_def)
  have "\<exists>path. path = ''/alarms'' \<and> oauth_callback letter_libs (Some ?h) ?hs' ''code'' (replicate 32 CHR ''r'') =
      Inr \<lparr>rs_status = 302, rs_location = Some path, rs_set_cookies = [build_cookie ''X-Auth'' ''a'' 900,
        build_cookie ''X-Auth-Refresh'' ''r'' 2592000, clear_cookie ''RMQTT_OAUTH'']\<rparr>"
    using login_returns_to_path [where headers' = ?hs', OF _ _ _ _ start set sent _ _ plain] path token
    by (auto simp: lib read_show_cookie unletters_letters letters_cookie ne)
  then show ?thesis by (intro exI [of _ v]) auto
qed

text \<open>A backslash after the slash passes, although browsers read \<open>/\\<close> at the start of a location as \<open>//\<close>.\<close>

lemma backslash_return_path:
  "safe_return_path (CHR ''/'' # CHR 0x5C # ''evil.example'') = CHR ''/'' # CHR 0x5C # ''evil.example''"
  by (simp add: safe_return_path_def starts_with_def)

end
