(* ===== verification/Factory.thy ===== *)
theory Factory
  imports Admin_Api
begin

text \<open>
  Factory metadata: \<open>backend/src/db/factory_metadata.rs\<close> and \<open>backend/src/api/factory_handlers.rs\<close>. The
  production line reports the metadata of components and devices and which components a device is built
  from; the console and the device read them back. A transaction is one step on the database: the advisory
  lock on the serial number serialises the writers of one number. \<open>time_json\<close> stands for the JSON form that
  \<open>serde\<close> gives a time stamp in the snapshots.
\<close>

section \<open>Snapshots and the change log\<close>

datatype upsert_outcome = Created | Overwritten "json option"

definition component_snapshot :: "(instant \<Rightarrow> json) \<Rightarrow> factory_component_metadata \<Rightarrow> json" where
  "component_snapshot time_json r =
     json_obj [(''component_type'', JString (fc_component_type r)), (''metadata'', fc_metadata r),
       (''file_attachments'', fc_file_attachments r), (''updated_at'', time_json (fc_updated_at r))]"

definition device_snapshot :: "(instant \<Rightarrow> json) \<Rightarrow> factory_device_metadata \<Rightarrow> json" where
  "device_snapshot time_json r =
     json_obj [(''metadata'', fd_metadata r), (''file_attachments'', fd_file_attachments r),
       (''updated_at'', time_json (fd_updated_at r))]"

definition append_change_log :: "string \<Rightarrow> json \<Rightarrow> json \<Rightarrow> instant \<Rightarrow> database \<Rightarrow> database" where
  "append_change_log sn before after now d =
     (let i = next_change_log_id d
      in d\<lparr>factory_change_logs := factory_change_logs d @
             [\<lparr>fl_id = i, fl_sn = sn, fl_before = Some before, fl_after = after, fl_actor = ''factory'', fl_created_at = now\<rparr>],
           next_change_log_id := i + 1\<rparr>)"

definition upsert_component_sql ::
  "(instant \<Rightarrow> json) \<Rightarrow> string \<Rightarrow> string \<Rightarrow> json \<Rightarrow> json \<Rightarrow> instant \<Rightarrow> database \<Rightarrow> upsert_outcome \<times> database" where
  "upsert_component_sql time_json component_sn component_type metadata file_attachments now d =
     (let before = find (\<lambda>r. fc_component_sn r = component_sn) (factory_components d);
          set = (\<lambda>r. r\<lparr>fc_component_type := component_type, fc_metadata := metadata,
                        fc_file_attachments := file_attachments, fc_updated_at := now\<rparr>);
          fresh = \<lparr>fc_component_sn = component_sn, fc_component_type = component_type, fc_metadata = metadata,
                   fc_file_attachments = file_attachments, fc_updated_at = now, fc_created_at = now\<rparr>
      in case before of
           None \<Rightarrow> (Created, d\<lparr>factory_components := factory_components d @ [fresh]\<rparr>)
         | Some before_row \<Rightarrow>
             let before_json = component_snapshot time_json before_row;
                 after_json = component_snapshot time_json (set before_row);
                 d1 = d\<lparr>factory_components :=
                          update_where (\<lambda>r. fc_component_sn r = component_sn) set (factory_components d)\<rparr>
             in (Overwritten (Some before_json), append_change_log component_sn before_json after_json now d1))"

definition upsert_component ::
  "(instant \<Rightarrow> json) \<Rightarrow> string \<Rightarrow> string \<Rightarrow> json \<Rightarrow> json \<Rightarrow> ('s, io_error, upsert_outcome) io" where
  "upsert_component time_json component_sn component_type metadata file_attachments =
     db_exec (upsert_component_sql time_json component_sn component_type metadata file_attachments)"

definition upsert_device_metadata_sql ::
  "(instant \<Rightarrow> json) \<Rightarrow> string \<Rightarrow> json \<Rightarrow> json \<Rightarrow> instant \<Rightarrow> database \<Rightarrow> upsert_outcome \<times> database" where
  "upsert_device_metadata_sql time_json device_sn metadata file_attachments now d =
     (let before = find (\<lambda>r. fd_device_sn r = device_sn) (factory_devices d);
          set = (\<lambda>r. r\<lparr>fd_metadata := metadata, fd_file_attachments := file_attachments, fd_updated_at := now\<rparr>);
          fresh = \<lparr>fd_device_sn = device_sn, fd_metadata = metadata, fd_file_attachments = file_attachments,
                   fd_updated_at = now, fd_created_at = now\<rparr>
      in case before of
           None \<Rightarrow> (Created, d\<lparr>factory_devices := factory_devices d @ [fresh]\<rparr>)
         | Some before_row \<Rightarrow>
             let before_json = device_snapshot time_json before_row;
                 after_json = device_snapshot time_json (set before_row);
                 d1 = d\<lparr>factory_devices :=
                          update_where (\<lambda>r. fd_device_sn r = device_sn) set (factory_devices d)\<rparr>
             in (Overwritten (Some before_json), append_change_log device_sn before_json after_json now d1))"

definition upsert_device_metadata ::
  "(instant \<Rightarrow> json) \<Rightarrow> string \<Rightarrow> json \<Rightarrow> json \<Rightarrow> ('s, io_error, upsert_outcome) io" where
  "upsert_device_metadata time_json device_sn metadata file_attachments =
     db_exec (upsert_device_metadata_sql time_json device_sn metadata file_attachments)"

section \<open>Associations\<close>

record component_association_input =
  ca_component_sn :: string
  ca_component_type :: "string option"

definition association_for :: "string \<Rightarrow> string \<Rightarrow> factory_component_association \<Rightarrow> bool" where
  "association_for device_sn component_sn r \<longleftrightarrow> fa_device_sn r = device_sn \<and> fa_component_sn r = component_sn"

definition upsert_association ::
  "string \<Rightarrow> instant \<Rightarrow> component_association_input \<Rightarrow> factory_component_association list \<Rightarrow>
   factory_component_association list" where
  "upsert_association device_sn now item rows =
     (if list_ex (association_for device_sn (ca_component_sn item)) rows
      then update_where (association_for device_sn (ca_component_sn item))
             (\<lambda>r. r\<lparr>fa_component_type := ca_component_type item, fa_updated_at := now\<rparr>) rows
      else rows @ [\<lparr>fa_device_sn = device_sn, fa_component_sn = ca_component_sn item,
                    fa_component_type = ca_component_type item, fa_updated_at = now\<rparr>])"

definition replace_associations_sql ::
  "string \<Rightarrow> component_association_input list \<Rightarrow> instant \<Rightarrow> database \<Rightarrow> unit \<times> database" where
  "replace_associations_sql device_sn components now d =
     (if components = []
      then ((), d\<lparr>factory_associations := filter (\<lambda>r. fa_device_sn r \<noteq> device_sn) (factory_associations d)\<rparr>)
      else let sns = map ca_component_sn components;
               kept = filter (\<lambda>r. \<not> (fa_device_sn r = device_sn \<and> fa_component_sn r \<notin> set sns)) (factory_associations d)
           in ((), d\<lparr>factory_associations := foldl (\<lambda>rows item. upsert_association device_sn now item rows) kept components\<rparr>))"

definition replace_associations :: "string \<Rightarrow> component_association_input list \<Rightarrow> ('s, io_error, unit) io" where
  "replace_associations device_sn components = db_exec (replace_associations_sql device_sn components)"

section \<open>Reading\<close>

record factory_device_view_row =
  vr_component_sn :: string
  vr_assoc_type :: "string option"
  vr_meta_type :: "string option"
  vr_metadata :: "json option"
  vr_file_attachments :: "json option"
  vr_updated_at :: "instant option"

record factory_device_metadata_row =
  dr_metadata :: "json option"
  dr_file_attachments :: "json option"
  dr_updated_at :: "instant option"

text \<open>The left join: \<open>component_sn\<close> is the primary key of the metadata, so there is at most one match.\<close>

definition view_row :: "database \<Rightarrow> factory_component_association \<Rightarrow> factory_device_view_row" where
  "view_row d a =
     (let m = find (\<lambda>r. fc_component_sn r = fa_component_sn a) (factory_components d)
      in \<lparr>vr_component_sn = fa_component_sn a, vr_assoc_type = fa_component_type a,
          vr_meta_type = map_option fc_component_type m, vr_metadata = map_option fc_metadata m,
          vr_file_attachments = map_option fc_file_attachments m, vr_updated_at = map_option fc_updated_at m\<rparr>)"

definition device_view_rows :: "string \<Rightarrow> database \<Rightarrow> factory_device_view_row list" where
  "device_view_rows device_sn d = map (view_row d) (filter (\<lambda>a. fa_device_sn a = device_sn) (factory_associations d))"

definition get_device_view :: "string \<Rightarrow> ('s, io_error, factory_device_view_row list option) io" where
  "get_device_view device_sn =
     bindE (db_query (\<lambda>now d. device_view_rows device_sn d)) (\<lambda>rows.
     if rows \<noteq> [] then ret (Some rows)
     else bindE (db_query (\<lambda>now d. list_ex (\<lambda>r. fd_device_sn r = device_sn) (factory_devices d))) (\<lambda>present.
          ret (if present then Some [] else None)))"

definition get_device_metadata :: "string \<Rightarrow> ('s, io_error, factory_device_metadata_row option) io" where
  "get_device_metadata device_sn =
     db_query (\<lambda>now d. map_option (\<lambda>r. \<lparr>dr_metadata = Some (fd_metadata r), dr_file_attachments = Some (fd_file_attachments r),
       dr_updated_at = Some (fd_updated_at r)\<rparr>) (find (\<lambda>r. fd_device_sn r = device_sn) (factory_devices d)))"

definition change_log_rows :: "string \<Rightarrow> database \<Rightarrow> factory_metadata_change_log list" where
  "change_log_rows sn d = filter (\<lambda>r. fl_sn r = sn) (factory_change_logs d)"

definition query_change_log ::
  "string \<Rightarrow> nat \<Rightarrow> nat \<Rightarrow> ('s, io_error, factory_metadata_change_log list \<times> int) io" where
  "query_change_log sn page page_size =
     bindE (query_page (\<lambda>d. sort_key (\<lambda>r. - fl_created_at r) (change_log_rows sn d)) (int (max page 1)) (int (max page_size 1))) (\<lambda>rows.
     bindE (query_count (change_log_rows sn)) (\<lambda>total. ret (rows, total)))"

section \<open>Production line handlers\<close>

record file_attachment =
  ft_file_key :: string
  ft_file_name :: string
  ft_content_type :: "string option"
  ft_size_bytes :: "int option"

record upsert_component_request =
  uc_component_type :: "string option"
  uc_metadata :: "jmap option"
  uc_file_attachments :: "file_attachment list option"

record upsert_device_metadata_request =
  ud_metadata :: "jmap option"
  ud_file_attachments :: "file_attachment list option"

definition MAX_FILE_KEY_LEN :: nat where "MAX_FILE_KEY_LEN = 1024"

fun check_file_keys :: "file_attachment list \<Rightarrow> api_error + unit" where
  "check_file_keys [] = Inr ()"
| "check_file_keys (item # items) =
     (if str_trim (ft_file_key item) = [] then Inl (bad_request ''Invalid fileAttachments'')
      else if MAX_FILE_KEY_LEN < length (ft_file_key item) then Inl (bad_request ''Invalid fileAttachments'')
      else check_file_keys items)"

definition validate_file_attachments :: "file_attachment list option \<Rightarrow> api_error + unit" where
  "validate_file_attachments items = (case items of None \<Rightarrow> Inr () | Some xs \<Rightarrow> check_file_keys xs)"

definition json_opt_string :: "string option \<Rightarrow> json" where
  "json_opt_string x = (case x of None \<Rightarrow> JNull | Some s \<Rightarrow> JString s)"

definition file_attachment_to_value :: "file_attachment \<Rightarrow> json" where
  "file_attachment_to_value f =
     json_obj [(''fileKey'', JString (ft_file_key f)), (''fileName'', JString (ft_file_name f)),
       (''contentType'', json_opt_string (ft_content_type f)),
       (''sizeBytes'', case ft_size_bytes f of None \<Rightarrow> JNull
          | Some n \<Rightarrow> JNumber (if 0 \<le> n then PosInt (nat n) else NegInt n))]"

definition file_attachments_value :: "file_attachment list option \<Rightarrow> json" where
  "file_attachments_value items =
     (case items of Some xs \<Rightarrow> JArray (map file_attachment_to_value xs) | None \<Rightarrow> JArray [])"

definition factory_file_upload_handler :: "libs \<Rightarrow> app_config \<Rightarrow> file_upload_request \<Rightarrow> ('s, api_error, json) io" where
  "factory_file_upload_handler L cfg req =
     (case app_directories cfg of
        None \<Rightarrow> throw (service_unavailable ''S3 client not configured'')
      | Some directories \<Rightarrow>
          if \<not> is_file_upload_directory_allowed directories [] [] (fu_directory req)
          then throw (bad_request ''Directory not allowed'')
          else presign_upload L req)"

definition upsert_component_handler ::
  "(instant \<Rightarrow> json) \<Rightarrow> string \<Rightarrow> upsert_component_request \<Rightarrow> ('s, api_error, nat) io" where
  "upsert_component_handler time_json component_sn req =
     bindE (lift_res (validate_identifier component_sn ''componentSn'')) (\<lambda>_.
     bindE (lift_res (validate_file_attachments (uc_file_attachments req))) (\<lambda>_.
     let component_type = (case uc_component_type req of Some t \<Rightarrow> t | None \<Rightarrow> ''camera'');
         metadata = JObject (case uc_metadata req of Some m \<Rightarrow> m | None \<Rightarrow> []);
         file_attachments = file_attachments_value (uc_file_attachments req)
     in bindE (map_err map_db_err (upsert_component time_json component_sn component_type metadata file_attachments))
          (\<lambda>_. ret 204)))"

definition upsert_device_metadata_handler ::
  "(instant \<Rightarrow> json) \<Rightarrow> string \<Rightarrow> upsert_device_metadata_request \<Rightarrow> ('s, api_error, nat) io" where
  "upsert_device_metadata_handler time_json device_sn req =
     bindE (lift_res (validate_identifier device_sn ''deviceSn'')) (\<lambda>_.
     bindE (lift_res (validate_file_attachments (ud_file_attachments req))) (\<lambda>_.
     let metadata = JObject (case ud_metadata req of Some m \<Rightarrow> m | None \<Rightarrow> []);
         file_attachments = file_attachments_value (ud_file_attachments req)
     in bindE (map_err map_db_err (upsert_device_metadata time_json device_sn metadata file_attachments)) (\<lambda>_. ret 204)))"

definition replace_associations_handler ::
  "string \<Rightarrow> component_association_input list \<Rightarrow> ('s, api_error, nat) io" where
  "replace_associations_handler device_sn components =
     bindE (lift_res (validate_identifier device_sn ''deviceSn'')) (\<lambda>_.
     bindE (forE components (\<lambda>item. lift_res (validate_identifier (ca_component_sn item) ''componentSn''))) (\<lambda>_.
     bindE (map_err map_db_err (replace_associations device_sn components)) (\<lambda>_. ret 204)))"

section \<open>Views\<close>

record factory_device_metadata_view =
  dm_metadata :: "json option"
  dm_file_attachments :: "json list"
  dm_updated_at :: "instant option"

record factory_component_view =
  cv_component_sn :: string
  cv_component_type :: "string option"
  cv_metadata :: "json option"
  cv_file_attachments :: "json list"
  cv_updated_at :: "instant option"

record factory_device_view =
  fv_device_sn :: string
  fv_device_metadata :: "factory_device_metadata_view option"
  fv_components :: "factory_component_view list"

definition normalise_file_attachments :: "json option \<Rightarrow> json list" where
  "normalise_file_attachments v =
     (case v of None \<Rightarrow> [] | Some (JArray arr) \<Rightarrow> arr | Some JNull \<Rightarrow> [] | Some x \<Rightarrow> [x])"

definition map_row_to_component_view :: "factory_device_view_row \<Rightarrow> factory_component_view" where
  "map_row_to_component_view row =
     \<lparr>cv_component_sn = vr_component_sn row,
      cv_component_type = (case vr_meta_type row of Some t \<Rightarrow> Some t | None \<Rightarrow> vr_assoc_type row),
      cv_metadata = vr_metadata row,
      cv_file_attachments = normalise_file_attachments (vr_file_attachments row),
      cv_updated_at = vr_updated_at row\<rparr>"

definition map_row_to_device_metadata_view :: "factory_device_metadata_row \<Rightarrow> factory_device_metadata_view" where
  "map_row_to_device_metadata_view row =
     \<lparr>dm_metadata = dr_metadata row, dm_file_attachments = normalise_file_attachments (dr_file_attachments row),
      dm_updated_at = dr_updated_at row\<rparr>"

definition get_factory_device_view_handler :: "string \<Rightarrow> ('s, api_error, factory_device_view) io" where
  "get_factory_device_view_handler device_sn =
     bindE (lift_res (validate_identifier device_sn ''deviceSn'')) (\<lambda>_.
     bindE (map_err map_db_err (get_device_view device_sn)) (\<lambda>rows.
     case rows of
       None \<Rightarrow> throw (not_found ''Device has no factory metadata'')
     | Some rows \<Rightarrow>
         let components = map map_row_to_component_view rows
         in bindE (map_err map_db_err (get_device_metadata device_sn)) (\<lambda>row.
            ret \<lparr>fv_device_sn = device_sn, fv_device_metadata = map_option map_row_to_device_metadata_view row,
                 fv_components = components\<rparr>)))"

text \<open>\<open>i64 as u32\<close> keeps the low 32 bits; only the page size is bounded from above before.\<close>

definition as_u32 :: "int \<Rightarrow> nat" where
  "as_u32 x = nat (x mod 2 ^ 32)"

definition query_component_changes_handler ::
  "string \<Rightarrow> int \<Rightarrow> int \<Rightarrow> ('s, api_error, factory_metadata_change_log list \<times> pagination_info) io" where
  "query_component_changes_handler sn q_page q_page_size =
     bindE (lift_res (validate_identifier sn ''sn'')) (\<lambda>_.
     let page = as_u32 (max q_page 1);
         page_size = as_u32 (min (max q_page_size 1) 1000)
     in bindE (map_err map_db_err (query_change_log sn page page_size)) (\<lambda>(rows, total).
        ret (rows, \<lparr>pg_page = int page, pg_page_size = int page_size, pg_total = total\<rparr>)))"

section \<open>The device's own view\<close>

text \<open>\<open>serde_json::to_value\<close> of the view: \<open>None\<close> when a time has no RFC 3339 form.\<close>

definition time_value :: "libs \<Rightarrow> instant option \<Rightarrow> json option" where
  "time_value L t = (case t of None \<Rightarrow> Some JNull | Some i \<Rightarrow> map_option JString (rfc3339 L i))"

definition json_or_null :: "json option \<Rightarrow> json" where
  "json_or_null v = (case v of None \<Rightarrow> JNull | Some x \<Rightarrow> x)"

definition component_view_value :: "libs \<Rightarrow> factory_component_view \<Rightarrow> json option" where
  "component_view_value L v =
     map_option (\<lambda>t. json_obj [(''componentSn'', JString (cv_component_sn v)),
       (''componentType'', json_opt_string (cv_component_type v)), (''metadata'', json_or_null (cv_metadata v)),
       (''fileAttachments'', JArray (cv_file_attachments v)), (''updatedAt'', t)]) (time_value L (cv_updated_at v))"

definition device_metadata_value :: "libs \<Rightarrow> factory_device_metadata_view option \<Rightarrow> json option" where
  "device_metadata_value L v =
     (case v of
        None \<Rightarrow> Some JNull
      | Some m \<Rightarrow> map_option (\<lambda>t. json_obj [(''metadata'', json_or_null (dm_metadata m)),
          (''fileAttachments'', JArray (dm_file_attachments m)), (''updatedAt'', t)]) (time_value L (dm_updated_at m)))"

definition device_view_value :: "libs \<Rightarrow> factory_device_view \<Rightarrow> json option" where
  "device_view_value L v =
     Option.bind (device_metadata_value L (fv_device_metadata v)) (\<lambda>m.
     let cs = map (component_view_value L) (fv_components v)
     in if None \<in> set cs then None
        else Some (json_obj [(''deviceSn'', JString (fv_device_sn v)), (''deviceMetadata'', m),
          (''components'', JArray (map the cs))]))"

definition factory_metadata_get_handler ::
  "libs \<Rightarrow> app_config \<Rightarrow> rmqtt_publish_message \<Rightarrow> ('s, api_error, nat) io" where
  "factory_metadata_get_handler L cfg mqtt_msg =
     bindE (ok_or (bad_request ''Invalid payload format'') (decode_payload_as_json L mqtt_msg)) (\<lambda>payload.
     bindE (lift_res (extract_and_validate_product_id (pm_topic mqtt_msg))) (\<lambda>_.
     let device_id = pm_client_id mqtt_msg
     in bindE (lift_res (validate_identifier device_id ''device_id'')) (\<lambda>_.
        bindE (map_err map_db_err (get_device_view device_id)) (\<lambda>view.
        bindE (map_err map_db_err (get_device_metadata device_id)) (\<lambda>device_metadata_row.
        let device_metadata = map_option map_row_to_device_metadata_view device_metadata_row;
            data = map_option (\<lambda>rows. json_or_null (device_view_value L
                     \<lparr>fv_device_sn = device_id, fv_device_metadata = device_metadata,
                      fv_components = map map_row_to_component_view rows\<rparr>)) view;
            response = \<lparr>mr_id = mp_id payload, mr_code = 200, mr_data = data\<rparr>
        in bindE (ok_or (internal ''Failed to serialise response'') (ser_response L response)) (\<lambda>response_payload.
           bindE (if mp_ack payload = AckYes
                  then ignoreE (publish_response (app_mqtt cfg) (pm_topic mqtt_msg) response_payload)
                  else ret ()) (\<lambda>_. ret 204)))))))"

end
