(* ===== verification/Factory_Behaviour.thy ===== *)
theory Factory_Behaviour
  imports Factory
begin

text \<open>
  What the factory endpoints guarantee: the change log holds exactly the overwrites, with the state before and
  after each; and a device's view joins its latest associations with the latest metadata, in whatever order
  they arrived.
\<close>

section \<open>Histories\<close>

datatype factory_op =
  ReportComponent string string json json instant | ReportDevice string json json instant
| Associate string "component_association_input list" instant

fun run_op :: "(instant \<Rightarrow> json) \<Rightarrow> factory_op \<Rightarrow> database \<Rightarrow> database" where
  "run_op tj (ReportComponent sn ty md fa now) d = snd (upsert_component_sql tj sn ty md fa now d)"
| "run_op tj (ReportDevice sn md fa now) d = snd (upsert_device_metadata_sql tj sn md fa now d)"
| "run_op tj (Associate sn items now) d = snd (replace_associations_sql sn items now d)"

definition run_ops :: "(instant \<Rightarrow> json) \<Rightarrow> factory_op list \<Rightarrow> database \<Rightarrow> database" where
  "run_ops tj ops d = foldl (\<lambda>d op. run_op tj op d) d ops"

text \<open>The values a kind of report wrote for one serial number, in order.\<close>

definition history :: "(factory_op \<Rightarrow> (string \<times> 'v) option) \<Rightarrow> string \<Rightarrow> factory_op list \<Rightarrow> 'v list" where
  "history report sn ops =
     List.map_filter (\<lambda>op. case report op of Some (s, x) \<Rightarrow> if s = sn then Some x else None | None \<Rightarrow> None) ops"

definition last_of :: "'a list \<Rightarrow> 'a option" where
  "last_of xs = (if xs = [] then None else Some (last xs))"

definition overwrites :: "'a list \<Rightarrow> ('a option \<times> 'a) list" where
  "overwrites xs = zip (map Some xs) (tl xs)"

lemma last_of_simps [simp]: "last_of [] = None" "last_of (xs @ [x]) = Some x"
  by (simp_all add: last_of_def)

lemma overwrites_snoc:
  "overwrites (xs @ [x]) = overwrites xs @ (case last_of xs of None \<Rightarrow> [] | Some b \<Rightarrow> [(Some b, x)])"
proof (cases xs rule: rev_cases)
  case (snoc ys y)
  have "zip (map Some (ys @ [y])) (tl (ys @ [y])) = zip (map Some ys) (tl (ys @ [y]))"
    by (rule nth_equalityI) (auto simp: nth_append)
  moreover have "zip (map Some (ys @ [y, x])) (tl (ys @ [y]) @ [x]) = zip (map Some ys) (tl (ys @ [y])) @ [(Some y, x)]"
    using zip_append [of "map Some ys" "tl (ys @ [y])" "[Some y, Some x]" "[x]"] by simp
  ultimately show ?thesis using snoc by (cases ys) (simp_all add: overwrites_def last_of_def)
qed (simp add: overwrites_def)

lemma history_simps [simp]:
  "history report sn [] = []"
  "history report sn (ops @ [op]) = history report sn ops @
     (case report op of Some (s, x) \<Rightarrow> if s = sn then [x] else [] | None \<Rightarrow> [])"
  by (auto simp: history_def map_filter_def split: option.split)

text \<open>
  A table in which the last report of a serial number wins: \<open>snap\<close> is what is kept of it. When overwrites are
  logged, \<open>logs\<close> are its log entries, and a report adds one with the value it replaces, if there is one.
  Operations of other kinds leave a row alone, and its log entries too unless they log under the same number.
\<close>

locale latest_wins =
  fixes snap :: "string \<Rightarrow> database \<Rightarrow> 'v option"
    and run :: "factory_op \<Rightarrow> database \<Rightarrow> database"
    and report :: "factory_op \<Rightarrow> (string \<times> 'v) option"
  assumes own: "report op = Some (sn, x) \<Longrightarrow> snap sn (run op d) = Some x"
    and other: "\<nexists>x. report op = Some (sn, x) \<Longrightarrow> snap sn (run op d) = snap sn d"
begin

lemma latest:
  assumes "snap sn d = None"
  shows "snap sn (foldl (\<lambda>d op. run op d) d ops) = last_of (history report sn ops)"
proof (induction ops rule: rev_induct)
  case (snoc op ops)
  show ?case
  proof (cases "\<exists>x. report op = Some (sn, x)")
    case True
    then show ?thesis by (auto simp: own)
  next
    case False
    with other [of op sn] snoc.IH show ?thesis by (auto split: option.split)
  qed
qed (simp add: assms)

end

locale audited = latest_wins snap run report
  for snap :: "string \<Rightarrow> database \<Rightarrow> json option" and run report +
  fixes logs :: "string \<Rightarrow> database \<Rightarrow> (json option \<times> json) list"
    and foreign :: "factory_op \<Rightarrow> string \<Rightarrow> bool"
  assumes logged: "report op = Some (sn, x) \<Longrightarrow>
      logs sn (run op d) = logs sn d @ (case snap sn d of None \<Rightarrow> [] | Some b \<Rightarrow> [(Some b, x)])"
    and unlogged: "\<nexists>x. report op = Some (sn, x) \<Longrightarrow> \<not> foreign op sn \<Longrightarrow> logs sn (run op d) = logs sn d"
begin

lemma audit:
  assumes "snap sn d = None" "logs sn d = []" "\<forall>op\<in>set ops. \<not> foreign op sn"
  shows "logs sn (foldl (\<lambda>d op. run op d) d ops) = overwrites (history report sn ops)"
  using assms(3)
proof (induction ops rule: rev_induct)
  case Nil
  with assms show ?case by (simp add: overwrites_def)
next
  case (snoc op ops)
  let ?d = "foldl (\<lambda>d op. run op d) d ops"
  from snoc have IH: "logs sn ?d = overwrites (history report sn ops)" by auto
  show ?case
  proof (cases "\<exists>x. report op = Some (sn, x)")
    case True
    then obtain x where x: "report op = Some (sn, x)" by blast
    with logged [OF x, of ?d] IH latest [OF assms(1), of ops] show ?thesis by (simp add: overwrites_snoc)
  next
    case False
    with unlogged [of op sn ?d] IH snoc.prems show ?thesis by (auto split: option.split)
  qed
qed

end

definition component_snap :: "(instant \<Rightarrow> json) \<Rightarrow> string \<Rightarrow> database \<Rightarrow> json option" where
  "component_snap tj sn d = map_option (component_snapshot tj) (find (\<lambda>r. fc_component_sn r = sn) (factory_components d))"

definition device_snap :: "(instant \<Rightarrow> json) \<Rightarrow> string \<Rightarrow> database \<Rightarrow> json option" where
  "device_snap tj sn d = map_option (device_snapshot tj) (find (\<lambda>r. fd_device_sn r = sn) (factory_devices d))"

definition log_entries :: "string \<Rightarrow> database \<Rightarrow> (json option \<times> json) list" where
  "log_entries sn d = map (\<lambda>r. (fl_before r, fl_after r)) (change_log_rows sn d)"

definition component_report :: "(instant \<Rightarrow> json) \<Rightarrow> factory_op \<Rightarrow> (string \<times> json) option" where
  "component_report tj op =
     (case op of
        ReportComponent sn ty md fa now \<Rightarrow>
          Some (sn, json_obj [(''component_type'', JString ty), (''metadata'', md), (''file_attachments'', fa), (''updated_at'', tj now)])
      | _ \<Rightarrow> None)"

definition device_report :: "(instant \<Rightarrow> json) \<Rightarrow> factory_op \<Rightarrow> (string \<times> json) option" where
  "device_report tj op =
     (case op of
        ReportDevice sn md fa now \<Rightarrow>
          Some (sn, json_obj [(''metadata'', md), (''file_attachments'', fa), (''updated_at'', tj now)])
      | _ \<Rightarrow> None)"

definition reports_device :: "factory_op \<Rightarrow> string \<Rightarrow> bool" where
  "reports_device op sn \<longleftrightarrow> (\<exists>md fa now. op = ReportDevice sn md fa now)"

definition reports_component :: "factory_op \<Rightarrow> string \<Rightarrow> bool" where
  "reports_component op sn \<longleftrightarrow> (\<exists>ty md fa now. op = ReportComponent sn ty md fa now)"

lemma append_change_log_simps [simp]:
  "factory_components (append_change_log sn b a now d) = factory_components d"
  "factory_devices (append_change_log sn b a now d) = factory_devices d"
  "factory_associations (append_change_log sn b a now d) = factory_associations d"
  "log_entries sn' (append_change_log sn b a now d) = log_entries sn' d @ (if sn = sn' then [(Some b, a)] else [])"
  by (simp_all add: append_change_log_def log_entries_def change_log_rows_def Let_def)

lemma log_entries_other [simp]:
  "log_entries sn (d\<lparr>factory_components := x\<rparr>) = log_entries sn d"
  "log_entries sn (d\<lparr>factory_devices := y\<rparr>) = log_entries sn d"
  "log_entries sn (d\<lparr>factory_associations := z\<rparr>) = log_entries sn d"
  by (simp_all add: log_entries_def change_log_rows_def)

lemmas factory_sql_defs = upsert_component_sql_def upsert_device_metadata_sql_def replace_associations_sql_def

lemma component_own:
  "component_snap tj sn (run_op tj (ReportComponent sn ty md fa now) d) =
     Some (json_obj [(''component_type'', JString ty), (''metadata'', md), (''file_attachments'', fa), (''updated_at'', tj now)])"
  "log_entries sn (run_op tj (ReportComponent sn ty md fa now) d) = log_entries sn d @
     (case component_snap tj sn d of None \<Rightarrow> []
      | Some b \<Rightarrow> [(Some b, json_obj [(''component_type'', JString ty), (''metadata'', md), (''file_attachments'', fa), (''updated_at'', tj now)])])"
  by (cases "find (\<lambda>r. fc_component_sn r = sn) (factory_components d)";
      simp add: factory_sql_defs component_snap_def component_snapshot_def Let_def find_update_where_same
        find_append_new count_where_find)+

lemma device_own:
  "device_snap tj sn (run_op tj (ReportDevice sn md fa now) d) =
     Some (json_obj [(''metadata'', md), (''file_attachments'', fa), (''updated_at'', tj now)])"
  "log_entries sn (run_op tj (ReportDevice sn md fa now) d) = log_entries sn d @
     (case device_snap tj sn d of None \<Rightarrow> []
      | Some b \<Rightarrow> [(Some b, json_obj [(''metadata'', md), (''file_attachments'', fa), (''updated_at'', tj now)])])"
  by (cases "find (\<lambda>r. fd_device_sn r = sn) (factory_devices d)";
      simp add: factory_sql_defs device_snap_def device_snapshot_def Let_def find_update_where_same
        find_append_new count_where_find)+

lemma run_op_frame:
  "\<not> reports_component op sn \<Longrightarrow> component_snap tj' sn (run_op tj op d) = component_snap tj' sn d"
  "\<not> reports_device op sn \<Longrightarrow> device_snap tj' sn (run_op tj op d) = device_snap tj' sn d"
  "\<not> reports_component op sn \<Longrightarrow> \<not> reports_device op sn \<Longrightarrow> log_entries sn (run_op tj op d) = log_entries sn d"
  by (cases op; auto simp: factory_sql_defs component_snap_def device_snap_def reports_component_def reports_device_def Let_def
      find_append_other find_update_where_other split: option.split)+

interpretation components: audited "component_snap tj" "run_op tj" "component_report tj" log_entries reports_device for tj
proof
  fix op sn x d
  show "component_snap tj sn (run_op tj op d) = Some x" if "component_report tj op = Some (sn, x)"
    using that component_own(1) by (auto simp: component_report_def split: factory_op.splits)
  show "log_entries sn (run_op tj op d) = log_entries sn d @ (case component_snap tj sn d of None \<Rightarrow> [] | Some b \<Rightarrow> [(Some b, x)])"
    if "component_report tj op = Some (sn, x)"
    using that component_own(2) by (auto simp: component_report_def split: factory_op.splits)
next
  fix op sn d
  assume no: "\<nexists>x. component_report tj op = Some (sn, x)"
  then have "\<not> reports_component op sn" by (auto simp: component_report_def reports_component_def)
  show "component_snap tj sn (run_op tj op d) = component_snap tj sn d" by (rule run_op_frame(1)) fact
  show "log_entries sn (run_op tj op d) = log_entries sn d" if "\<not> reports_device op sn"
    by (rule run_op_frame(3)) fact+
qed

interpretation devices: audited "device_snap tj" "run_op tj" "device_report tj" log_entries reports_component for tj
proof
  fix op sn x d
  show "device_snap tj sn (run_op tj op d) = Some x" if "device_report tj op = Some (sn, x)"
    using that device_own(1) by (auto simp: device_report_def split: factory_op.splits)
  show "log_entries sn (run_op tj op d) = log_entries sn d @ (case device_snap tj sn d of None \<Rightarrow> [] | Some b \<Rightarrow> [(Some b, x)])"
    if "device_report tj op = Some (sn, x)"
    using that device_own(2) by (auto simp: device_report_def split: factory_op.splits)
next
  fix op sn d
  assume no: "\<nexists>x. device_report tj op = Some (sn, x)"
  then have "\<not> reports_device op sn" by (auto simp: device_report_def reports_device_def)
  show "device_snap tj sn (run_op tj op d) = device_snap tj sn d" by (rule run_op_frame(2)) fact
  show "log_entries sn (run_op tj op d) = log_entries sn d" if "\<not> reports_component op sn"
    by (rule run_op_frame(3)) fact+
qed

text \<open>
  C17: the change log is the exact history of overwrites. Over any sequence of component reports, device reports and
  association writes from an empty database, the log of a component's serial number, which no device report uses,
  holds one entry for each report after the first, in order, with the snapshot that was replaced and the one that
  replaced it, so consecutive entries chain; and the stored row is the last report. The same holds for a device's
  serial number. The first report writes no entry.
\<close>

theorem change_log_is_history:
  "((\<forall>op\<in>set ops. \<not> reports_device op sn) \<longrightarrow>
     log_entries sn (run_ops tj ops empty_db) = overwrites (history (component_report tj) sn ops) \<and>
     component_snap tj sn (run_ops tj ops empty_db) = last_of (history (component_report tj) sn ops)) \<and>
   ((\<forall>op\<in>set ops. \<not> reports_component op sn) \<longrightarrow>
     log_entries sn (run_ops tj ops empty_db) = overwrites (history (device_report tj) sn ops) \<and>
     device_snap tj sn (run_ops tj ops empty_db) = last_of (history (device_report tj) sn ops))"
proof -
  have start: "component_snap tj sn empty_db = None" "device_snap tj sn empty_db = None" "log_entries sn empty_db = []"
    by (simp_all add: component_snap_def device_snap_def log_entries_def change_log_rows_def empty_db_def)
  show ?thesis unfolding run_ops_def using components.audit [OF start(1,3)] devices.audit [OF start(2,3)]
      components.latest [OF start(1)] devices.latest [OF start(2)] by blast
qed

theorem change_log_is_history_witness:
  "map fst (log_entries ''s'' (run_ops (\<lambda>t. JNull) [ReportComponent ''s'' ''camera'' (JBool True) (JArray []) 1, Associate ''d'' [] 2,
      ReportComponent ''s'' ''radar'' (JBool False) (JArray []) 3] empty_db)) =
   [Some (json_obj [(''component_type'', JString ''camera''), (''metadata'', JBool True), (''file_attachments'', JArray []),
      (''updated_at'', JNull)])]"
  using change_log_is_history [where sn = "''s''" and tj = "\<lambda>t. JNull" and
      ops = "[ReportComponent ''s'' ''camera'' (JBool True) (JArray []) 1, Associate ''d'' [] 2,
        ReportComponent ''s'' ''radar'' (JBool False) (JArray []) 3]"]
  by (simp add: reports_device_def history_def map_filter_def component_report_def overwrites_def)

section \<open>Associations\<close>

abbreviation item_pair :: "component_association_input \<Rightarrow> string \<times> string option" where
  "item_pair i \<equiv> (ca_component_sn i, ca_component_type i)"

text \<open>\<open>INSERT ... ON CONFLICT\<close> on the list of a device's pairs.\<close>

fun put :: "'k \<times> 'v \<Rightarrow> ('k \<times> 'v) list \<Rightarrow> ('k \<times> 'v) list" where
  "put (k, v) [] = [(k, v)]"
| "put (k, v) ((k', v') # m) = (if k' = k then (k, v) # m else (k', v') # put (k, v) m)"

lemma map_of_put: "map_of (put (k, v) m) = (map_of m)(k \<mapsto> v)"
  by (induction m) (auto simp: fun_eq_iff)

lemma keys_put: "set (map fst (put kv m)) = insert (fst kv) (set (map fst m))"
  by (induction kv m rule: put.induct) auto

lemma distinct_put: "distinct (map fst m) \<Longrightarrow> distinct (map fst (put kv m))"
proof (induction kv m rule: put.induct)
  case (2 k v k' v' m)
  then show ?case using keys_put [of "(k, v)" m] by auto
qed simp

lemma put_foldl:
  "distinct (map fst m) \<Longrightarrow> distinct (map fst (foldl (\<lambda>m x. put x m) m xs)) \<and>
     map_of (foldl (\<lambda>m x. put x m) m xs) = map_of m ++ map_of (rev xs)"
proof (induction xs arbitrary: m)
  case (Cons x xs)
  obtain k v where x: "x = (k, v)" by (cases x)
  from Cons.IH [OF distinct_put [OF Cons.prems, of x]] show ?case
    by (auto simp: x map_of_put map_add_def fun_eq_iff split: option.split)
qed simp

definition pairs :: "string \<Rightarrow> factory_component_association list \<Rightarrow> (string \<times> string option) list" where
  "pairs dev rows = map (\<lambda>r. (fa_component_sn r, fa_component_type r)) (filter (\<lambda>r. fa_device_sn r = dev) rows)"

lemma put_absent: "k \<notin> set (map fst m) \<Longrightarrow> put (k, v) m = m @ [(k, v)]"
  by (induction m) auto

lemma put_present:
  "distinct (map fst m) \<Longrightarrow> k \<in> set (map fst m) \<Longrightarrow> put (k, v) m = map (\<lambda>(k', v'). if k' = k then (k, v) else (k', v')) m"
proof (induction m)
  case (Cons x m)
  show ?case
  proof (cases "fst x = k")
    case True
    with Cons.prems(1) have "fst y \<noteq> k" if "y \<in> set m" for y using that by (auto simp: rev_image_eqI)
    then have "map (\<lambda>(k', v'). if k' = k then (k, v) else (k', v')) m = m" by (intro map_idI) auto
    with True show ?thesis by (cases x) simp
  next
    case False
    with Cons show ?thesis by (cases x) auto
  qed
qed simp

lemma pairs_upsert_own:
  assumes "distinct (map fst (pairs dev rows))"
  shows "pairs dev (upsert_association dev now i rows) = put (item_pair i) (pairs dev rows)"
proof (cases "list_ex (association_for dev (ca_component_sn i)) rows")
  case True
  then have "ca_component_sn i \<in> set (map fst (pairs dev rows))"
    by (force simp: pairs_def list_ex_iff association_for_def)
  moreover have "pairs dev (update_where (association_for dev (ca_component_sn i))
      (\<lambda>r. r\<lparr>fa_component_type := ca_component_type i, fa_updated_at := now\<rparr>) rs) =
      map (\<lambda>(k', v'). if k' = ca_component_sn i then item_pair i else (k', v')) (pairs dev rs)" for rs
    by (induction rs) (auto simp: pairs_def association_for_def)
  ultimately show ?thesis using True assms by (simp add: upsert_association_def put_present)
next
  case False
  then have "ca_component_sn i \<notin> set (map fst (pairs dev rows))"
    by (auto simp: pairs_def list_ex_iff association_for_def)
  from put_absent [OF this] False show ?thesis by (simp add: upsert_association_def pairs_def)
qed

lemma pairs_upsert_other:
  assumes "dev' \<noteq> dev"
  shows "pairs dev' (upsert_association dev now i rows) = pairs dev' rows"
proof -
  have "pairs dev' (update_where (association_for dev (ca_component_sn i))
      (\<lambda>r. r\<lparr>fa_component_type := ca_component_type i, fa_updated_at := now\<rparr>) rs) = pairs dev' rs" for rs
    using assms by (induction rs) (auto simp: pairs_def association_for_def)
  then show ?thesis using assms by (simp add: upsert_association_def) (simp add: pairs_def)
qed

lemma pairs_upserts:
  assumes "distinct (map fst (pairs dev rows))"
  shows "pairs dev (foldl (\<lambda>rows i. upsert_association dev now i rows) rows items) =
      foldl (\<lambda>m x. put x m) (pairs dev rows) (map item_pair items)"
    "dev' \<noteq> dev \<Longrightarrow> pairs dev' (foldl (\<lambda>rows i. upsert_association dev now i rows) rows items) = pairs dev' rows"
  using assms by (induction items arbitrary: rows) (simp_all add: pairs_upsert_own distinct_put pairs_upsert_other)

text \<open>What the last association write of a device says: the type hint of each component, the last one given.\<close>

definition association_write :: "factory_op \<Rightarrow> (string \<times> (string \<rightharpoonup> string option)) option" where
  "association_write op =
     (case op of Associate dev items now \<Rightarrow> Some (dev, map_of (rev (map item_pair items))) | _ \<Rightarrow> None)"

definition associated :: "string \<Rightarrow> factory_op list \<Rightarrow> string \<rightharpoonup> string option" where
  "associated dev ops = (case last_of (history association_write dev ops) of None \<Rightarrow> Map.empty | Some m \<Rightarrow> m)"

lemma map_of_pairs_filter:
  "map_of (pairs dev (filter (\<lambda>r. \<not> (fa_device_sn r = dev \<and> fa_component_sn r \<notin> K)) rows)) =
     map_of (pairs dev rows) |` K"
  by (induction rows) (auto simp: pairs_def restrict_map_def fun_eq_iff)

lemma distinct_pairs_filter: "distinct (map fst (pairs dev rows)) \<Longrightarrow> distinct (map fst (pairs dev (filter P rows)))"
  by (induction rows) (auto simp: pairs_def)

lemma associations_replaced:
  assumes "distinct (map fst (pairs dev (factory_associations d)))"
  shows "distinct (map fst (pairs dev (factory_associations (snd (replace_associations_sql dev items now d)))))"
    "map_of (pairs dev (factory_associations (snd (replace_associations_sql dev items now d)))) = map_of (rev (map item_pair items))"
proof -
  let ?rows = "factory_associations d"
  let ?kept = "filter (\<lambda>r. \<not> (fa_device_sn r = dev \<and> fa_component_sn r \<notin> set (map ca_component_sn items))) ?rows"
  have kept: "distinct (map fst (pairs dev ?kept))" by (rule distinct_pairs_filter [OF assms])
  have dom: "dom (map_of (rev (map item_pair items))) = set (map ca_component_sn items)"
    by (simp add: dom_map_of_conv_image_fst image_image)
  have absorb: "f |` K ++ g = g" if "dom g = K" for f g :: "string \<rightharpoonup> string option" and K
    using that by (auto simp: map_add_def restrict_map_def fun_eq_iff split: option.split)
  have "map_of (pairs dev ?kept) ++ map_of (rev (map item_pair items)) = map_of (rev (map item_pair items))"
    unfolding map_of_pairs_filter by (rule absorb [OF dom])
  moreover have "pairs dev (filter (\<lambda>r. fa_device_sn r \<noteq> dev) ?rows) = []" by (induction ?rows) (auto simp: pairs_def)
  ultimately show "distinct (map fst (pairs dev (factory_associations (snd (replace_associations_sql dev items now d)))))"
    "map_of (pairs dev (factory_associations (snd (replace_associations_sql dev items now d)))) = map_of (rev (map item_pair items))"
    unfolding replace_associations_sql_def
    using put_foldl [OF kept, of "map item_pair items"] pairs_upserts(1) [OF kept, of now items]
    by (auto simp: Let_def)
qed

lemma associations_kept:
  assumes "dev' \<noteq> dev"
  shows "pairs dev' (factory_associations (snd (replace_associations_sql dev items now d))) = pairs dev' (factory_associations d)"
proof -
  have skip: "pairs dev' (filter P rows) = pairs dev' rows" if "\<And>r. fa_device_sn r = dev' \<Longrightarrow> P r" for P rows
    using that by (induction rows) (auto simp: pairs_def)
  have "pairs dev' (foldl (\<lambda>rows i. upsert_association dev now i rows) rows items) = pairs dev' rows" for rows
    using assms by (induction items arbitrary: rows) (simp_all add: pairs_upsert_other)
  with skip show ?thesis using assms by (simp add: replace_associations_sql_def Let_def)
qed

lemma associations_of_run:
  "distinct (map fst (pairs dev (factory_associations (run_ops tj ops empty_db)))) \<and>
   map_of (pairs dev (factory_associations (run_ops tj ops empty_db))) = associated dev ops"
proof (induction ops rule: rev_induct)
  case Nil
  show ?case by (simp add: run_ops_def pairs_def empty_db_def associated_def)
next
  case (snoc op ops)
  let ?d = "run_ops tj ops empty_db"
  have run: "run_ops tj (ops @ [op]) empty_db = run_op tj op ?d" by (simp add: run_ops_def)
  show ?case
  proof (cases op)
    case (Associate dev' items now)
    show ?thesis
    proof (cases "dev' = dev")
      case True
      with associations_replaced [OF snoc.IH [THEN conjunct1], of items now] show ?thesis
        unfolding run by (simp add: Associate associated_def association_write_def)
    next
      case False
      with associations_kept [of dev dev' items now ?d] snoc.IH show ?thesis
        unfolding run by (simp add: Associate associated_def association_write_def)
    qed
  qed (use snoc.IH run in \<open>auto simp: associated_def association_write_def factory_sql_defs Let_def split: option.split\<close>)
qed

section \<open>The view of a device\<close>

definition component_write :: "factory_op \<Rightarrow> (string \<times> string \<times> json \<times> json \<times> instant) option" where
  "component_write op = (case op of ReportComponent sn ty md fa now \<Rightarrow> Some (sn, ty, md, fa, now) | _ \<Rightarrow> None)"

definition device_write :: "factory_op \<Rightarrow> (string \<times> json \<times> json \<times> instant) option" where
  "device_write op = (case op of ReportDevice sn md fa now \<Rightarrow> Some (sn, md, fa, now) | _ \<Rightarrow> None)"

definition component_fields :: "string \<Rightarrow> database \<Rightarrow> (string \<times> json \<times> json \<times> instant) option" where
  "component_fields sn d =
     map_option (\<lambda>r. (fc_component_type r, fc_metadata r, fc_file_attachments r, fc_updated_at r))
       (find (\<lambda>r. fc_component_sn r = sn) (factory_components d))"

definition device_fields :: "string \<Rightarrow> database \<Rightarrow> (json \<times> json \<times> instant) option" where
  "device_fields sn d =
     map_option (\<lambda>r. (fd_metadata r, fd_file_attachments r, fd_updated_at r))
       (find (\<lambda>r. fd_device_sn r = sn) (factory_devices d))"

interpretation stored_components: latest_wins component_fields "run_op tj" component_write for tj
proof
  fix op sn x d
  show "component_fields sn (run_op tj op d) = Some x" if "component_write op = Some (sn, x)"
    using that by (cases "find (\<lambda>r. fc_component_sn r = sn) (factory_components d)")
      (auto simp: component_write_def factory_sql_defs component_fields_def Let_def find_update_where_same
        find_append_new count_where_find split: factory_op.splits)
next
  fix op sn d
  assume "\<nexists>x. component_write op = Some (sn, x)"
  then show "component_fields sn (run_op tj op d) = component_fields sn d"
    by (cases op) (auto simp: component_write_def factory_sql_defs component_fields_def Let_def find_append_other
        find_update_where_other split: option.split)
qed

interpretation stored_devices: latest_wins device_fields "run_op tj" device_write for tj
proof
  fix op sn x d
  show "device_fields sn (run_op tj op d) = Some x" if "device_write op = Some (sn, x)"
    using that by (cases "find (\<lambda>r. fd_device_sn r = sn) (factory_devices d)")
      (auto simp: device_write_def factory_sql_defs device_fields_def Let_def find_update_where_same
        find_append_new count_where_find split: factory_op.splits)
next
  fix op sn d
  assume "\<nexists>x. device_write op = Some (sn, x)"
  then show "device_fields sn (run_op tj op d) = device_fields sn d"
    by (cases op) (auto simp: device_write_def factory_sql_defs device_fields_def Let_def find_append_other
        find_update_where_other split: option.split)
qed

lemma stored_of_run:
  "component_fields sn (run_ops tj ops empty_db) = last_of (history component_write sn ops)"
  "device_fields sn (run_ops tj ops empty_db) = last_of (history device_write sn ops)"
  unfolding run_ops_def
  by (rule stored_components.latest stored_devices.latest; simp add: component_fields_def device_fields_def empty_db_def)+

text \<open>A component as the view shows it, from the association's type hint and the latest report, if any.\<close>

definition shown_component :: "string \<Rightarrow> string option \<Rightarrow> (string \<times> json \<times> json \<times> instant) option \<Rightarrow> factory_component_view" where
  "shown_component sn hint latest =
     \<lparr>cv_component_sn = sn,
      cv_component_type = (case latest of Some (ty, _) \<Rightarrow> Some ty | None \<Rightarrow> hint),
      cv_metadata = map_option (\<lambda>(_, md, _). md) latest,
      cv_file_attachments = normalise_file_attachments (map_option (\<lambda>(_, _, fa, _). fa) latest),
      cv_updated_at = map_option (\<lambda>(_, _, _, t). t) latest\<rparr>"

lemma shown_component_sn [simp]: "cv_component_sn (shown_component sn hint latest) = sn"
  by (simp add: shown_component_def)

lemma shown_component_row:
  "map_row_to_component_view (view_row d a) =
     shown_component (fa_component_sn a) (fa_component_type a) (component_fields (fa_component_sn a) d)"
  by (cases "find (\<lambda>r. fc_component_sn r = fa_component_sn a) (factory_components d)")
    (simp_all add: map_row_to_component_view_def view_row_def shown_component_def component_fields_def)

lemma device_view_shown:
  "map map_row_to_component_view (device_view_rows dev d) =
     map (\<lambda>(sn, hint). shown_component sn hint (component_fields sn d)) (pairs dev (factory_associations d))"
  by (simp add: device_view_rows_def pairs_def shown_component_row)

lemma view_by_sn:
  "map_of (map (\<lambda>v. (cv_component_sn v, v)) (map (\<lambda>(sn, hint). shown_component sn hint (L sn)) ps)) sn =
     map_option (\<lambda>hint. shown_component sn hint (L sn)) (map_of ps sn)"
  by (induction ps) auto

text \<open>
  C18: the console's view of a device is the join of the latest writes, in whatever order they came. After any
  sequence of factory operations, when the database answers, the view shows exactly the components of the device's
  last association write, each once; a component carries the type, metadata, attachments and time of its latest
  report, and if it has not been reported yet the type hint of the association and no metadata; the device's own
  metadata is its latest report. The answer is 404 exactly when the device has no associated component and has
  never been reported.
\<close>

theorem view_joins_latest_writes:
  assumes "reliable env" "valid_identifier dev" "db w = run_ops tj ops empty_db"
  shows "if associated dev ops = Map.empty \<and> history device_write dev ops = []
    then \<exists>w'. get_factory_device_view_handler dev env w = (Inl (not_found ''Device has no factory metadata''), w')
    else \<exists>view w'. get_factory_device_view_handler dev env w = (Inr view, w') \<and> fv_device_sn view = dev \<and>
      fv_device_metadata view = map_option (\<lambda>(md, fa, t). \<lparr>dm_metadata = Some md,
        dm_file_attachments = normalise_file_attachments (Some fa), dm_updated_at = Some t\<rparr>) (last_of (history device_write dev ops)) \<and>
      distinct (map cv_component_sn (fv_components view)) \<and>
      (\<forall>sn. map_of (map (\<lambda>v. (cv_component_sn v, v)) (fv_components view)) sn =
         map_option (\<lambda>hint. shown_component sn hint (last_of (history component_write sn ops))) (associated dev ops sn))"
proof -
  let ?d = "run_ops tj ops empty_db"
  let ?ps = "pairs dev (factory_associations ?d)"
  have assoc: "distinct (map fst ?ps)" "map_of ?ps = associated dev ops" using associations_of_run [of dev tj ops] by auto
  have empty: "device_view_rows dev ?d = [] \<longleftrightarrow> associated dev ops = Map.empty"
    unfolding assoc(2) [symmetric] by (simp add: device_view_rows_def pairs_def)
  have dev: "list_ex (\<lambda>r. fd_device_sn r = dev) (factory_devices ?d) \<longleftrightarrow> history device_write dev ops \<noteq> []"
    using stored_of_run(2) [of dev tj ops] by (auto simp: device_fields_def last_of_def list_ex_iff find_None_iff find_Some_iff split: if_splits)
  have meta: "map_option map_row_to_device_metadata_view (map_option (\<lambda>r. \<lparr>dr_metadata = Some (fd_metadata r),
      dr_file_attachments = Some (fd_file_attachments r), dr_updated_at = Some (fd_updated_at r)\<rparr>)
      (find (\<lambda>r. fd_device_sn r = dev) (factory_devices ?d))) =
    map_option (\<lambda>(md, fa, t). \<lparr>dm_metadata = Some md, dm_file_attachments = normalise_file_attachments (Some fa),
      dm_updated_at = Some t\<rparr>) (last_of (history device_write dev ops))"
    unfolding stored_of_run(2) [where tj = tj, symmetric] device_fields_def
    by (simp add: option.map_comp comp_def map_row_to_device_metadata_view_def)
  have sns: "map cv_component_sn (map (\<lambda>(sn, hint). shown_component sn hint (L sn)) ps) = map fst ps" for L ps
    by (induction ps) auto
  have ok: "validate_identifier dev ''deviceSn'' = Inr ()" using assms(2) by (simp add: validate_identifier_ok)
  show ?thesis
    using assms(1) empty dev
    by (auto simp: get_factory_device_view_handler_def get_device_view_def get_device_metadata_def ok prog_simps
        reliable_simps assms(3) Let_def meta device_view_shown sns assoc view_by_sn stored_of_run
        simp del: map_map)
qed

definition sample_ops :: "factory_op list" where
  "sample_ops = [Associate ''d'' [\<lparr>ca_component_sn = ''c1'', ca_component_type = Some ''radar''\<rparr>, \<lparr>ca_component_sn = ''c2'', ca_component_type = None\<rparr>] 1,
     ReportComponent ''c1'' ''camera'' (JBool True) (JArray []) 2]"

theorem view_joins_latest_writes_witness:
  "\<exists>view w'. get_factory_device_view_handler ''d'' all_done (empty_world\<lparr>db := run_ops (\<lambda>t. JNull) sample_ops empty_db\<rparr>) =
      (Inr view, w') \<and>
    map_of (map (\<lambda>v. (cv_component_sn v, v)) (fv_components view)) ''c1'' =
      Some (shown_component ''c1'' (Some ''radar'') (Some (''camera'', JBool True, JArray [], 2)))"
proof -
  let ?w = "empty_world\<lparr>db := run_ops (\<lambda>t. JNull) sample_ops empty_db\<rparr>"
  have valid: "valid_identifier ''d''" by (simp add: valid_identifier_def identifier_char_def is_ascii_alphanumeric_def)
  have assoc: "associated ''d'' sample_ops ''c1'' = Some (Some ''radar'')"
    by (simp add: associated_def sample_ops_def history_def map_filter_def association_write_def last_of_def)
  then have "associated ''d'' sample_ops \<noteq> Map.empty" by auto
  moreover have "last_of (history component_write ''c1'' sample_ops) = Some (''camera'', JBool True, JArray [], 2)"
    by (simp add: sample_ops_def history_def map_filter_def component_write_def last_of_def)
  ultimately show ?thesis
    using view_joins_latest_writes [OF reliable_all_done valid, of ?w "\<lambda>t. JNull" sample_ops] assoc by fastforce
qed

section \<open>Pages of the log\<close>

text \<open>
  The page number is narrowed to 32 bits without an upper bound: page \<open>2^32 + 3\<close> is answered as page 3.
\<close>

lemma page_number_wraps: "as_u32 (max (2 ^ 32 + 3) 1) = 3"
  by (simp add: as_u32_def)

text \<open>
  The view wraps an attachment value that is not an array, where a comment says it is dropped.
\<close>

lemma attachments_wrapped: "normalise_file_attachments (Some (JString s)) = [JString s]"
  by (simp add: normalise_file_attachments_def)

end
