(* ===== verification/Redis_Store.thy ===== *)
theory Redis_Store
  imports Rule_State Json
begin

text \<open>
  The Redis backed stores: \<open>RedisRuleStateStore\<close> of \<open>backend/src/rule_engine/cache.rs\<close>, the second implementation
  of the trait of \<open>Rule_State\<close>, and \<open>RedisSchemaCache\<close> of \<open>backend/src/cache.rs\<close>. A Redis server holds strings
  under keys, with an optional instant at which the key expires; \<open>GET\<close> does not see an expired key, \<open>SET\<close>
  replaces value and expiry, \<open>DEL\<close> removes keys. The record \<open>redis_client\<close> holds what the server and the
  libraries decide: which commands are answered, what the clock of the server shows, the replies to \<open>SCAN\<close>, and
  the ISO 8601 format. A command is identified by the number of writing methods that ran before, the instant
  at which its method runs (where the trait passes one) and its arguments. Error messages are given without the
  text of the error they wrap.
\<close>

section \<open>The server\<close>

type_synonym redis_entries = "string \<rightharpoonup> string \<times> instant option"

datatype redis_call =
    Connect string
  | GetKey string
  | SetKey string
  | DelKeys "string list"
  | ScanKeys string nat

record redis_client =
  rd_ok :: "nat \<Rightarrow> instant option \<Rightarrow> redis_call \<Rightarrow> bool"
  rd_clock :: "instant \<Rightarrow> instant"
  rd_scan :: "nat \<Rightarrow> string \<Rightarrow> nat \<Rightarrow> nat \<times> string list"
  rd_rounds :: nat
  iso_format :: "instant \<Rightarrow> string option"
  iso_parse :: "string \<Rightarrow> instant option"

record redis_store =
  rd_entries :: redis_entries
  rd_writes :: nat

definition redis_get :: "redis_client \<Rightarrow> instant \<Rightarrow> string \<Rightarrow> redis_entries \<Rightarrow> string option" where
  "redis_get E now key m =
     (case m key of
        None \<Rightarrow> None
      | Some (v, None) \<Rightarrow> Some v
      | Some (v, Some expires) \<Rightarrow> if rd_clock E now < expires then Some v else None)"

definition redis_set_ex :: "redis_client \<Rightarrow> instant \<Rightarrow> string \<Rightarrow> string \<Rightarrow> int \<Rightarrow> redis_entries \<Rightarrow> redis_entries" where
  "redis_set_ex E now key v ttl_secs m = m(key \<mapsto> (v, Some (rd_clock E now + ttl_secs * ns_per_sec)))"

definition redis_del :: "string list \<Rightarrow> redis_entries \<Rightarrow> redis_entries" where
  "redis_del keys m = (\<lambda>k. if k \<in> set keys then None else m k)"

section \<open>The rule state store\<close>

definition dedup_key :: "int \<Rightarrow> string \<Rightarrow> string" where
  "dedup_key rule_id device_id = ''alarm:dedup:'' @ show_int rule_id @ '':'' @ device_id"

definition duration_key :: "int \<Rightarrow> string \<Rightarrow> string" where
  "duration_key rule_id device_id = ''alarm:duration:'' @ show_int rule_id @ '':'' @ device_id"

definition redis_check_dedup ::
  "redis_client \<Rightarrow> int \<Rightarrow> string \<Rightarrow> int \<Rightarrow> instant \<Rightarrow> redis_store \<Rightarrow> bool" where
  "redis_check_dedup E rule_id device_id throttle_minutes now s =
     (let ok = rd_ok E (rd_writes s) (Some now); key = dedup_key rule_id device_id
      in if throttle_minutes \<le> 0 then False
         else if \<not> ok (Connect ''check_dedup'') then True
         else if \<not> ok (GetKey key) then True
         else case redis_get E now key (rd_entries s) of
                Some ts \<Rightarrow>
                  (case iso_parse E ts of
                     Some last_triggered \<Rightarrow> whole_minutes (now - last_triggered) < throttle_minutes
                   | None \<Rightarrow> True)
              | None \<Rightarrow> False)"

definition redis_mark_triggered ::
  "redis_client \<Rightarrow> int \<Rightarrow> string \<Rightarrow> int \<Rightarrow> instant \<Rightarrow> redis_store \<Rightarrow> (store_error + unit) \<times> redis_store" where
  "redis_mark_triggered E rule_id device_id throttle_minutes now s =
     (let ok = rd_ok E (rd_writes s) (Some now); key = dedup_key rule_id device_id;
          s' = s\<lparr>rd_writes := Suc (rd_writes s)\<rparr>;
          ttl_secs = max (throttle_minutes * 2 * 60) 60
      in if \<not> ok (Connect ''mark_triggered'')
         then (Inl (StoreError ''Redis connection failed in mark_triggered''), s')
         else case iso_format E now of
                Some ts_str \<Rightarrow>
                  if \<not> ok (SetKey key) then (Inl (StoreError ''Redis SET failed in mark_triggered''), s')
                  else (Inr (), s'\<lparr>rd_entries := redis_set_ex E now key ts_str ttl_secs (rd_entries s)\<rparr>)
              | None \<Rightarrow> (Inl (StoreError ''Failed to format timestamp''), s'))"

definition redis_check_duration ::
  "redis_client \<Rightarrow> int \<Rightarrow> string \<Rightarrow> int \<Rightarrow> instant \<Rightarrow> redis_store \<Rightarrow> duration_check_result \<times> redis_store" where
  "redis_check_duration E rule_id device_id duration_minutes now s =
     (let ok = rd_ok E (rd_writes s) (Some now); key = duration_key rule_id device_id;
          s' = s\<lparr>rd_writes := Suc (rd_writes s)\<rparr>
      in if duration_minutes \<le> 0 then (Met, s')
         else if \<not> ok (Connect ''check_duration'') then (NotStarted, s')
         else if \<not> ok (GetKey key) then (NotStarted, s')
         else case redis_get E now key (rd_entries s) of
                Some ts \<Rightarrow>
                  (case iso_parse E ts of
                     Some stored \<Rightarrow> (if whole_minutes (now - stored) \<ge> duration_minutes then Met else NotYetMet, s')
                   | None \<Rightarrow> (NotStarted, s'))
              | None \<Rightarrow>
                  (case iso_format E now of
                     None \<Rightarrow> (NotStarted, s')
                   | Some ts_str \<Rightarrow>
                       let ttl_secs = max (duration_minutes * 3 * 60) 60
                       in if \<not> ok (SetKey key) then (NotStarted, s')
                          else (JustStarted, s'\<lparr>rd_entries := redis_set_ex E now key ts_str ttl_secs (rd_entries s)\<rparr>)))"

definition redis_reset_duration ::
  "redis_client \<Rightarrow> int \<Rightarrow> string \<Rightarrow> redis_store \<Rightarrow> (store_error + unit) \<times> redis_store" where
  "redis_reset_duration E rule_id device_id s =
     (let ok = rd_ok E (rd_writes s) None; key = duration_key rule_id device_id;
          s' = s\<lparr>rd_writes := Suc (rd_writes s)\<rparr>
      in if \<not> ok (Connect ''reset_duration'')
         then (Inl (StoreError ''Redis connection failed in reset_duration''), s')
         else if \<not> ok (DelKeys [key]) then (Inl (StoreError ''Redis DEL failed in reset_duration''), s')
         else (Inr (), s'\<lparr>rd_entries := redis_del [key] (rd_entries s)\<rparr>))"

text \<open>
  One iteration with \<open>SCAN\<close>, from a cursor until the server answers with cursor 0. A failing \<open>SCAN\<close> ends the
  iteration, a failing \<open>DEL\<close> does not. The server decides how many rounds it takes, so the loop has fuel, and the
  first component of the result says whether the loop ended.
\<close>

fun scan_delete ::
  "redis_client \<Rightarrow> nat \<Rightarrow> string \<Rightarrow> nat \<Rightarrow> nat \<Rightarrow> redis_entries \<Rightarrow> bool \<times> redis_entries" where
  "scan_delete E n pattern 0 cursor m = (False, m)"
| "scan_delete E n pattern (Suc rounds) cursor m =
     (if \<not> rd_ok E n None (ScanKeys pattern cursor) then (True, m)
      else let (next_cursor, keys) = rd_scan E n pattern cursor;
               m' = (if keys \<noteq> [] \<and> rd_ok E n None (DelKeys keys) then redis_del keys m else m)
           in if next_cursor = 0 then (True, m') else scan_delete E n pattern rounds next_cursor m')"

definition rule_patterns :: "int \<Rightarrow> string list" where
  "rule_patterns rule_id =
     [''alarm:dedup:'' @ show_int rule_id @ '':*'', ''alarm:duration:'' @ show_int rule_id @ '':*'']"

definition redis_invalidate_by_rule_ids ::
  "redis_client \<Rightarrow> int list \<Rightarrow> redis_store \<Rightarrow> (store_error + unit) \<times> redis_store" where
  "redis_invalidate_by_rule_ids E rule_ids s =
     (let n = rd_writes s; s' = s\<lparr>rd_writes := Suc n\<rparr>
      in if rule_ids = [] then (Inr (), s')
         else if \<not> rd_ok E n None (Connect ''invalidate_by_rule_ids'')
         then (Inl (StoreError ''Redis connection failed in invalidate_by_rule_ids''), s')
         else (Inr (), s'\<lparr>rd_entries :=
                 fold (\<lambda>pattern m. snd (scan_delete E n pattern (rd_rounds E) 0 m))
                   (concat (map rule_patterns rule_ids)) (rd_entries s)\<rparr>))"

definition redis_ops :: "redis_client \<Rightarrow> redis_store store_ops" where
  "redis_ops E =
     \<lparr>st_check_dedup = redis_check_dedup E,
      st_mark_triggered = redis_mark_triggered E,
      st_check_duration = redis_check_duration E,
      st_reset_duration = redis_reset_duration E,
      st_invalidate_by_rule_ids = redis_invalidate_by_rule_ids E\<rparr>"

section \<open>Keys and patterns\<close>

lemma redis_key_inject [simp]:
  "dedup_key r d = dedup_key r' d' \<longleftrightarrow> r = r' \<and> d = d'"
  "duration_key r d = duration_key r' d' \<longleftrightarrow> r = r' \<and> d = d'"
  "dedup_key r d \<noteq> duration_key r' d'" "duration_key r d \<noteq> dedup_key r' d'"
  using store_key_inject [of r d r' d'] by (simp_all add: dedup_key_def duration_key_def store_key_def)

text \<open>A glob pattern whose only special character is a star at its end.\<close>

definition glob_matches :: "string \<Rightarrow> string \<Rightarrow> bool" where
  "glob_matches pattern key \<longleftrightarrow> starts_with key (butlast pattern)"

lemma starts_with_Cons: "starts_with (a # s) (b # p) \<longleftrightarrow> a = b \<and> starts_with s p"
  by (simp add: starts_with_def)

lemma starts_with_rule: "starts_with (show_int r @ '':'' @ d) (show_int r' @ '':'') \<longleftrightarrow> r = r'"
proof
  assume "starts_with (show_int r @ '':'' @ d) (show_int r' @ '':'')"
  then obtain u where "show_int r @ '':'' @ d = (show_int r' @ '':'') @ u" by (auto simp: starts_with_iff)
  then have "store_key r d = store_key r' u" by (simp add: store_key_def)
  then show "r = r'" by (simp add: store_key_inject)
qed (auto simp: starts_with_iff)

lemma rule_patterns_match:
  "(\<exists>p\<in>set (rule_patterns r'). glob_matches p (dedup_key r d)) \<longleftrightarrow> r = r'"
  "(\<exists>p\<in>set (rule_patterns r'). glob_matches p (duration_key r d)) \<longleftrightarrow> r = r'"
  using starts_with_rule [of r d r']
  by (simp_all add: rule_patterns_def glob_matches_def butlast_append dedup_key_def duration_key_def starts_with_Cons)

lemma patterns_match:
  "(\<exists>p\<in>set (concat (map rule_patterns rs)). glob_matches p (dedup_key r d)) \<longleftrightarrow> r \<in> set rs"
  "(\<exists>p\<in>set (concat (map rule_patterns rs)). glob_matches p (duration_key r d)) \<longleftrightarrow> r \<in> set rs"
  by (simp_all add: rule_patterns_match)

section \<open>Scanning\<close>

text \<open>
  What Redis promises for a full iteration: it ends, and it returns every key that was there from its start to
  its end, and only keys that match. \<open>scan_pages\<close> are the keys of an iteration whose commands are all answered.
\<close>

fun scan_pages :: "redis_client \<Rightarrow> nat \<Rightarrow> string \<Rightarrow> nat \<Rightarrow> nat \<Rightarrow> string list option" where
  "scan_pages E n pattern 0 cursor = None"
| "scan_pages E n pattern (Suc rounds) cursor =
     (if \<not> rd_ok E n None (ScanKeys pattern cursor) then None
      else let (next_cursor, keys) = rd_scan E n pattern cursor
           in if keys \<noteq> [] \<and> \<not> rd_ok E n None (DelKeys keys) then None
              else if next_cursor = 0 then Some keys
              else map_option ((@) keys) (scan_pages E n pattern rounds next_cursor))"

definition scan_complete :: "redis_client \<Rightarrow> nat \<Rightarrow> string \<Rightarrow> redis_entries \<Rightarrow> bool" where
  "scan_complete E n pattern m \<longleftrightarrow>
     (case scan_pages E n pattern (rd_rounds E) 0 of
        None \<Rightarrow> False
      | Some keys \<Rightarrow> (\<forall>k\<in>dom m. glob_matches pattern k \<longrightarrow> k \<in> set keys) \<and>
                     (\<forall>k\<in>set keys. glob_matches pattern k))"

lemma scan_delete_pages:
  "scan_pages E n p rounds c = Some keys \<Longrightarrow> scan_delete E n p rounds c m = (True, redis_del keys m)"
proof (induction rounds arbitrary: c m keys)
  case (Suc rounds)
  then show ?case
    by (auto simp: Let_def redis_del_def fun_eq_iff split: prod.splits if_splits)
qed simp

lemma redis_del_matching:
  assumes "scan_complete E n p m"
  shows "scan_delete E n p (rd_rounds E) 0 m = (True, \<lambda>k. if glob_matches p k then None else m k)"
proof -
  from assms obtain keys where pages: "scan_pages E n p (rd_rounds E) 0 = Some keys"
    and keys: "\<forall>k\<in>dom m. glob_matches p k \<longrightarrow> k \<in> set keys" "\<forall>k\<in>set keys. glob_matches p k"
    by (auto simp: scan_complete_def split: option.splits)
  from keys have "redis_del keys m = (\<lambda>k. if glob_matches p k then None else m k)"
    by (auto simp: redis_del_def fun_eq_iff)
  then show ?thesis by (simp add: scan_delete_pages [OF pages])
qed

lemma scan_complete_mono: "scan_complete E n p m \<Longrightarrow> dom m' \<subseteq> dom m \<Longrightarrow> scan_complete E n p m'"
  by (auto simp: scan_complete_def split: option.splits)

lemma scan_all_matching:
  "\<forall>p\<in>set ps. scan_complete E n p m \<Longrightarrow>
   fold (\<lambda>p m. snd (scan_delete E n p (rd_rounds E) 0 m)) ps m =
     (\<lambda>k. if \<exists>p\<in>set ps. glob_matches p k then None else m k)"
proof (induction ps arbitrary: m)
  case (Cons p ps)
  let ?m = "\<lambda>k. if glob_matches p k then None else m k"
  have "dom ?m \<subseteq> dom m" by (auto split: if_splits)
  with Cons.prems have "\<forall>q\<in>set ps. scan_complete E n q ?m"
    by (auto intro: scan_complete_mono)
  from Cons.IH [OF this] Cons.prems show ?case by (auto simp: redis_del_matching)
qed simp

section \<open>Refinement of the in-memory store\<close>

text \<open>
  A sequence of calls of the trait. The throttle and the duration of a rule are those of its row, so they are
  functions of the rule; a change of the row invalidates the rule.
\<close>

datatype store_op =
    CheckDedup int string instant
  | MarkTriggered int string instant
  | CheckDuration int string instant
  | ResetDuration int string
  | InvalidateRules "int list"

datatype store_reply = Suppress bool | Tracked duration_check_result | Answered "store_error + unit"

fun run_store_op ::
  "'s store_ops \<Rightarrow> (int \<Rightarrow> int) \<Rightarrow> (int \<Rightarrow> int) \<Rightarrow> store_op \<Rightarrow> 's \<Rightarrow> store_reply \<times> 's" where
  "run_store_op ops th du (CheckDedup r d now) s = (Suppress (st_check_dedup ops r d (th r) now s), s)"
| "run_store_op ops th du (MarkTriggered r d now) s = apfst Answered (st_mark_triggered ops r d (th r) now s)"
| "run_store_op ops th du (CheckDuration r d now) s = apfst Tracked (st_check_duration ops r d (du r) now s)"
| "run_store_op ops th du (ResetDuration r d) s = apfst Answered (st_reset_duration ops r d s)"
| "run_store_op ops th du (InvalidateRules rs) s = apfst Answered (st_invalidate_by_rule_ids ops rs s)"

fun run_store_ops ::
  "'s store_ops \<Rightarrow> (int \<Rightarrow> int) \<Rightarrow> (int \<Rightarrow> int) \<Rightarrow> store_op list \<Rightarrow> 's \<Rightarrow> store_reply list \<times> 's" where
  "run_store_ops ops th du [] s = ([], s)"
| "run_store_ops ops th du (c # cs) s =
     (case run_store_op ops th du c s of (x, s') \<Rightarrow> apfst ((#) x) (run_store_ops ops th du cs s'))"

text \<open>The library reads back what it formats.\<close>

definition formats :: "redis_client \<Rightarrow> instant \<Rightarrow> bool" where
  "formats E now \<longleftrightarrow> (case iso_format E now of Some v \<Rightarrow> iso_parse E v = Some now | None \<Rightarrow> False)"

text \<open>
  Redis forgets a tracked condition after three times its duration, and it relies on complete scans. A run is
  orderly when neither shows: the state of the in-memory store tells how long a condition has been tracked.
\<close>

definition orderly_op :: "redis_client \<Rightarrow> (int \<Rightarrow> int) \<Rightarrow> store_op \<Rightarrow> in_memory_store \<Rightarrow> redis_store \<Rightarrow> bool" where
  "orderly_op E du c m s \<longleftrightarrow>
     (case c of
        CheckDedup r d now \<Rightarrow> True
      | MarkTriggered r d now \<Rightarrow> formats E now
      | CheckDuration r d now \<Rightarrow>
          (case mem_tracking_since m r d of
             None \<Rightarrow> formats E now
           | Some since \<Rightarrow> now - since < 3 * du r * ns_per_min)
      | ResetDuration r d \<Rightarrow> True
      | InvalidateRules rs \<Rightarrow>
          list_all (\<lambda>p. scan_complete E (rd_writes s) p (rd_entries s)) (concat (map rule_patterns rs)))"

fun orderly ::
  "redis_client \<Rightarrow> (int \<Rightarrow> int) \<Rightarrow> (int \<Rightarrow> int) \<Rightarrow> store_op list \<Rightarrow> in_memory_store \<Rightarrow> redis_store \<Rightarrow> bool" where
  "orderly E th du [] m s \<longleftrightarrow> True"
| "orderly E th du (c # cs) m s \<longleftrightarrow>
     orderly_op E du c m s \<and>
     orderly E th du cs (snd (run_store_op in_memory_ops th du c m)) (snd (run_store_op (redis_ops E) th du c s))"

text \<open>Every command is answered, and the server's clock differs from the backend's by a constant.\<close>

definition redis_available :: "redis_client \<Rightarrow> bool" where
  "redis_available E \<longleftrightarrow>
     (\<forall>n at_instant c. rd_ok E n at_instant c) \<and> (\<forall>x y. rd_clock E x - rd_clock E y = x - y)"

text \<open>An entry that holds an instant with a time to live, as the two writing methods store it.\<close>

definition holds_instant :: "redis_client \<Rightarrow> int \<Rightarrow> (string \<times> instant option) option \<Rightarrow> instant option \<Rightarrow> bool" where
  "holds_instant E ttl_secs e i \<longleftrightarrow>
     (case i of
        None \<Rightarrow> e = None
      | Some x \<Rightarrow> formats E x \<and> e = Some (the (iso_format E x), Some (rd_clock E x + ttl_secs * ns_per_sec)))"

definition store_sim ::
  "redis_client \<Rightarrow> (int \<Rightarrow> int) \<Rightarrow> (int \<Rightarrow> int) \<Rightarrow> in_memory_store \<Rightarrow> redis_store \<Rightarrow> bool" where
  "store_sim E th du m s \<longleftrightarrow>
     (\<forall>r d. holds_instant E (max (th r * 2 * 60) 60) (rd_entries s (dedup_key r d)) (mem_triggered_at m r d)) \<and>
     (\<forall>r d. holds_instant E (max (du r * 3 * 60) 60) (rd_entries s (duration_key r d)) (mem_tracking_since m r d))"

lemma holds_instant_get:
  assumes "holds_instant E ttl (m k) i" and "redis_available E"
  shows "redis_get E now k m =
    (case i of None \<Rightarrow> None | Some x \<Rightarrow> if now - x < ttl * ns_per_sec then iso_format E x else None)"
proof -
  have "rd_clock E now < rd_clock E x + ttl * ns_per_sec \<longleftrightarrow> now - x < ttl * ns_per_sec" for x
    using \<open>redis_available E\<close> by (simp add: redis_available_def) (smt (verit))
  then show ?thesis using assms(1)
    by (auto simp: redis_get_def holds_instant_def formats_def split: option.splits)
qed

lemma available_ok [simp]: "redis_available E \<Longrightarrow> rd_ok E n i c"
  by (simp add: redis_available_def)

lemma formats_Some: "formats E x \<longleftrightarrow> (\<exists>v. iso_format E x = Some v \<and> iso_parse E v = Some x)"
  by (simp add: formats_def split: option.split)

lemma sim_check_dedup:
  assumes sim: "store_sim E th du m s" and av: "redis_available E"
  shows "redis_check_dedup E r d (th r) now s = mem_check_dedup r d (th r) now m"
proof -
  have h: "holds_instant E (max (th r * 2 * 60) 60) (rd_entries s (dedup_key r d)) (mem_triggered_at m r d)"
    using sim by (simp add: store_sim_def)
  have late: "\<not> whole_minutes (now - x) < th r" if "0 < th r" "\<not> now - x < max (th r * 2 * 60) 60 * ns_per_sec" for x
    using that by (simp add: whole_minutes_less_iff ns_per_min_def ns_per_sec_def max_def split: if_splits)
  show ?thesis using h late unfolding redis_check_dedup_def mem_check_dedup_def
    by (auto simp: holds_instant_get [where m = "rd_entries s", OF h av] av mem_triggered_at_def holds_instant_def formats_Some Let_def
        split: option.split)
qed

lemma sim_mark_triggered:
  assumes sim: "store_sim E th du m s" and av: "redis_available E" and "formats E now"
  shows "fst (redis_mark_triggered E r d (th r) now s) = Inr ()"
    and "store_sim E th du (snd (mem_mark_triggered r d (th r) now m)) (snd (redis_mark_triggered E r d (th r) now s))"
proof -
  from \<open>formats E now\<close> obtain v where v: "iso_format E now = Some v" by (auto simp: formats_Some)
  show "fst (redis_mark_triggered E r d (th r) now s) = Inr ()"
    using v av by (simp add: redis_mark_triggered_def Let_def)
  show "store_sim E th du (snd (mem_mark_triggered r d (th r) now m)) (snd (redis_mark_triggered E r d (th r) now s))"
    using sim v av \<open>formats E now\<close>
    by (auto simp: redis_mark_triggered_def mem_mark_triggered_def store_sim_def mem_triggered_at_def
        mem_tracking_since_def redis_set_ex_def holds_instant_def store_key_inject Let_def)
qed

lemma sim_check_duration:
  assumes sim: "store_sim E th du m s" and av: "redis_available E" and ord: "orderly_op E du (CheckDuration r d now) m s"
  shows "fst (redis_check_duration E r d (du r) now s) = fst (mem_check_duration r d (du r) now m)"
    and "store_sim E th du (snd (mem_check_duration r d (du r) now m)) (snd (redis_check_duration E r d (du r) now s))"
proof -
  have h: "holds_instant E (max (du r * 3 * 60) 60) (rd_entries s (duration_key r d)) (mem_tracking_since m r d)"
    using sim by (simp add: store_sim_def)
  have live: "now - x < max (du r * 3 * 60) 60 * ns_per_sec" if "mem_tracking_since m r d = Some x" for x
    using ord that by (simp add: orderly_op_def ns_per_min_def ns_per_sec_def max_def split: if_splits)
  note [simp] = holds_instant_get [where m = "rd_entries s", OF h av] av
  show "fst (redis_check_duration E r d (du r) now s) = fst (mem_check_duration r d (du r) now m)"
    using h live ord unfolding redis_check_duration_def mem_check_duration_def
    by (auto simp: mem_tracking_since_def holds_instant_def formats_Some orderly_op_def Let_def split: option.splits)
  show "store_sim E th du (snd (mem_check_duration r d (du r) now m)) (snd (redis_check_duration E r d (du r) now s))"
  proof (cases "0 < du r \<and> mem_tracking_since m r d = None")
    case True
    with ord have f: "formats E now" by (simp add: orderly_op_def)
    then obtain v where v: "iso_format E now = Some v" by (auto simp: formats_Some)
    have "rd_entries (snd (redis_check_duration E r d (du r) now s)) =
        redis_set_ex E now (duration_key r d) v (max (du r * 3 * 60) 60) (rd_entries s)"
      using True v by (simp add: redis_check_duration_def Let_def)
    moreover have "snd (mem_check_duration r d (du r) now m) =
        m\<lparr>duration_tracking := (duration_tracking m)(store_key r d \<mapsto> now)\<rparr>"
      using True by (simp add: mem_check_duration_def mem_tracking_since_def Let_def)
    ultimately show ?thesis using sim f v
      by (auto simp: store_sim_def mem_triggered_at_def mem_tracking_since_def redis_set_ex_def holds_instant_def
          store_key_inject)
  next
    case False
    then have "rd_entries (snd (redis_check_duration E r d (du r) now s)) = rd_entries s"
      using h live by (auto simp: redis_check_duration_def holds_instant_def formats_Some Let_def split: option.splits)
    moreover have "snd (mem_check_duration r d (du r) now m) = m"
      using False by (auto simp: mem_check_duration_def mem_tracking_since_def Let_def split: option.splits)
    ultimately show ?thesis using sim by (simp add: store_sim_def)
  qed
qed

lemma sim_reset_duration:
  assumes sim: "store_sim E th du m s" and av: "redis_available E"
  shows "fst (redis_reset_duration E r d s) = Inr ()"
    and "store_sim E th du (snd (mem_reset_duration r d m)) (snd (redis_reset_duration E r d s))"
  using sim av
  by (auto simp: redis_reset_duration_def mem_reset_duration_def store_sim_def mem_triggered_at_def
      mem_tracking_since_def redis_del_def holds_instant_def store_key_inject Let_def)

lemma sim_invalidate:
  assumes sim: "store_sim E th du m s" and av: "redis_available E" and ord: "orderly_op E du (InvalidateRules rs) m s"
  shows "fst (redis_invalidate_by_rule_ids E rs s) = Inr ()"
    and "store_sim E th du (snd (mem_invalidate_by_rule_ids rs m)) (snd (redis_invalidate_by_rule_ids E rs s))"
proof -
  show "fst (redis_invalidate_by_rule_ids E rs s) = Inr ()"
    using av by (simp add: redis_invalidate_by_rule_ids_def Let_def)
  have "\<forall>p\<in>set (concat (map rule_patterns rs)). scan_complete E (rd_writes s) p (rd_entries s)"
    using ord by (simp add: orderly_op_def list_all_iff)
  note del = scan_all_matching [OF this]
  show "store_sim E th du (snd (mem_invalidate_by_rule_ids rs m)) (snd (redis_invalidate_by_rule_ids E rs s))"
  proof (cases "rs = []")
    case False
    with av del have "rd_entries (snd (redis_invalidate_by_rule_ids E rs s)) =
        (\<lambda>k. if \<exists>p\<in>set (concat (map rule_patterns rs)). glob_matches p k then None else rd_entries s k)"
      by (simp add: redis_invalidate_by_rule_ids_def Let_def)
    moreover have "snd (mem_invalidate_by_rule_ids rs m) =
        m\<lparr>duration_tracking := retain_keys (keep_key rs) (duration_tracking m), dedup := retain_keys (keep_key rs) (dedup m)\<rparr>"
      using False by (simp add: mem_invalidate_by_rule_ids_def)
    ultimately show ?thesis using sim
      by (simp add: store_sim_def mem_triggered_at_def mem_tracking_since_def retain_keys_def keep_key_store_key
          patterns_match [simplified] holds_instant_def)
  qed (use sim in \<open>simp add: redis_invalidate_by_rule_ids_def mem_invalidate_by_rule_ids_def store_sim_def Let_def\<close>)
qed

lemma sim_run_op:
  assumes "store_sim E th du m s" and "redis_available E" and "orderly_op E du c m s"
  shows "fst (run_store_op (redis_ops E) th du c s) = fst (run_store_op in_memory_ops th du c m)"
    and "store_sim E th du (snd (run_store_op in_memory_ops th du c m)) (snd (run_store_op (redis_ops E) th du c s))"
proof -
  have "fst (run_store_op (redis_ops E) th du c s) = fst (run_store_op in_memory_ops th du c m) \<and>
    store_sim E th du (snd (run_store_op in_memory_ops th du c m)) (snd (run_store_op (redis_ops E) th du c s))"
  proof (cases c)
    case (CheckDuration r d now)
    with assms sim_check_duration [of E th du m s r d now] show ?thesis by (simp add: redis_ops_def in_memory_ops_def)
  next
    case (InvalidateRules rs)
    with assms sim_invalidate [of E th du m s rs] show ?thesis
      by (simp add: redis_ops_def in_memory_ops_def mem_invalidate_by_rule_ids_def)
  qed (use assms sim_check_dedup sim_mark_triggered sim_reset_duration in
      \<open>auto simp: redis_ops_def in_memory_ops_def orderly_op_def mem_mark_triggered_def mem_reset_duration_def\<close>)
  then show "fst (run_store_op (redis_ops E) th du c s) = fst (run_store_op in_memory_ops th du c m)"
    and "store_sim E th du (snd (run_store_op in_memory_ops th du c m)) (snd (run_store_op (redis_ops E) th du c s))"
    by simp_all
qed

lemma sim_run_ops:
  assumes "redis_available E"
  shows "store_sim E th du m s \<Longrightarrow> orderly E th du cs m s \<Longrightarrow>
    fst (run_store_ops (redis_ops E) th du cs s) = fst (run_store_ops in_memory_ops th du cs m) \<and>
    store_sim E th du (snd (run_store_ops in_memory_ops th du cs m)) (snd (run_store_ops (redis_ops E) th du cs s))"
proof (induction cs arbitrary: m s)
  case (Cons c cs)
  from Cons.prems have ord: "orderly_op E du c m s" by simp
  note step = sim_run_op [OF Cons.prems(1) assms ord]
  from Cons.IH [OF step(2)] Cons.prems(2) step(1) show ?case by (simp add: case_prod_beta)
qed simp

text \<open>
  C12: the Redis store refines the in-memory store. On a server that answers every command, with a clock that
  differs from the backend's by a constant and no keys of the store at the start, every orderly sequence of
  calls (a condition is not tracked for three times its duration, and the scans of an invalidation are
  complete) gets the same replies as from the in-memory store, and afterwards Redis holds exactly the instants
  the in-memory store holds, each with the time to live of its rule.
\<close>

theorem redis_refines_memory:
  assumes "redis_available E" and "orderly E th du cs in_memory_new s"
    and "\<And>r d. rd_entries s (dedup_key r d) = None" and "\<And>r d. rd_entries s (duration_key r d) = None"
  shows "fst (run_store_ops (redis_ops E) th du cs s) = fst (run_store_ops in_memory_ops th du cs in_memory_new) \<and>
    store_sim E th du (snd (run_store_ops in_memory_ops th du cs in_memory_new))
      (snd (run_store_ops (redis_ops E) th du cs s))"
  using assms(1)
proof (rule sim_run_ops)
  show "store_sim E th du in_memory_new s"
    using assms(3, 4) by (simp add: store_sim_def holds_instant_def in_memory_new_def mem_triggered_at_def mem_tracking_since_def)
qed (rule assms(2))

text \<open>A server that answers everything; an instant is formatted in unary.\<close>

definition sample_redis :: redis_client where
  "sample_redis =
     \<lparr>rd_ok = (\<lambda>_ _ _. True), rd_clock = (\<lambda>x. x + 5),
      rd_scan = (\<lambda>_ pattern _. (0, [butlast pattern @ ''d''])), rd_rounds = 1,
      iso_format = (\<lambda>x. if 0 \<le> x then Some (replicate (nat x) CHR ''i'') else None),
      iso_parse = (\<lambda>v. Some (int (length v)))\<rparr>"

definition sample_calls :: "store_op list" where
  "sample_calls =
     [MarkTriggered 1 ''d'' 0, CheckDedup 1 ''d'' (4 * ns_per_min), CheckDuration 1 ''d'' 0,
      CheckDuration 1 ''d'' (2 * ns_per_min), InvalidateRules [1], CheckDedup 1 ''d'' (4 * ns_per_min)]"

lemma sample_redis_formats: "0 \<le> x \<Longrightarrow> formats sample_redis x"
  by (simp add: formats_def sample_redis_def)

lemma sample_available: "redis_available sample_redis"
  by (simp add: redis_available_def sample_redis_def)

lemma sample_scan_complete:
  assumes "\<And>k. m k \<noteq> None \<Longrightarrow> glob_matches p k \<Longrightarrow> k = butlast p @ ''d''"
  shows "scan_complete sample_redis n p m"
  using assms by (force simp: scan_complete_def sample_redis_def glob_matches_def starts_with_def dom_def)

lemma sample_replies:
  "fst (run_store_ops in_memory_ops (\<lambda>_. 5) (\<lambda>_. 2) sample_calls in_memory_new) =
     [Answered (Inr ()), Suppress True, Tracked JustStarted, Tracked Met, Answered (Inr ()), Suppress False]"
  by (simp add: sample_calls_def in_memory_ops_def mem_check_dedup_def mem_mark_triggered_def mem_check_duration_def
      mem_invalidate_by_rule_ids_def in_memory_new_def Let_def whole_minutes_less_iff whole_minutes_ge_iff
      retain_keys_def keep_key_store_key ns_per_min_def ns_per_sec_def)

lemma dom_mark: "dom (rd_entries (snd (redis_mark_triggered E r d th now s))) \<subseteq> insert (dedup_key r d) (dom (rd_entries s))"
  and dom_check: "dom (rd_entries (snd (redis_check_duration E r d du now s))) \<subseteq> insert (duration_key r d) (dom (rd_entries s))"
  by (auto simp: redis_mark_triggered_def redis_check_duration_def redis_set_ex_def Let_def
      split: if_splits option.splits)

lemma sample_scan:
  assumes "dom (rd_entries s) \<subseteq> {dedup_key 1 ''d'', duration_key 1 ''d''}" and "p \<in> set (rule_patterns 1)"
  shows "scan_complete sample_redis n p (rd_entries s)"
proof (rule sample_scan_complete)
  fix k assume "rd_entries s k \<noteq> None" "glob_matches p k"
  with assms show "k = butlast p @ ''d''"
    by (auto simp: rule_patterns_def glob_matches_def dedup_key_def duration_key_def butlast_append starts_with_Cons)
qed

lemma sample_orderly:
  "orderly sample_redis (\<lambda>_. 5) (\<lambda>_. 2) sample_calls in_memory_new \<lparr>rd_entries = Map.empty, rd_writes = 0\<rparr>"
proof -
  let ?E = sample_redis
  define s1 where "s1 = snd (redis_mark_triggered ?E 1 ''d'' 5 0 \<lparr>rd_entries = Map.empty, rd_writes = 0\<rparr>)"
  define s2 where "s2 = snd (redis_check_duration ?E 1 ''d'' 2 0 s1)"
  define s3 where "s3 = snd (redis_check_duration ?E 1 ''d'' 2 (2 * ns_per_min) s2)"
  have "dom (rd_entries s3) \<subseteq> {dedup_key 1 ''d'', duration_key 1 ''d''}"
    using dom_check [of ?E 1 "''d''" 2 "2 * ns_per_min" s2] dom_check [of ?E 1 "''d''" 2 0 s1]
      dom_mark [of ?E 1 "''d''" 5 0 "\<lparr>rd_entries = Map.empty, rd_writes = 0\<rparr>"]
    unfolding s3_def [symmetric] s2_def [symmetric] s1_def [symmetric] by auto
  then have scan: "list_all (\<lambda>p. scan_complete ?E n p (rd_entries s3)) (rule_patterns 1)" for n
    by (auto simp: list_all_iff intro: sample_scan)
  show ?thesis using scan
    by (simp add: sample_calls_def orderly_op_def sample_redis_formats in_memory_ops_def redis_ops_def
      mem_mark_triggered_def mem_check_duration_def in_memory_new_def Let_def mem_tracking_since_def
      s1_def [symmetric] s2_def [symmetric] s3_def [symmetric]) (simp add: ns_per_min_def ns_per_sec_def)
qed

theorem redis_refines_memory_witness:
  "fst (run_store_ops (redis_ops sample_redis) (\<lambda>_. 5) (\<lambda>_. 2) sample_calls \<lparr>rd_entries = Map.empty, rd_writes = 0\<rparr>) =
     [Answered (Inr ()), Suppress True, Tracked JustStarted, Tracked Met, Answered (Inr ()), Suppress False]"
  using redis_refines_memory [OF sample_available sample_orderly] sample_replies by simp

end
