(* ===== verification/Redis_Behaviour.thy ===== *)
theory Redis_Behaviour
  imports Redis_Store Engine_Throttle
begin

text \<open>
  The rule engine on the Redis store: throttling as long as marks are stored, whatever reads fail; no alarms at
  all while the throttle cannot be read; repeated alarms when marks are lost; and the restart of a tracked
  condition when its key expires.
\<close>

section \<open>Throttling on Redis\<close>

text \<open>
  When a pair was marked, provided that the mark outlives a window of \<open>t\<close> minutes even on a server clock that
  runs at twice the speed.
\<close>

definition redis_marked_at :: "redis_client \<Rightarrow> int \<Rightarrow> redis_store \<Rightarrow> int \<Rightarrow> string \<Rightarrow> instant option" where
  "redis_marked_at E t s r d =
     (case rd_entries s (dedup_key r d) of
        Some (v, Some expires) \<Rightarrow>
          (case iso_parse E v of
             Some m \<Rightarrow> if rd_clock E m + 2 * t * ns_per_min \<le> expires then Some m else None
           | None \<Rightarrow> None)
      | _ \<Rightarrow> None)"

text \<open>
  In the window, the commands of \<open>mark_triggered\<close> are answered and the clock of the server moves by less than
  twice the length of the window. Nothing is assumed of the other methods.
\<close>

definition marks_stored :: "redis_client \<Rightarrow> instant \<Rightarrow> int \<Rightarrow> bool" where
  "marks_stored E T t \<longleftrightarrow>
     (\<forall>now\<in>{T..<T + t * ns_per_min}.
        formats E now \<and>
        (\<forall>n. rd_ok E n (Some now) (Connect ''mark_triggered'')) \<and>
        (\<forall>n key. rd_ok E n (Some now) (SetKey key)) \<and>
        (\<forall>m\<in>{T..<T + t * ns_per_min}. rd_clock E now < rd_clock E m + 2 * t * ns_per_min))"

lemma redis_throttle_store:
  assumes stored: "marks_stored E T t"
  shows "throttle_store (redis_ops E) T t (redis_marked_at E t)"
proof
  fix t' s r d m now
  assume t': "t \<le> t'" and m: "redis_marked_at E t s r d = Some m" "m \<in> {T..<T + t * ns_per_min}"
    and now: "now \<in> {T..<T + t * ns_per_min}"
  from m(1) obtain v x where e: "rd_entries s (dedup_key r d) = Some (v, Some x)" "iso_parse E v = Some m"
      "rd_clock E m + 2 * t * ns_per_min \<le> x"
    by (auto simp: redis_marked_at_def split: option.splits if_splits)
  have "rd_clock E now < rd_clock E m + 2 * t * ns_per_min"
    using stored m(2) now unfolding marks_stored_def by blast
  with e have get: "redis_get E now (dedup_key r d) (rd_entries s) = Some v" by (simp add: redis_get_def)
  have "0 < t'" using window_positive [OF now] t' by simp
  moreover have "now - m < t' * ns_per_min" using m(2) now le_minutes [OF t'] by auto
  ultimately show "st_check_dedup (redis_ops E) r d t' now s"
    using e(2) get by (simp add: redis_ops_def redis_check_dedup_def Let_def whole_minutes_less_iff)
next
  fix t' now r d and s :: redis_store assume t': "t \<le> t'" and now: "now \<in> {T..<T + t * ns_per_min}"
  have here: "formats E now" and ok: "rd_ok E (rd_writes s) (Some now) (Connect ''mark_triggered'')"
      "\<And>key. rd_ok E (rd_writes s) (Some now) (SetKey key)"
    using stored now by (simp_all add: marks_stored_def)
  from here obtain v where v: "iso_format E now = Some v" "iso_parse E v = Some now" by (auto simp: formats_Some)
  have "2 * t * ns_per_min \<le> max (t' * 2 * 60) 60 * ns_per_sec"
    using t' by (simp add: ns_per_min_def ns_per_sec_def)
  with v ok show "redis_marked_at E t (snd (st_mark_triggered (redis_ops E) r d t' now s)) r d = Some now"
    by (simp add: redis_ops_def redis_mark_triggered_def redis_marked_at_def redis_set_ex_def Let_def)
next
  show "redis_marked_at E t (snd (st_mark_triggered (redis_ops E) r d t' now s)) r' d' = redis_marked_at E t s r' d'"
    if "(r', d') \<noteq> (r, d)" for r' d' r d t' now s
    using that by (auto simp: redis_ops_def redis_mark_triggered_def redis_marked_at_def redis_set_ex_def Let_def split: option.split)
  show "redis_marked_at E t (snd (st_check_duration (redis_ops E) r d n now s)) r' d' = redis_marked_at E t s r' d'"
    for r d n now s r' d'
    by (auto simp: redis_ops_def redis_check_duration_def redis_marked_at_def redis_set_ex_def Let_def split: option.split)
  show "redis_marked_at E t (snd (st_reset_duration (redis_ops E) r d s)) r' d' = redis_marked_at E t s r' d'"
    for r d s r' d'
    by (simp add: redis_ops_def redis_reset_duration_def redis_marked_at_def redis_del_def Let_def)
qed

text \<open>
  C11: throttling on Redis. As long as marks are stored (the two commands of \<open>mark_triggered\<close> are answered and the
  server's clock does not run at twice the speed), any sequence of triggers within a window of \<open>t\<close> minutes adds at
  most one alarm of a rule with a throttle of at least \<open>t\<close> minutes for a device, whatever other Redis commands,
  database calls and webhooks fail: an unreadable mark suppresses.
\<close>

theorem redis_at_most_one_alarm_per_window:
  assumes "marks_stored E T t" and "rules_throttled r t w" and "in_window T t env"
    and "forE ctxs (evaluate_and_trigger (redis_ops E) repo) env w = (res, w')"
  shows "alarm_count r d (db w') \<le> Suc (alarm_count r d (db w))"
  using throttle_store.at_most_one_alarm [OF redis_throttle_store [OF assms(1)] assms(2-4)] .

text \<open>A server of which every \<open>GET\<close> fails, and a world with the sample rule on a Redis store.\<close>

definition failing_reads :: redis_client where
  "failing_reads = sample_redis\<lparr>rd_ok := (\<lambda>_ _ c. case c of GetKey _ \<Rightarrow> False | _ \<Rightarrow> True)\<rparr>"

definition redis_world :: "redis_store world" where
  "redis_world =
     \<lparr>tick = 0, db = empty_db\<lparr>alarm_rules := [sample_rule]\<rparr>, cached_rules = Map.empty,
      state_store = \<lparr>rd_entries = Map.empty, rd_writes = 0\<rparr>, schema_cache = Map.empty, webhooks_posted = [],
      published = [], spawned = []\<rparr>"

lemma rules_throttled_redis_world: "rules_throttled 1 5 redis_world"
  by (simp add: rules_throttled_def throttled_def redis_world_def sample_rule_def)

lemma all_done_in_window: "in_window 0 5 all_done"
  by (simp add: in_window_def all_done_def ns_per_min_def ns_per_sec_def)

lemma failing_reads_store: "marks_stored failing_reads 0 5"
  using sample_redis_formats
  by (auto simp: marks_stored_def failing_reads_def sample_redis_def formats_def ns_per_min_def ns_per_sec_def)

theorem redis_at_most_one_alarm_per_window_witness:
  "alarm_count 1 ''dev'' (db (snd
     ((forE [sample_ctx 90, sample_ctx 95] (evaluate_and_trigger (redis_ops failing_reads) sample_repo)
        :: (_, unit, _) io) all_done redis_world))) \<le> Suc (alarm_count 1 ''dev'' (db redis_world))"
  by (rule redis_at_most_one_alarm_per_window
      [OF failing_reads_store rules_throttled_redis_world all_done_in_window prod.collapse [symmetric]])

section \<open>An unreachable throttle\<close>

text \<open>A store whose throttle check always suppresses keeps rules silent, whatever else it does.\<close>

abbreviation silent :: "int \<Rightarrow> string \<Rightarrow> instant \<Rightarrow> int \<Rightarrow> nat \<Rightarrow> 's world \<Rightarrow> bool" where
  "silent \<equiv> quota_inv (\<lambda>_ _ _. None)"

lemma silent_store_call: "keeps E (silent r d T t k) (store_call f)"
  by (simp add: triple_def store_call_def quota_defs split: prod.split)

lemma silent_reset: "keeps E (silent r d T t k) (reset_duration ops ri dv)"
  and silent_gate: "keeps E (silent r d T t k) (duration_gate ops tt rule ctx)"
  unfolding reset_duration_def duration_gate_def check_duration_def
  by (intro triple_intros silent_store_call keeps_view frame_intros)+

lemma silent_dedup_fire:
  assumes "throttled r t rule" and sup: "\<And>t' n s. t \<le> t' \<Longrightarrow> st_check_dedup ops r d t' n s"
  shows "keeps E (silent r d T t k)
    (bindE (check_dedup ops (ar_id rule) (ctx_device_id ctx) (ar_throttle_minutes rule) n)
       (\<lambda>dup. if dup then ret () else fire_rule ops repo rule ctx))"
proof (cases "(ar_id rule, ctx_device_id ctx) = (r, d)")
  case True
  with assms(1) have "t \<le> ar_throttle_minutes rule" by (simp add: throttled_def)
  with True sup show ?thesis
    by (simp add: triple_def check_dedup_def bindE_def store_call_def ret_def)
next
  case False
  then show ?thesis unfolding check_dedup_def fire_rule_def mark_triggered_def
    by (intro triple_intros silent_store_call keeps_view frame_intros) simp_all
qed

lemma silent_process_rule:
  assumes "throttled r t rule" and sup: "\<And>t' n s. t \<le> t' \<Longrightarrow> st_check_dedup ops r d t' n s"
  shows "keeps E (silent r d T t k) (process_rule ops repo ctx rule)"
  unfolding process_rule_def
  by (intro triple_intros silent_reset silent_gate silent_dedup_fire [OF assms] keeps_view frame_intros)

lemma silent_clear_rule: "keeps E (silent r d T t k) (clear_rule ops ctx rule)"
  unfolding clear_rule_def query_active_alarms_for_clear_def
  by (intro triple_intros silent_reset keeps_view frame_intros)

lemma suppressed_engine_silent:
  fixes w :: "'s world" and res :: "'e + unit"
  assumes sup: "\<And>t' n s. t \<le> t' \<Longrightarrow> st_check_dedup ops r d t' n s" and "rules_throttled r t w"
    and run: "forE ctxs (evaluate_and_trigger ops repo) env w = (res, w')"
  shows "alarm_count r d (db w') \<le> alarm_count r d (db w)"
proof -
  have tr: "triple (\<lambda>_. True) (silent r d 0 t (alarm_count r d (db w)))
      (forE ctxs (evaluate_and_trigger ops repo) :: ('s, 'e, unit) io)
      (\<lambda>_. silent r d 0 t (alarm_count r d (db w)))"
    by (intro triple_intros keeps_engine silent_process_rule silent_clear_rule) (auto intro: sup)
  have pre: "silent r d 0 t (alarm_count r d (db w)) w"
    using assms(2) by (simp add: quota_inv_def quota_def)
  from tripleD [OF tr _ pre run] show ?thesis by (simp add: quota_inv_def quota_def)
qed

text \<open>
  C13: a Redis outage silences throttled rules. When every connection or every \<open>GET\<close> of \<open>check_dedup\<close> fails, no
  sequence of triggers adds an alarm of a rule with a positive throttle.
\<close>

theorem redis_outage_silences_rules:
  assumes "\<And>n i. \<not> rd_ok E n i (Connect ''check_dedup'') \<or> (\<forall>key. \<not> rd_ok E n i (GetKey key))"
    and "0 < t" and "rules_throttled r t w"
    and "forE ctxs (evaluate_and_trigger (redis_ops E) repo) env w = (res, w')"
  shows "alarm_count r d (db w') \<le> alarm_count r d (db w)"
proof (rule suppressed_engine_silent [OF _ assms(3, 4)])
  show "st_check_dedup (redis_ops E) r d t' n s" if "t \<le> t'" for t' n s
    using assms(1) [of "rd_writes s" "Some n"] assms(2) that by (auto simp: redis_ops_def redis_check_dedup_def Let_def)
qed

theorem redis_outage_silences_rules_witness:
  "alarm_count 1 ''dev'' (db (snd
     ((forE [sample_ctx 90] (evaluate_and_trigger (redis_ops failing_reads) sample_repo)
        :: (_, unit, _) io) all_done redis_world))) \<le> alarm_count 1 ''dev'' (db redis_world)"
  by (rule redis_outage_silences_rules [OF _ _ rules_throttled_redis_world prod.collapse [symmetric]])
    (simp_all add: failing_reads_def)

section \<open>Lost marks and expired keys\<close>

text \<open>
  A failed mark is an error of \<open>mark_triggered\<close>, which \<open>fire_rule\<close> ignores as the engine does: the actions are
  executed, and the next check, if Redis answers it, does not suppress the rule.
\<close>

lemma lost_mark_not_suppressed:
  assumes "\<not> rd_ok E (rd_writes s) (Some m) (SetKey (dedup_key r d))" and "rd_entries s (dedup_key r d) = None"
    and "rd_ok E (Suc (rd_writes s)) (Some now) (Connect ''check_dedup'')"
    and "rd_ok E (Suc (rd_writes s)) (Some now) (GetKey (dedup_key r d))"
  shows "(\<exists>e. fst (redis_mark_triggered E r d t m s) = Inl e) \<and>
    \<not> redis_check_dedup E r d t now (snd (redis_mark_triggered E r d t m s))"
  using assms by (auto simp: redis_mark_triggered_def redis_check_dedup_def redis_get_def Let_def split: option.splits)

text \<open>
  A condition that has held for three times its duration starts over on Redis, because its key has expired,
  while the in-memory store reports it as met.
\<close>

lemma redis_tracking_restarts:
  assumes sim: "store_sim E th du m s" and av: "redis_available E" and "formats E now"
    and since: "mem_tracking_since m r d = Some x" "0 < du r" "3 * du r * ns_per_min \<le> now - x"
  shows "fst (redis_check_duration E r d (du r) now s) = JustStarted \<and>
    fst (mem_check_duration r d (du r) now m) = Met"
proof
  have h: "holds_instant E (max (du r * 3 * 60) 60) (rd_entries s (duration_key r d)) (Some x)"
    using sim since(1) unfolding store_sim_def by metis
  have "\<not> now - x < max (du r * 3 * 60) 60 * ns_per_sec"
    using since(2, 3) by (simp add: ns_per_min_def ns_per_sec_def max_def)
  then show "fst (redis_check_duration E r d (du r) now s) = JustStarted"
    using since(2) \<open>formats E now\<close> holds_instant_get [where m = "rd_entries s", OF h av] av
    by (auto simp: redis_check_duration_def formats_Some Let_def)
  have "du r * ns_per_min \<le> now - x"
    using since(2, 3) by (simp add: ns_per_min_def ns_per_sec_def)
  then show "fst (mem_check_duration r d (du r) now m) = Met"
    using since(1, 2) by (simp add: mem_check_duration_def mem_tracking_since_def Let_def whole_minutes_ge_iff)
qed

end
