(* ===== verification/Schema_Store.thy ===== *)
theory Schema_Store
  imports Redis_Store Device_Api
begin

text \<open>
  The two implementations of the schema cache of \<open>backend/src/cache.rs\<close>, the enum that selects one, and the
  contract they share: a map from keys to schemas. The webhooks of \<open>Device_Api\<close> use the in-memory cache of the
  world, which is linked to this theory at its end. \<open>to_string\<close> and \<open>from_str\<close> of serde\_json are parameters.
\<close>

section \<open>The trait and its implementations\<close>

record 'c schema_ops =
  sc_get :: "string \<Rightarrow> instant \<Rightarrow> 'c \<Rightarrow> store_error + json option"
  sc_set :: "string \<Rightarrow> json \<Rightarrow> instant \<Rightarrow> 'c \<Rightarrow> (store_error + unit) \<times> 'c"
  sc_remove :: "string \<Rightarrow> instant \<Rightarrow> 'c \<Rightarrow> (store_error + unit) \<times> 'c"

definition mem_schema_get :: "string \<Rightarrow> instant \<Rightarrow> (string \<rightharpoonup> json) \<Rightarrow> store_error + json option" where
  "mem_schema_get product_id now m = Inr (m product_id)"

definition mem_schema_set ::
  "string \<Rightarrow> json \<Rightarrow> instant \<Rightarrow> (string \<rightharpoonup> json) \<Rightarrow> (store_error + unit) \<times> (string \<rightharpoonup> json)" where
  "mem_schema_set product_id schema now m = (Inr (), m(product_id \<mapsto> schema))"

definition mem_schema_remove ::
  "string \<Rightarrow> instant \<Rightarrow> (string \<rightharpoonup> json) \<Rightarrow> (store_error + unit) \<times> (string \<rightharpoonup> json)" where
  "mem_schema_remove product_id now m = (Inr (), m(product_id := None))"

definition mem_schema_ops :: "(string \<rightharpoonup> json) schema_ops" where
  "mem_schema_ops = \<lparr>sc_get = mem_schema_get, sc_set = mem_schema_set, sc_remove = mem_schema_remove\<rparr>"

record json_text =
  to_string :: "json \<Rightarrow> string option"
  from_str :: "string \<Rightarrow> json option"

definition get_key :: "string \<Rightarrow> string" where
  "get_key product_id = ''schema:'' @ product_id"

definition redis_schema_get ::
  "redis_client \<Rightarrow> json_text \<Rightarrow> string \<Rightarrow> instant \<Rightarrow> redis_store \<Rightarrow> store_error + json option" where
  "redis_schema_get E J product_id now s =
     (let ok = rd_ok E (rd_writes s) (Some now); key = get_key product_id
      in if \<not> ok (Connect ''get'') then Inl (StoreError ''Failed to get redis connection'')
         else if \<not> ok (GetKey key) then Inl (StoreError ''Failed to get value from redis'')
         else case redis_get E now key (rd_entries s) of
                Some v \<Rightarrow>
                  (case from_str J v of
                     Some schema \<Rightarrow> Inr (Some schema)
                   | None \<Rightarrow> Inl (StoreError ''Failed to deserialize schema from redis''))
              | None \<Rightarrow> Inr None)"

definition redis_schema_set ::
  "redis_client \<Rightarrow> json_text \<Rightarrow> string \<Rightarrow> json \<Rightarrow> instant \<Rightarrow> redis_store \<Rightarrow> (store_error + unit) \<times> redis_store" where
  "redis_schema_set E J product_id schema now s =
     (let ok = rd_ok E (rd_writes s) (Some now); key = get_key product_id;
          s' = s\<lparr>rd_writes := Suc (rd_writes s)\<rparr>
      in if \<not> ok (Connect ''set'') then (Inl (StoreError ''Failed to get redis connection''), s')
         else case to_string J schema of
                None \<Rightarrow> (Inl (StoreError ''Failed to serialize schema to string''), s')
              | Some v \<Rightarrow>
                  if \<not> ok (SetKey key) then (Inl (StoreError ''Failed to set value in redis''), s')
                  else (Inr (), s'\<lparr>rd_entries := (rd_entries s)(key \<mapsto> (v, None))\<rparr>))"

definition redis_schema_remove ::
  "redis_client \<Rightarrow> string \<Rightarrow> instant \<Rightarrow> redis_store \<Rightarrow> (store_error + unit) \<times> redis_store" where
  "redis_schema_remove E product_id now s =
     (let ok = rd_ok E (rd_writes s) (Some now); key = get_key product_id;
          s' = s\<lparr>rd_writes := Suc (rd_writes s)\<rparr>
      in if \<not> ok (Connect ''_remove'') then (Inl (StoreError ''Failed to get redis connection''), s')
         else if \<not> ok (DelKeys [key]) then (Inl (StoreError ''Failed to delete value from redis''), s')
         else (Inr (), s'\<lparr>rd_entries := redis_del [key] (rd_entries s)\<rparr>))"

definition redis_schema_ops :: "redis_client \<Rightarrow> json_text \<Rightarrow> redis_store schema_ops" where
  "redis_schema_ops E J =
     \<lparr>sc_get = redis_schema_get E J, sc_set = redis_schema_set E J, sc_remove = redis_schema_remove E\<rparr>"

text \<open>The enum \<open>SchemaCache\<close> dispatches to the implementation it holds.\<close>

datatype schema_cache_kind = InMemory "string \<rightharpoonup> json" | Redis redis_store

definition schema_cache_ops :: "redis_client \<Rightarrow> json_text \<Rightarrow> schema_cache_kind schema_ops" where
  "schema_cache_ops E J =
     \<lparr>sc_get = (\<lambda>product_id now c. case c of
        InMemory cache \<Rightarrow> mem_schema_get product_id now cache
      | Redis cache \<Rightarrow> redis_schema_get E J product_id now cache),
      sc_set = (\<lambda>product_id schema now c. case c of
        InMemory cache \<Rightarrow> apsnd InMemory (mem_schema_set product_id schema now cache)
      | Redis cache \<Rightarrow> apsnd Redis (redis_schema_set E J product_id schema now cache)),
      sc_remove = (\<lambda>product_id now c. case c of
        InMemory cache \<Rightarrow> apsnd InMemory (mem_schema_remove product_id now cache)
      | Redis cache \<Rightarrow> apsnd Redis (redis_schema_remove E product_id now cache))\<rparr>"

section \<open>The contract\<close>

text \<open>
  A cache is a map: \<open>lookup\<close> reads it, \<open>sound\<close> is its invariant and \<open>storable\<close> says which schemas it can store
  without loss.
\<close>

datatype schema_write = SetSchema string json | RemoveSchema string

fun run_write :: "'c schema_ops \<Rightarrow> schema_write \<times> instant \<Rightarrow> 'c \<Rightarrow> 'c" where
  "run_write ops (SetSchema k v, now) c = snd (sc_set ops k v now c)"
| "run_write ops (RemoveSchema k, now) c = snd (sc_remove ops k now c)"

fun write_map :: "schema_write \<times> instant \<Rightarrow> (string \<rightharpoonup> json) \<Rightarrow> (string \<rightharpoonup> json)" where
  "write_map (SetSchema k v, now) m = m(k \<mapsto> v)"
| "write_map (RemoveSchema k, now) m = m(k := None)"

definition storable_write :: "(json \<Rightarrow> bool) \<Rightarrow> schema_write \<times> instant \<Rightarrow> bool" where
  "storable_write storable w \<longleftrightarrow> (case fst w of SetSchema _ v \<Rightarrow> storable v | RemoveSchema _ \<Rightarrow> True)"

locale schema_map =
  fixes ops :: "'c schema_ops"
    and lookup :: "'c \<Rightarrow> string \<Rightarrow> json option"
    and sound :: "'c \<Rightarrow> bool"
    and storable :: "json \<Rightarrow> bool"
  assumes get_lookup: "sound c \<Longrightarrow> sc_get ops k now c = Inr (lookup c k)"
    and set_ok: "sound c \<Longrightarrow> storable v \<Longrightarrow> fst (sc_set ops k v now c) = Inr ()"
    and set_sound: "sound c \<Longrightarrow> storable v \<Longrightarrow> sound (snd (sc_set ops k v now c))"
    and set_lookup: "sound c \<Longrightarrow> storable v \<Longrightarrow> lookup (snd (sc_set ops k v now c)) k' = (if k' = k then Some v else lookup c k')"
    and remove_ok: "sound c \<Longrightarrow> fst (sc_remove ops k now c) = Inr ()"
    and remove_sound: "sound c \<Longrightarrow> sound (snd (sc_remove ops k now c))"
    and remove_lookup: "sound c \<Longrightarrow> lookup (snd (sc_remove ops k now c)) k' = (if k' = k then None else lookup c k')"
begin

lemma run_write_step:
  "sound c \<Longrightarrow> storable_write storable w \<Longrightarrow>
   sound (run_write ops w c) \<and> lookup (run_write ops w c) = write_map w (lookup c)"
  by (cases w; cases "fst w")
    (auto simp: storable_write_def set_sound set_lookup remove_sound remove_lookup fun_eq_iff)

text \<open>After any writes a read returns what the same writes leave in a map.\<close>

lemma get_after_writes:
  "sound c \<Longrightarrow> list_all (storable_write storable) ws \<Longrightarrow>
   sc_get ops k now (fold (run_write ops) ws c) = Inr (fold write_map ws (lookup c) k)"
proof (induction ws arbitrary: c)
  case (Cons w ws)
  then show ?case using run_write_step [of c w] by auto
qed (simp add: get_lookup)

end

interpretation mem_schema: schema_map mem_schema_ops "\<lambda>m. m" "\<lambda>_. True" "\<lambda>_. True"
  by unfold_locales (simp_all add: mem_schema_ops_def mem_schema_get_def mem_schema_set_def mem_schema_remove_def)

section \<open>Redis implements the contract\<close>

definition redis_schema_lookup :: "json_text \<Rightarrow> redis_store \<Rightarrow> string \<Rightarrow> json option" where
  "redis_schema_lookup J s k = Option.bind (rd_entries s (get_key k)) (\<lambda>(v, _). from_str J v)"

definition redis_schemas_sound :: "json_text \<Rightarrow> redis_store \<Rightarrow> bool" where
  "redis_schemas_sound J s \<longleftrightarrow>
     (\<forall>k v x. rd_entries s (get_key k) = Some (v, x) \<longrightarrow> x = None \<and> from_str J v \<noteq> None)"

definition round_trips :: "json_text \<Rightarrow> json \<Rightarrow> bool" where
  "round_trips J v \<longleftrightarrow> (case to_string J v of Some t \<Rightarrow> from_str J t = Some v | None \<Rightarrow> False)"

lemma get_key_inject [simp]: "get_key k = get_key k' \<longleftrightarrow> k = k'"
  by (simp add: get_key_def)

lemma redis_schema_map:
  assumes av: "redis_available E"
  shows "schema_map (redis_schema_ops E J) (redis_schema_lookup J) (redis_schemas_sound J) (round_trips J)"
proof
  show "sc_get (redis_schema_ops E J) k now c = Inr (redis_schema_lookup J c k)" if "redis_schemas_sound J c" for k now c
  proof -
    have "rd_entries c (get_key k) = None \<or> (\<exists>v y. rd_entries c (get_key k) = Some (v, None) \<and> from_str J v = Some y)"
      using that unfolding redis_schemas_sound_def by (cases "rd_entries c (get_key k)") force+
    with av show ?thesis
      by (auto simp: redis_schema_ops_def redis_schema_get_def redis_schema_lookup_def redis_get_def Let_def)
  qed
qed (use av in \<open>auto simp: redis_schema_ops_def redis_schema_set_def redis_schema_remove_def redis_schema_lookup_def
      redis_schemas_sound_def round_trips_def redis_del_def Let_def split: option.splits\<close>)

text \<open>
  The two caches agree: after the same writes of schemas that survive serialisation, a read from Redis returns
  what a read from memory returns.
\<close>

lemma redis_schema_agrees:
  assumes "redis_available E" and "redis_schemas_sound J s" and "redis_schema_lookup J s = m"
    and "list_all (storable_write (round_trips J)) ws"
  shows "sc_get (redis_schema_ops E J) k now (fold (run_write (redis_schema_ops E J)) ws s) =
    sc_get mem_schema_ops k now (fold (run_write mem_schema_ops) ws m)"
proof -
  have "list_all (storable_write (\<lambda>_. True)) ws"
    by (simp add: list_all_iff storable_write_def split: schema_write.split)
  from mem_schema.get_after_writes [OF TrueI this]
    schema_map.get_after_writes [OF redis_schema_map [OF assms(1)] assms(2, 4)]
  show ?thesis by (simp add: assms(3))
qed

text \<open>The keys of the schema cache and of the rule state store are disjoint, so they can share a server.\<close>

lemma schema_keys_disjoint: "get_key k \<noteq> dedup_key r d" "get_key k \<noteq> duration_key r d"
  by (simp_all add: get_key_def dedup_key_def duration_key_def)

text \<open>
  The link to the webhooks: the calls of \<open>Device_Api\<close> are those of the in-memory cache.
\<close>

lemma device_schema_calls:
  "schema_get k env w = (case mem_schema_get k now (schema_cache w) of Inl _ \<Rightarrow> (Inl CallFailed, w) | Inr r \<Rightarrow> (Inr r, w))"
  "snd (schema_set k v env w) = w\<lparr>schema_cache := snd (mem_schema_set k v now (schema_cache w))\<rparr>"
  "snd (schema_remove k env w) = w\<lparr>schema_cache := snd (mem_schema_remove k now (schema_cache w))\<rparr>"
  by (simp_all add: schema_get_def schema_set_def schema_remove_def mem_schema_get_def mem_schema_set_def mem_schema_remove_def)

end
