(* ===== verification/Ca.thy ===== *)
theory Ca
  imports Registry
begin

text \<open>
  The certificate authority: \<open>backend/src/ca/generator.rs\<close> (device, CA and server certificates) and
  \<open>backend/src/ca/mod.rs\<close> (its files). The record \<open>rcgen\<close> holds the certificate library: key pairs, issuers and
  certificates are its own types, key pairs are drawn at random (the argument numbers the draw);
  signing is a function of its arguments, so that what is random in a signature is part of the drawn key. A file system is
  its files and directories; the record \<open>fs_env\<close> says which calls fail, and a failing write may leave a file that
  was only partly written; the error of a call that fails is named after the call. Dates are unbounded.
\<close>

section \<open>Certificates\<close>

datatype dn_type = CommonName

record cert_params =
  cp_not_before :: instant
  cp_not_after :: instant
  cp_distinguished_name :: "(dn_type \<times> string) list"
  cp_subject_alt_names :: "string list"
  cp_is_ca :: bool

record ('k, 'i, 'c) rcgen =
  default_params :: cert_params
  key_generate :: "nat \<Rightarrow> 'k option"
  key_from_pem :: "string \<Rightarrow> 'k option"
  serialize_pem :: "'k \<Rightarrow> string"
  issuer_from_ca_cert_pem :: "string \<Rightarrow> 'k \<Rightarrow> 'i option"
  signed_by :: "cert_params \<Rightarrow> 'k \<Rightarrow> 'i \<Rightarrow> 'c option"
  self_signed :: "cert_params \<Rightarrow> 'k \<Rightarrow> 'c option"
  pem :: "'c \<Rightarrow> string"
  dns_name :: "string \<Rightarrow> string option"

definition days :: "int \<Rightarrow> int" where
  "days n = n * 86400 * ns_per_sec"

text \<open>As in the code, the name \<open>dn\<close> of the device is built and not used.\<close>

definition issue_cert ::
  "('k, 'i, 'c) rcgen \<Rightarrow> nat \<Rightarrow> string \<Rightarrow> string \<Rightarrow> string \<Rightarrow> string \<Rightarrow> instant \<Rightarrow> instant \<Rightarrow> (string \<times> string) option" where
  "issue_cert R draw ca_cert_pem ca_key_pem product_id device_id start_at end_at =
     Option.bind (key_from_pem R ca_key_pem) (\<lambda>ca_key_pair.
     Option.bind (issuer_from_ca_cert_pem R ca_cert_pem ca_key_pair) (\<lambda>issuer.
     Option.bind (key_generate R draw) (\<lambda>ee_key.
     let dn = [(CommonName, product_id @ ''/'' @ device_id)];
         ee_params = (default_params R)\<lparr>cp_not_before := start_at, cp_not_after := end_at\<rparr>
     in Option.bind (signed_by R ee_params ee_key issuer) (\<lambda>ee_cert.
        Some (pem R ee_cert, serialize_pem R ee_key)))))"

definition generate_ca ::
  "('k, 'i, 'c) rcgen \<Rightarrow> nat \<Rightarrow> instant \<Rightarrow> string \<Rightarrow> int \<Rightarrow> (string \<times> string) option" where
  "generate_ca R draw now name valid_days =
     Option.bind (key_generate R draw) (\<lambda>key_pair.
     let dn = [(CommonName, name)];
         ca_params = (default_params R)\<lparr>cp_is_ca := True, cp_distinguished_name := dn,
           cp_not_after := now + days valid_days, cp_not_before := now\<rparr>
     in Option.bind (self_signed R ca_params key_pair) (\<lambda>certificate.
        Some (pem R certificate, serialize_pem R key_pair)))"

definition issue_server_cert ::
  "('k, 'i, 'c) rcgen \<Rightarrow> nat \<Rightarrow> string \<Rightarrow> string \<Rightarrow> string list \<Rightarrow> instant \<Rightarrow> instant \<Rightarrow> (string \<times> string) option" where
  "issue_server_cert R draw ca_cert_pem ca_key_pem san start_at end_at =
     Option.bind (key_from_pem R ca_key_pem) (\<lambda>ca_key_pair.
     Option.bind (issuer_from_ca_cert_pem R ca_cert_pem ca_key_pair) (\<lambda>issuer.
     Option.bind (key_generate R draw) (\<lambda>ee_key.
     let ee_params = (default_params R)\<lparr>cp_subject_alt_names := san, cp_not_before := start_at, cp_not_after := end_at\<rparr>
     in Option.bind (signed_by R ee_params ee_key issuer) (\<lambda>ee_cert.
        Some (pem R ee_cert, serialize_pem R ee_key)))))"

section \<open>The files of the authority\<close>

record ca_config =
  cc_ca_dir :: string
  cc_name :: string
  cc_valid_days :: int
  cc_domain :: string

record file_system =
  fs_files :: "string \<rightharpoonup> string"
  fs_dirs :: "string set"

datatype write_outcome = Written | NotWritten | PartlyWritten string

record fs_env =
  fs_readable :: "string \<Rightarrow> bool"
  fs_mkdir_ok :: bool
  fs_write :: "string \<Rightarrow> write_outcome"

definition path_join :: "string \<Rightarrow> string \<Rightarrow> string" where
  "path_join dir name = (if dir = [] then name else if last dir = CHR ''/'' then dir @ name else dir @ ''/'' @ name)"

definition path_exists :: "file_system \<Rightarrow> string \<Rightarrow> bool" where
  "path_exists F p \<longleftrightarrow> fs_files F p \<noteq> None \<or> p \<in> fs_dirs F"

definition read_to_string :: "fs_env \<Rightarrow> file_system \<Rightarrow> string \<Rightarrow> string option" where
  "read_to_string V F p = (if fs_readable V p then fs_files F p else None)"

definition write_file :: "fs_env \<Rightarrow> string \<Rightarrow> string \<Rightarrow> file_system \<Rightarrow> bool \<times> file_system" where
  "write_file V p content F =
     (case fs_write V p of
        Written \<Rightarrow> (True, F\<lparr>fs_files := (fs_files F)(p \<mapsto> content)\<rparr>)
      | NotWritten \<Rightarrow> (False, F)
      | PartlyWritten part \<Rightarrow> (False, F\<lparr>fs_files := (fs_files F)(p \<mapsto> part)\<rparr>))"

definition load_ca :: "('k, 'i, 'c) rcgen \<Rightarrow> fs_env \<Rightarrow> file_system \<Rightarrow> ca_config \<Rightarrow> string + unit" where
  "load_ca R V F config =
     (let ca_cert_path = path_join (cc_ca_dir config) ''ca.pem'';
          ca_key_path = path_join (cc_ca_dir config) ''ca.key''
      in case read_to_string V F ca_cert_path of
           None \<Rightarrow> Inl (''CA certificate not found at '' @ ca_cert_path @ ''; generate one with `--generate-ca`'')
         | Some cert_pem \<Rightarrow>
             (case read_to_string V F ca_key_path of
                None \<Rightarrow> Inl (''CA key not found at '' @ ca_key_path @ ''; generate one with `--generate-ca`'')
              | Some key_pem \<Rightarrow>
                  if Option.bind (key_from_pem R key_pem) (issuer_from_ca_cert_pem R cert_pem) = None
                  then Inl (''CA certificate/key at '' @ cc_ca_dir config @ '' are invalid; regenerate with `--generate-ca`'')
                  else Inr ()))"

text \<open>The writes, in order; the first that fails ends the program.\<close>

fun write_files :: "fs_env \<Rightarrow> (string \<times> string) list \<Rightarrow> file_system \<Rightarrow> (string + unit) \<times> file_system" where
  "write_files V [] F = (Inr (), F)"
| "write_files V ((p, content) # rest) F =
     (case write_file V p content F of
        (False, F') \<Rightarrow> (Inl ''write failed'', F')
      | (True, F') \<Rightarrow> write_files V rest F')"

definition generate_ca_files ::
  "('k, 'i, 'c) rcgen \<Rightarrow> nat \<Rightarrow> instant \<Rightarrow> instant \<Rightarrow> fs_env \<Rightarrow> ca_config \<Rightarrow> file_system \<Rightarrow> (string + unit) \<times> file_system" where
  "generate_ca_files R draw now1 now V config F =
     (let ca_dir = cc_ca_dir config;
          ca_cert_path = path_join ca_dir ''ca.pem''; ca_key_path = path_join ca_dir ''ca.key'';
          server_cert_path = path_join ca_dir ''server.pem''; server_key_path = path_join ca_dir ''server.key''
      in if path_exists F ca_cert_path \<or> path_exists F ca_key_path
         then (Inl (''CA already exists at '' @ ca_dir @ ''; refusing to overwrite (delete it first to regenerate)''), F)
         else if \<not> path_exists F ca_dir \<and> \<not> fs_mkdir_ok V then (Inl ''create_dir_all failed'', F)
         else let F1 = (if path_exists F ca_dir then F else F\<lparr>fs_dirs := insert ca_dir (fs_dirs F)\<rparr>)
         in case generate_ca R draw now1 (cc_name config) (cc_valid_days config) of
              None \<Rightarrow> (Inl ''generate_ca failed'', F1)
            | Some (ca_cert_pem, ca_key_pem) \<Rightarrow>
                (case dns_name R (cc_domain config) of
                   None \<Rightarrow> (Inl ''invalid domain'', F1)
                 | Some domain \<Rightarrow>
                     (case issue_server_cert R (Suc draw) ca_cert_pem ca_key_pem [domain] now
                             (now + days (cc_valid_days config)) of
                        None \<Rightarrow> (Inl ''issue_server_cert failed'', F1)
                      | Some (server_pem, server_key_pem) \<Rightarrow>
                          write_files V [(ca_cert_path, ca_cert_pem), (ca_key_path, ca_key_pem),
                            (server_key_path, server_key_pem), (server_cert_path, server_pem)] F1)))"

text \<open>What the certificate handlers of \<open>Registry\<close> get from these files and this generator.\<close>

definition ca_files_libs :: "('k, 'i, 'c) rcgen \<Rightarrow> nat \<Rightarrow> fs_env \<Rightarrow> file_system \<Rightarrow> ca_config \<Rightarrow> ca_libs" where
  "ca_files_libs R draw V F config =
     \<lparr>read_ca_cert = read_to_string V F (path_join (cc_ca_dir config) ''ca.pem''),
      read_ca_key = read_to_string V F (path_join (cc_ca_dir config) ''ca.key''),
      gen_issue_cert = issue_cert R draw\<rparr>"

section \<open>Paths and writes\<close>

definition ca_paths :: "ca_config \<Rightarrow> string set" where
  "ca_paths config = path_join (cc_ca_dir config) ` {''ca.pem'', ''ca.key'', ''server.pem'', ''server.key''}"

definition ca_present :: "ca_config \<Rightarrow> file_system \<Rightarrow> bool" where
  "ca_present config F \<longleftrightarrow>
     path_exists F (path_join (cc_ca_dir config) ''ca.pem'') \<or> path_exists F (path_join (cc_ca_dir config) ''ca.key'')"

lemma path_join_inject [simp]: "path_join d n = path_join d n' \<longleftrightarrow> n = n'"
  by (simp add: path_join_def)

lemma path_exists_mkdir [simp]:
  "fs_files (if b then F else F\<lparr>fs_dirs := D\<rparr>) = fs_files F"
  by simp

lemma write_files_frame:
  "p \<notin> fst ` set ws \<Longrightarrow> fs_files (snd (write_files V ws F)) p = fs_files F p"
  by (induction V ws F rule: write_files.induct)
    (auto simp: write_file_def split: write_outcome.splits bool.splits prod.splits)

lemma write_files_done:
  "write_files V ws F = (Inr (), F') \<Longrightarrow> distinct (map fst ws) \<Longrightarrow> (p, content) \<in> set ws \<Longrightarrow> fs_files F' p = Some content"
proof (induction V ws F rule: write_files.induct)
  case (2 V q c rest F)
  from 2(2) have w: "fs_write V q = Written"
    and rest: "write_files V rest (F\<lparr>fs_files := (fs_files F)(q \<mapsto> c)\<rparr>) = (Inr (), F')"
    by (auto simp: write_file_def split: write_outcome.splits)
  show ?case
  proof (cases "(p, content) = (q, c)")
    case True
    with 2(3) have "p \<notin> fst ` set rest" by simp
    from write_files_frame [OF this, of V "F\<lparr>fs_files := (fs_files F)(q \<mapsto> c)\<rparr>"] rest True show ?thesis by simp
  next
    case False
    then show ?thesis using 2(1) [OF _ refl rest] 2(3, 4) w by (auto simp: write_file_def)
  qed
qed simp

lemma generate_refuses: "ca_present config F \<Longrightarrow> generate_ca_files R draw n1 n V config F =
  (Inl (''CA already exists at '' @ cc_ca_dir config @ ''; refusing to overwrite (delete it first to regenerate)''), F)"
  by (simp add: generate_ca_files_def ca_present_def Let_def)

lemma generate_frame:
  "p \<notin> ca_paths config \<Longrightarrow> fs_files (snd (generate_ca_files R draw n1 n V config F)) p = fs_files F p"
  by (auto simp: generate_ca_files_def ca_paths_def Let_def write_files_frame simp del: write_files.simps
      split: option.split)

section \<open>Properties\<close>

text \<open>The documented behaviour of the library: keys survive their PEM form, and a CA certificate is an issuer.\<close>

definition rcgen_sound :: "('k, 'i, 'c) rcgen \<Rightarrow> bool" where
  "rcgen_sound R \<longleftrightarrow>
     (\<forall>k. key_from_pem R (serialize_pem R k) = Some k) \<and>
     (\<forall>params k c. cp_is_ca params \<longrightarrow> self_signed R params k = Some c \<longrightarrow>
        issuer_from_ca_cert_pem R (pem R c) k \<noteq> None)"

lemma generate_done:
  assumes "generate_ca_files R draw n1 n V config F = (Inr (), F')"
  obtains cert key where "\<not> ca_present config F" "generate_ca R draw n1 (cc_name config) (cc_valid_days config) = Some (cert, key)"
    "fs_files F' (path_join (cc_ca_dir config) ''ca.pem'') = Some cert"
    "fs_files F' (path_join (cc_ca_dir config) ''ca.key'') = Some key"
proof -
  have absent: "\<not> ca_present config F" using assms generate_refuses [of config F R draw n1 n V] by auto
  from assms absent obtain cert key sc sk F1 where g: "generate_ca R draw n1 (cc_name config) (cc_valid_days config) = Some (cert, key)"
    and w: "write_files V [(path_join (cc_ca_dir config) ''ca.pem'', cert), (path_join (cc_ca_dir config) ''ca.key'', key),
        (path_join (cc_ca_dir config) ''server.key'', sk), (path_join (cc_ca_dir config) ''server.pem'', sc)] F1 = (Inr (), F')"
    by (auto simp: generate_ca_files_def ca_present_def Let_def simp del: write_files.simps split: if_splits option.splits prod.splits)
  show thesis by (rule that [OF absent g]) (rule write_files_done [OF w]; simp)+
qed

text \<open>
  C29: a generated CA can be loaded and is never replaced. If \<open>--generate-ca\<close> succeeds there was no CA before, the
  CA it wrote passes the check at start-up wherever the two files can be read, no file outside the four of the
  CA directory has changed, and every later \<open>--generate-ca\<close> refuses and changes nothing.
\<close>

theorem generated_ca_loads:
  assumes "rcgen_sound R" and "generate_ca_files R draw n1 n V config F = (Inr (), F')"
    and "fs_readable V' (path_join (cc_ca_dir config) ''ca.pem'')" "fs_readable V' (path_join (cc_ca_dir config) ''ca.key'')"
  shows "load_ca R V' F' config = Inr () \<and> \<not> ca_present config F \<and>
    (\<forall>p. p \<notin> ca_paths config \<longrightarrow> fs_files F' p = fs_files F p) \<and>
    (\<forall>draw n1 n V. \<exists>e. generate_ca_files R draw n1 n V config F' = (Inl e, F'))"
proof (intro conjI allI impI)
  from assms(2) obtain cert key where absent: "\<not> ca_present config F"
    and g: "generate_ca R draw n1 (cc_name config) (cc_valid_days config) = Some (cert, key)"
    and f: "fs_files F' (path_join (cc_ca_dir config) ''ca.pem'') = Some cert"
      "fs_files F' (path_join (cc_ca_dir config) ''ca.key'') = Some key" by (rule generate_done)
  from g obtain k params c where "cp_is_ca params" "self_signed R params k = Some c" "cert = pem R c" "key = serialize_pem R k"
    by (force simp: generate_ca_def Let_def split: bind_splits)
  with assms(1) have "Option.bind (key_from_pem R key) (issuer_from_ca_cert_pem R cert) \<noteq> None"
    unfolding rcgen_sound_def by simp
  with f assms(3, 4) show "load_ca R V' F' config = Inr ()" by (simp add: load_ca_def read_to_string_def Let_def)
  show "\<not> ca_present config F" by (rule absent)
  show "fs_files F' p = fs_files F p" if "p \<notin> ca_paths config" for p
    using generate_frame [OF that, of R draw n1 n V F] assms(2) by simp
  have "ca_present config F'" using f by (simp add: ca_present_def path_exists_def)
  then show "\<exists>e. generate_ca_files R draw n1 n V config F' = (Inl e, F')" for draw n1 n V
    by (simp add: generate_refuses)
qed

text \<open>A library of keys that are numbers, written in unary, and certificates that are their parameters.\<close>

definition sample_rcgen :: "(nat, nat, cert_params) rcgen" where
  "sample_rcgen =
     \<lparr>default_params = \<lparr>cp_not_before = 0, cp_not_after = 0, cp_distinguished_name = [], cp_subject_alt_names = [],
        cp_is_ca = False\<rparr>,
      key_generate = Some, key_from_pem = (\<lambda>s. Some (length s)), serialize_pem = (\<lambda>k. replicate k CHR ''k''),
      issuer_from_ca_cert_pem = (\<lambda>s k. if s = ''ca'' then Some k else None), signed_by = (\<lambda>params k i. Some params),
      self_signed = (\<lambda>params k. Some params), pem = (\<lambda>params. if cp_is_ca params then ''ca'' else ''device''),
      dns_name = Some\<rparr>"

definition sample_ca_config :: ca_config where
  "sample_ca_config = \<lparr>cc_ca_dir = ''conf'', cc_name = ''CA'', cc_valid_days = 1, cc_domain = ''*.x''\<rparr>"

definition healthy_fs :: fs_env where
  "healthy_fs = \<lparr>fs_readable = (\<lambda>_. True), fs_mkdir_ok = True, fs_write = (\<lambda>_. Written)\<rparr>"

lemma sample_rcgen_sound: "rcgen_sound sample_rcgen"
  by (simp add: rcgen_sound_def sample_rcgen_def)

lemma sample_generate:
  "fst (generate_ca_files sample_rcgen 0 0 0 healthy_fs sample_ca_config \<lparr>fs_files = Map.empty, fs_dirs = {}\<rparr>) = Inr ()"
  by (simp add: generate_ca_files_def sample_rcgen_def sample_ca_config_def healthy_fs_def path_exists_def
      generate_ca_def issue_server_cert_def write_file_def Let_def)

theorem generated_ca_loads_witness:
  "load_ca sample_rcgen healthy_fs
     (snd (generate_ca_files sample_rcgen 0 0 0 healthy_fs sample_ca_config \<lparr>fs_files = Map.empty, fs_dirs = {}\<rparr>))
     sample_ca_config = Inr ()"
proof -
  let ?run = "generate_ca_files sample_rcgen 0 0 0 healthy_fs sample_ca_config \<lparr>fs_files = Map.empty, fs_dirs = {}\<rparr>"
  have "?run = (Inr (), snd ?run)" using sample_generate by (metis prod.collapse)
  from generated_ca_loads [OF sample_rcgen_sound this, of healthy_fs] show ?thesis by (simp add: healthy_fs_def)
qed

text \<open>
  The writes are not atomic: when the certificate is written and the key is not, the program can neither start
  nor generate a new CA.
\<close>

lemma interrupted_generation_stuck:
  assumes "fst (generate_ca_files R draw n1 n V config F) \<noteq> Inr ()"
    and "fs_files F' = fs_files (snd (generate_ca_files R draw n1 n V config F))"
    and "fs_files F' (path_join (cc_ca_dir config) ''ca.pem'') = Some cert"
    and "fs_files F' (path_join (cc_ca_dir config) ''ca.key'') = None"
  shows "(\<exists>e. load_ca R V' F' config = Inl e) \<and> (\<exists>e. generate_ca_files R draw' n1' n' V' config F' = (Inl e, F'))"
proof -
  have "ca_present config F'" using assms(3) by (simp add: ca_present_def path_exists_def)
  then show ?thesis using assms(4)
    by (auto simp: generate_refuses load_ca_def read_to_string_def Let_def split: option.split)
qed

text \<open>
  C30: device certificates carry no identity. Two successful requests for certificates with the same validity,
  for whatever products and devices and in whatever states, are answered with the same certificate and key when
  the library draws the same key: the common name the generator builds never reaches the certificate.
\<close>

theorem device_certificate_without_identity:
  assumes "(issue_cert_handler (ca_files_libs R draw V F config) req :: ('s, api_error, issue_cert_response) io) env w = (Inr r, w1)"
    and "(issue_cert_handler (ca_files_libs R draw V F config) req' :: ('s, api_error, issue_cert_response) io) env' w' = (Inr r', w1')"
    and "ir_start_at req = ir_start_at req'" "ir_end_at req = ir_end_at req'"
  shows "r = r'"
proof -
  have issued: "\<exists>cert key. read_to_string V F (path_join (cc_ca_dir config) ''ca.pem'') = Some cert \<and>
      read_to_string V F (path_join (cc_ca_dir config) ''ca.key'') = Some key \<and>
      issue_cert R draw cert key [] [] (ir_start_at q) (ir_end_at q) = Some (is_cert_pem s, is_key_pem s)"
    if "(issue_cert_handler (ca_files_libs R draw V F config) q :: ('s, api_error, issue_cert_response) io) e v = (Inr s, v1)"
    for q s v v1 e
    using that unfolding issue_cert_handler_def ca_files_libs_def
    by (auto elim!: bindE_InrE simp: Inr_simps issue_cert_def split: if_splits)
  from issued [OF assms(1)] issued [OF assms(2)] assms(3, 4) show ?thesis by auto
qed

text \<open>A request for a device, and one for another device of another product.\<close>

definition sample_issue :: "string \<Rightarrow> string \<Rightarrow> issue_cert_request" where
  "sample_issue p d = \<lparr>ir_product_id = p, ir_device_id = d, ir_force = True, ir_start_at = 0, ir_end_at = 1\<rparr>"

definition sample_ca_files :: file_system where
  "sample_ca_files =
     \<lparr>fs_files = [path_join ''conf'' ''ca.pem'' \<mapsto> ''ca'', path_join ''conf'' ''ca.key'' \<mapsto> ''k''], fs_dirs = {''conf''}\<rparr>"

lemma sample_issue_succeeds:
  assumes "valid_identifier p" "valid_identifier d"
  shows "\<exists>r w'. (issue_cert_handler (ca_files_libs sample_rcgen 7 healthy_fs sample_ca_files sample_ca_config) (sample_issue p d)
      :: (unit, api_error, issue_cert_response) io) all_done empty_world = (Inr r, w')"
proof -
  have ok: "validate_identifier p ''product_id'' = Inr ()" "validate_identifier d ''device_id'' = Inr ()"
    using assms by (simp_all add: validate_identifier_ok)
  have libs: "read_ca_cert (ca_files_libs sample_rcgen 7 healthy_fs sample_ca_files sample_ca_config) = Some ''ca''"
    "read_ca_key (ca_files_libs sample_rcgen 7 healthy_fs sample_ca_files sample_ca_config) = Some ''k''"
    "gen_issue_cert (ca_files_libs sample_rcgen 7 healthy_fs sample_ca_files sample_ca_config) ''ca'' ''k'' p d 0 1 =
       Some (''device'', replicate 7 CHR ''k'')"
    by (simp_all add: ca_files_libs_def read_to_string_def healthy_fs_def sample_ca_files_def sample_ca_config_def
        issue_cert_def sample_rcgen_def Let_def)
  show ?thesis
    by (simp add: issue_cert_handler_def sample_issue_def ok libs prog_simps cert_create_def device_upsert_def all_done_def
        now_utc_def db_exec_def ext_call_def Let_def split: prod.split)
qed

theorem device_certificate_without_identity_witness:
  "fst ((issue_cert_handler (ca_files_libs sample_rcgen 7 healthy_fs sample_ca_files sample_ca_config) (sample_issue ''p'' ''d'')
      :: (unit, api_error, issue_cert_response) io) all_done empty_world) =
   fst ((issue_cert_handler (ca_files_libs sample_rcgen 7 healthy_fs sample_ca_files sample_ca_config) (sample_issue ''q'' ''e'')
      :: (unit, api_error, issue_cert_response) io) all_done empty_world)"
proof -
  have "valid_identifier ''p''" "valid_identifier ''d''" "valid_identifier ''q''" "valid_identifier ''e''" by code_simp+
  with sample_issue_succeeds [of "''p''" "''d''"] sample_issue_succeeds [of "''q''" "''e''"]
    device_certificate_without_identity [of sample_rcgen 7 healthy_fs sample_ca_files sample_ca_config
      "sample_issue ''p'' ''d''" all_done empty_world _ _ "sample_issue ''q'' ''e''" all_done empty_world]
  show ?thesis by (force simp: sample_issue_def)
qed

end
