(* ===== verification/Startup.thy ===== *)
theory Startup
  imports Config
begin

text \<open>
  The start of the process: \<open>main\<close> of \<open>backend/src/main.rs\<close>, from the arguments to the listening server and its
  shutdown, as a program over the files and a trace of events, in which \<open>?\<close> ends the run. What it calls (the
  database, Redis, S3, the network) is the record \<open>startup_env\<close>; the check of the CA files and their generation are
  those of \<open>Ca\<close>. A failure of the telemetry is only printed, and the end of the server, by an error or by
  ctrl-c, only leads to the shutdown. The retry task is modelled in \<open>Webhook_Retry\<close>; here only whether it runs
  matters: \<open>tokio::time::interval\<close> panics on a period of zero, which ends the task but not the process.
\<close>

record args =
  ag_export_openapi :: "string option"
  ag_generate_ca :: bool

record startup_env =
  se_app_config :: "string option"
  se_port :: "string option"
  se_read_file :: "string \<Rightarrow> string option"
  se_parse_toml :: "string \<Rightarrow> toml option"
  se_export_ok :: "string \<Rightarrow> bool"
  se_connect_ok :: "string \<Rightarrow> bool"
  se_migrate_ok :: bool
  se_redis_open_ok :: "string \<Rightarrow> bool"
  se_s3_new_ok :: "s3_config \<Rightarrow> bool"
  se_bind_ok :: "nat \<Rightarrow> bool"
  se_drained :: bool

datatype backend = InMemoryBackend | RedisBackend string

datatype event =
    OpenapiExported string
  | CaGenerated
  | CaLoaded
  | DatabaseConnected string
  | Migrated
  | SchemaCacheOpened backend
  | S3Opened
  | StateStoreOpened backend
  | FactoryKeys "string list"
  | RetryTaskRunning int int
  | RetryTaskPanicked
  | Listening nat
  | Cancelled
  | TasksDrained bool

definition parse_u16 :: "string \<Rightarrow> nat option" where
  "parse_u16 s = Option.bind (parse_u32 s) (\<lambda>n. if n < 2 ^ 16 then Some n else None)"

definition listen_port :: "startup_env \<Rightarrow> nat" where
  "listen_port S = (case Option.bind (se_port S) parse_u16 of Some p \<Rightarrow> p | None \<Rightarrow> 8080)"

section \<open>Programs with early exit\<close>

type_synonym 'a startup = "file_system \<times> event list \<Rightarrow> 'a option \<times> file_system \<times> event list"

definition okS :: "'a \<Rightarrow> 'a startup" where "okS x = (\<lambda>(F, es). (Some x, F, es))"

definition failS :: "'a startup" where "failS = (\<lambda>(F, es). (None, F, es))"

definition bindS :: "'a startup \<Rightarrow> ('a \<Rightarrow> 'b startup) \<Rightarrow> 'b startup" where
  "bindS m f = (\<lambda>st. case m st of (None, st') \<Rightarrow> (None, st') | (Some x, st') \<Rightarrow> f x st')"

definition event :: "event \<Rightarrow> unit startup" where "event e = (\<lambda>(F, es). (Some (), F, es @ [e]))"

text \<open>A call that fails with \<open>?\<close>, or leaves its event.\<close>

definition tryS :: "bool \<Rightarrow> event \<Rightarrow> unit startup" where
  "tryS ok e = (if ok then event e else failS)"

definition load_ca_files :: "('k, 'i, 'c) rcgen \<Rightarrow> fs_env \<Rightarrow> ca_config \<Rightarrow> unit startup" where
  "load_ca_files R V ca = (\<lambda>(F, es). tryS (load_ca R V F ca = Inr ()) CaLoaded (F, es))"

definition generate_files :: "('k, 'i, 'c) rcgen \<Rightarrow> nat \<Rightarrow> instant \<Rightarrow> instant \<Rightarrow> fs_env \<Rightarrow> ca_config \<Rightarrow> unit startup" where
  "generate_files R draw n1 n V ca =
     (\<lambda>(F, es). case generate_ca_files R draw n1 n V ca F of
        (Inr _, F') \<Rightarrow> event CaGenerated (F', es)
      | (Inl _, F') \<Rightarrow> failS (F', es))"

text \<open>The two matches on the cache type, for the schema cache and for the state store.\<close>

definition open_backend :: "startup_env \<Rightarrow> cache_config \<Rightarrow> (backend \<Rightarrow> event) \<Rightarrow> unit startup" where
  "open_backend S c opened =
     (case ch_cache_type c of
        RedisCache \<Rightarrow>
          let redis_url = (case ch_redis_url c of Some url \<Rightarrow> url | None \<Rightarrow> ''redis://127.0.0.1/'')
          in tryS (se_redis_open_ok S redis_url) (opened (RedisBackend redis_url))
      | Memory \<Rightarrow> event (opened InMemoryBackend))"

definition spawn_retry_task :: "int \<Rightarrow> int \<Rightarrow> unit startup" where
  "spawn_retry_task retry_interval max_retries =
     event (if retry_interval = 0 then RetryTaskPanicked else RetryTaskRunning retry_interval max_retries)"

definition serve :: "('k, 'i, 'c) rcgen \<Rightarrow> fs_env \<Rightarrow> startup_env \<Rightarrow> config \<Rightarrow> unit startup" where
  "serve R V S config =
     bindS (load_ca_files R V (cg_ca config)) (\<lambda>_.
     bindS (tryS (se_connect_ok S (cg_database_url config)) (DatabaseConnected (cg_database_url config))) (\<lambda>_.
     bindS (tryS (se_migrate_ok S) Migrated) (\<lambda>_.
     bindS (open_backend S (cg_cache config) SchemaCacheOpened) (\<lambda>_.
     bindS (case cg_s3 config of Some s3 \<Rightarrow> tryS (se_s3_new_ok S s3) S3Opened | None \<Rightarrow> okS ()) (\<lambda>_.
     bindS (open_backend S (cg_cache config) StateStoreOpened) (\<lambda>_.
     bindS (event (FactoryKeys (cg_factory config))) (\<lambda>_.
     bindS (spawn_retry_task (webhook_retry_interval_seconds (cg_alarm config)) (webhook_max_retries (cg_alarm config))) (\<lambda>_.
     let port = listen_port S in
     bindS (tryS (se_bind_ok S port) (Listening port)) (\<lambda>_.
     bindS (event Cancelled) (\<lambda>_.
     event (TasksDrained (se_drained S))))))))))))"

text \<open>The result: whether \<open>main\<close> returns \<open>Ok\<close>, the files it leaves, and its trace.\<close>

definition run_main ::
  "('k, 'i, 'c) rcgen \<Rightarrow> nat \<Rightarrow> instant \<Rightarrow> instant \<Rightarrow> fs_env \<Rightarrow> startup_env \<Rightarrow> args \<Rightarrow> unit startup" where
  "run_main R draw n1 n V S args =
     (case ag_export_openapi args of
        Some output_path \<Rightarrow> tryS (se_export_ok S output_path) (OpenapiExported output_path)
      | None \<Rightarrow>
          let config_path = (case se_app_config S of Some p \<Rightarrow> p | None \<Rightarrow> ''config.toml'')
          in case from_file (se_read_file S) (se_parse_toml S) config_path of
               None \<Rightarrow> failS
             | Some config \<Rightarrow>
                 if ag_generate_ca args then generate_files R draw n1 n V (cg_ca config)
                 else serve R V S config)"

section \<open>Properties\<close>

lemmas startup_defs = bindS_def tryS_def event_def failS_def okS_def load_ca_files_def

text \<open>What has to work before the server listens.\<close>

definition backend_of :: "cache_config \<Rightarrow> backend" where
  "backend_of c = (if ch_cache_type c = Memory then InMemoryBackend
     else RedisBackend (if ch_redis_url c = None then ''redis://127.0.0.1/'' else the (ch_redis_url c)))"

definition port_of :: "string option \<Rightarrow> nat" where
  "port_of var = (if \<exists>s n. var = Some s \<and> parse_u32 s = Some n \<and> n < 2 ^ 16 then the (parse_u32 (the var)) else 8080)"

lemma listen_port_of: "listen_port S = port_of (se_port S)"
  by (auto simp: listen_port_def port_of_def parse_u16_def split: option.split bind_splits)

lemma open_backend_run:
  "open_backend S c ev (F, es) =
     (if (\<forall>url. backend_of c = RedisBackend url \<longrightarrow> se_redis_open_ok S url) then (Some (), F, es @ [ev (backend_of c)])
      else (None, F, es))"
  by (auto simp: open_backend_def backend_of_def startup_defs Let_def split: cache_type.split option.split)

definition prepared :: "('k, 'i, 'c) rcgen \<Rightarrow> fs_env \<Rightarrow> startup_env \<Rightarrow> config \<Rightarrow> file_system \<Rightarrow> bool" where
  "prepared R V S config F \<longleftrightarrow>
     load_ca R V F (cg_ca config) = Inr () \<and> se_connect_ok S (cg_database_url config) \<and> se_migrate_ok S \<and>
     (\<forall>url. backend_of (cg_cache config) = RedisBackend url \<longrightarrow> se_redis_open_ok S url) \<and>
     (\<forall>s3. cg_s3 config = Some s3 \<longrightarrow> se_s3_new_ok S s3) \<and> se_bind_ok S (port_of (se_port S))"

definition serving_trace :: "startup_env \<Rightarrow> config \<Rightarrow> event list" where
  "serving_trace S config =
     [CaLoaded, DatabaseConnected (cg_database_url config), Migrated, SchemaCacheOpened (backend_of (cg_cache config))] @
     (if cg_s3 config = None then [] else [S3Opened]) @
     [StateStoreOpened (backend_of (cg_cache config)), FactoryKeys (cg_factory config),
      (if webhook_retry_interval_seconds (cg_alarm config) = 0 then RetryTaskPanicked
       else RetryTaskRunning (webhook_retry_interval_seconds (cg_alarm config)) (webhook_max_retries (cg_alarm config))),
      Listening (port_of (se_port S)), Cancelled, TasksDrained (se_drained S)]"

lemma serve_run:
  "serve R V S config (F, []) = (Some (), F, serving_trace S config) \<and> prepared R V S config F \<or>
   (\<exists>es. serve R V S config (F, []) = (None, F, es) \<and> (\<forall>p. Listening p \<notin> set es)) \<and> \<not> prepared R V S config F"
  unfolding serve_def prepared_def serving_trace_def spawn_retry_task_def Let_def listen_port_of
  by (cases "load_ca R V F (cg_ca config) = Inr ()"; cases "se_connect_ok S (cg_database_url config)"; cases "se_migrate_ok S";
      cases "\<forall>url. backend_of (cg_cache config) = RedisBackend url \<longrightarrow> se_redis_open_ok S url";
      cases "cg_s3 config"; cases "se_bind_ok S (port_of (se_port S))")
    (simp_all add: startup_defs open_backend_run)

lemma main_run:
  "run_main R draw n1 n V S args =
     (case (ag_export_openapi args, from_file (se_read_file S) (se_parse_toml S)
        (case se_app_config S of Some path \<Rightarrow> path | None \<Rightarrow> ''config.toml'')) of
        (Some path, _) \<Rightarrow> tryS (se_export_ok S path) (OpenapiExported path)
      | (None, None) \<Rightarrow> failS
      | (None, Some config) \<Rightarrow> if ag_generate_ca args then generate_files R draw n1 n V (cg_ca config) else serve R V S config)"
  by (simp add: run_main_def Let_def split: option.split)

text \<open>
  C31: the server listens exactly on a prepared system. \<open>main\<close> reaches the point where it listens exactly when
  it runs without the two special options, reads a configuration, and the CA files load, the database
  connects and migrates, the configured backend opens (Redis at the configured URL, or at the local default), the
  object store opens if one is configured, and the port is free: that of \<open>PORT\<close> when it is a number
  below \<open>2^16\<close>, and 8080 otherwise. These come in this order, each once and each before anything that needs it, the
  caches and the state store on the same backend, and the retry task before the port is opened, with the
  configured interval and number of retries, except that an interval of zero ends it at once; no file is
  changed, and the run ends with the cancellation of the tasks and returns \<open>Ok\<close>.
\<close>

theorem server_starts_in_order:
  assumes "run_main R draw n1 n V S args (F, []) = (res, F', es)"
  shows "((\<exists>p. Listening p \<in> set es) \<longleftrightarrow>
      ag_export_openapi args = None \<and> \<not> ag_generate_ca args \<and>
      (\<exists>config. from_file (se_read_file S) (se_parse_toml S)
          (case se_app_config S of Some path \<Rightarrow> path | None \<Rightarrow> ''config.toml'') = Some config \<and> prepared R V S config F)) \<and>
    ((\<exists>p. Listening p \<in> set es) \<longrightarrow> res = Some () \<and> F' = F \<and>
      (\<exists>config. from_file (se_read_file S) (se_parse_toml S)
          (case se_app_config S of Some path \<Rightarrow> path | None \<Rightarrow> ''config.toml'') = Some config \<and> es = serving_trace S config))"
proof (cases "ag_export_openapi args = None \<and> \<not> ag_generate_ca args \<and> from_file (se_read_file S) (se_parse_toml S)
          (case se_app_config S of Some path \<Rightarrow> path | None \<Rightarrow> ''config.toml'') \<noteq> None")
  case False
  then have "Listening p \<notin> set es" for p
    using assms unfolding main_run
    by (auto simp: startup_defs generate_files_def split: option.splits if_splits prod.splits sum.splits)
  with False show ?thesis by auto
next
  case True
  then obtain config where config: "from_file (se_read_file S) (se_parse_toml S)
          (case se_app_config S of Some path \<Rightarrow> path | None \<Rightarrow> ''config.toml'') = Some config" by blast
  with True assms have "serve R V S config (F, []) = (res, F', es)" by (simp add: main_run)
  moreover have "Listening (port_of (se_port S)) \<in> set (serving_trace S config)" by (simp add: serving_trace_def)
  ultimately show ?thesis using serve_run [of R V S config F] True config by auto
qed

text \<open>A machine on which everything works, with the sample CA and a configuration that selects Redis.\<close>

definition sample_startup :: startup_env where
  "sample_startup =
     \<lparr>se_app_config = None, se_port = Some ''9000'', se_read_file = (\<lambda>_. Some []),
      se_parse_toml = (\<lambda>_. Some (TTable [(''database'', TTable [(''url'', TString ''db'')]),
        (''cache'', TTable [(''cache_type'', TString ''redis'')])])),
      se_export_ok = (\<lambda>_. True), se_connect_ok = (\<lambda>_. True), se_migrate_ok = True, se_redis_open_ok = (\<lambda>_. True),
      se_s3_new_ok = (\<lambda>_. True), se_bind_ok = (\<lambda>_. True), se_drained = True\<rparr>"

definition plain_args :: args where
  "plain_args = \<lparr>ag_export_openapi = None, ag_generate_ca = False\<rparr>"

lemma sample_config:
  "from_file (se_read_file sample_startup) (se_parse_toml sample_startup) ''config.toml'' =
     Some (config_default\<lparr>cg_database_url := ''db'', cg_cache := \<lparr>ch_cache_type = RedisCache, ch_redis_url = None\<rparr>\<rparr>)"
  by (simp add: from_file_def sample_startup_def de_config_def config_default_def de_database_config_def de_string_def
      table_of_def required_def defaulted_def optional_def de_cache_config_def de_cache_type_def)

lemma sample_prepared:
  "prepared sample_rcgen healthy_fs sample_startup
     (config_default\<lparr>cg_database_url := ''db'', cg_cache := \<lparr>ch_cache_type = RedisCache, ch_redis_url = None\<rparr>\<rparr>) sample_ca_files"
  by (simp add: prepared_def sample_startup_def config_default_def load_ca_def
      read_to_string_def healthy_fs_def sample_ca_files_def ca_config_default_def sample_rcgen_def Let_def)

theorem server_starts_in_order_witness:
  "snd (snd (run_main sample_rcgen 0 0 0 healthy_fs sample_startup plain_args (sample_ca_files, []))) =
     [CaLoaded, DatabaseConnected ''db'', Migrated, SchemaCacheOpened (RedisBackend ''redis://127.0.0.1/''),
      StateStoreOpened (RedisBackend ''redis://127.0.0.1/''), FactoryKeys [], RetryTaskRunning 30 3, Listening 9000,
      Cancelled, TasksDrained True]"
proof -
  obtain res F' es where run: "run_main sample_rcgen 0 0 0 healthy_fs sample_startup plain_args (sample_ca_files, []) = (res, F', es)"
    by (metis prod_cases3)
  have port: "port_of (se_port sample_startup) = 9000"
    by (simp add: port_of_def sample_startup_def parse_u32_def parse_digits_def strip_sign_def
        is_ascii_digit_def digits_val_def digit_val_def u32_max_def)
  have env: "se_app_config sample_startup = None" "se_drained sample_startup" "ag_export_openapi plain_args = None" "\<not> ag_generate_ca plain_args"
    by (simp_all add: sample_startup_def plain_args_def)
  from server_starts_in_order [OF run] sample_prepared
  have "es = serving_trace sample_startup
      (config_default\<lparr>cg_database_url := ''db'', cg_cache := \<lparr>ch_cache_type = RedisCache, ch_redis_url = None\<rparr>\<rparr>)"
    by (simp add: env sample_config)
  also have "\<dots> = [CaLoaded, DatabaseConnected ''db'', Migrated, SchemaCacheOpened (RedisBackend ''redis://127.0.0.1/''),
      StateStoreOpened (RedisBackend ''redis://127.0.0.1/''), FactoryKeys [], RetryTaskRunning 30 3, Listening 9000,
      Cancelled, TasksDrained True]"
    by (simp add: serving_trace_def port env config_default_def backend_of_def alarm_config_default_def
        default_webhook_max_retries_def default_webhook_retry_interval_seconds_def)
  finally show ?thesis using run by simp
qed

end
