(* ===== verification/Rule_Requests.thy ===== *)
theory Rule_Requests
  imports Alarm_Api
begin

text \<open>
  The bodies of the requests that create and update alarm rules: the deserialisation of \<open>CreateAlarmRuleRequest\<close> and
  \<open>UpdateAlarmRuleRequest\<close> in \<open>backend/src/api/alarm_models.rs\<close>, with the double option that tells an absent clear
  condition from one that is null, and what it means for the stored rule. An object with a repeated field, which
  serde rejects, is not a JSON value of the model.
\<close>

section \<open>Fields\<close>

text \<open>A required field, one with a default, and an optional one: absent and null are both \<open>None\<close>.\<close>

definition field :: "(json \<Rightarrow> 'a option) \<Rightarrow> string \<Rightarrow> jmap \<Rightarrow> 'a option" where
  "field f k m = Option.bind (jmap_get m k) f"

definition field_default :: "'a \<Rightarrow> (json \<Rightarrow> 'a option) \<Rightarrow> string \<Rightarrow> jmap \<Rightarrow> 'a option" where
  "field_default x f k m = (case jmap_get m k of None \<Rightarrow> Some x | Some v \<Rightarrow> f v)"

definition field_option :: "(json \<Rightarrow> 'a option) \<Rightarrow> string \<Rightarrow> jmap \<Rightarrow> 'a option option" where
  "field_option f k m =
     (case jmap_get m k of None \<Rightarrow> Some None | Some v \<Rightarrow> if v = JNull then Some None else map_option Some (f v))"

text \<open>\<open>serde_json\<close> calls \<open>visit_none\<close> for null and \<open>visit_some\<close> for anything else; an absent field has the default \<open>None\<close>.\<close>

definition deserialize_double_option :: "string \<Rightarrow> jmap \<Rightarrow> json option option" where
  "deserialize_double_option k m =
     (case jmap_get m k of None \<Rightarrow> None | Some v \<Rightarrow> if v = JNull then Some None else Some (Some v))"

definition de_i32 :: "json \<Rightarrow> int option" where
  "de_i32 v = Option.bind (as_i64 v) (\<lambda>i. if - (2 ^ 31) \<le> i \<and> i < 2 ^ 31 then Some i else None)"

definition default_trigger_config :: json where
  "default_trigger_config = JObject []"

definition de_create_rule_request :: "json \<Rightarrow> create_alarm_rule_request option" where
  "de_create_rule_request body =
     Option.bind (as_object body) (\<lambda>m.
     Option.bind (field as_str ''product_id'' m) (\<lambda>product_id.
     Option.bind (field as_str ''name'' m) (\<lambda>name.
     Option.bind (field_option as_str ''description'' m) (\<lambda>description.
     Option.bind (field as_str ''trigger_type'' m) (\<lambda>trigger_type.
     Option.bind (field_default default_trigger_config Some ''trigger_config'' m) (\<lambda>trigger_config.
     Option.bind (field Some ''condition'' m) (\<lambda>condition.
     Option.bind (field Some ''actions'' m) (\<lambda>actions.
     Option.bind (field_default 0 de_i32 ''throttle_minutes'' m) (\<lambda>throttle_minutes.
     Option.bind (field_default 0 de_i32 ''duration_minutes'' m) (\<lambda>duration_minutes.
     Option.bind (field_option Some ''clear_condition'' m) (\<lambda>clear_condition.
     Some \<lparr>cr_product_id = product_id, cr_name = name, cr_description = description, cr_trigger_type = trigger_type,
       cr_trigger_config = trigger_config, cr_condition = condition, cr_actions = actions,
       cr_throttle_minutes = throttle_minutes, cr_duration_minutes = duration_minutes,
       cr_clear_condition = clear_condition\<rparr>)))))))))))"

definition de_update_rule_request :: "json \<Rightarrow> update_alarm_rule_request option" where
  "de_update_rule_request body =
     Option.bind (as_object body) (\<lambda>m.
     Option.bind (field_option as_str ''name'' m) (\<lambda>name.
     Option.bind (field_option as_str ''description'' m) (\<lambda>description.
     Option.bind (field_option Some ''trigger_config'' m) (\<lambda>trigger_config.
     Option.bind (field_option Some ''condition'' m) (\<lambda>condition.
     Option.bind (field_option Some ''actions'' m) (\<lambda>actions.
     Option.bind (field_option de_i32 ''throttle_minutes'' m) (\<lambda>throttle_minutes.
     Option.bind (field_option de_i32 ''duration_minutes'' m) (\<lambda>duration_minutes.
     Some \<lparr>ur_name = name, ur_description = description, ur_trigger_config = trigger_config, ur_condition = condition,
       ur_actions = actions, ur_throttle_minutes = throttle_minutes, ur_duration_minutes = duration_minutes,
       ur_clear_condition = deserialize_double_option ''clear_condition'' m\<rparr>))))))))"

section \<open>What a body does to the stored rule\<close>

text \<open>The stored rule after an update with a body.\<close>

definition updated_rule :: "update_alarm_rule_request \<Rightarrow> instant \<Rightarrow> alarm_rule \<Rightarrow> alarm_rule" where
  "updated_rule req now r =
     set_rule_fields (ur_name req) (ur_description req) (ur_trigger_config req) (ur_condition req) (ur_actions req)
       (ur_throttle_minutes req) (ur_duration_minutes req) (ur_clear_condition req) now r"

text \<open>
  The clear condition follows its field: absent keeps it, null removes it, a value replaces it. Null for any other
  field keeps the stored value, so a description cannot be removed.
\<close>

lemma set_rule_fields_read:
  "ar_clear_condition (set_rule_fields nm ds tc c a th du cl now r) = (case cl of None \<Rightarrow> ar_clear_condition r | Some v \<Rightarrow> v)"
  "ar_description (set_rule_fields nm ds tc c a th du cl now r) = (if ds \<noteq> None then ds else ar_description r)"
  "ar_condition (set_rule_fields nm ds tc c a th du cl now r) = (case c of None \<Rightarrow> ar_condition r | Some v \<Rightarrow> v)"
proof -
  define r1 where "r1 = r\<lparr>ar_updated_at := now\<rparr>"
  define r2 where "r2 = (case nm of None \<Rightarrow> r1 | Some v \<Rightarrow> r1\<lparr>ar_name := v\<rparr>)"
  define r3 where "r3 = (if ds \<noteq> None then r2\<lparr>ar_description := ds\<rparr> else r2)"
  define r4 where "r4 = (case tc of None \<Rightarrow> r3 | Some v \<Rightarrow> r3\<lparr>ar_trigger_config := v\<rparr>)"
  define r5 where "r5 = (case c of None \<Rightarrow> r4 | Some v \<Rightarrow> r4\<lparr>ar_condition := v\<rparr>)"
  define r6 where "r6 = (case a of None \<Rightarrow> r5 | Some v \<Rightarrow> r5\<lparr>ar_actions := v\<rparr>)"
  define r7 where "r7 = (case th of None \<Rightarrow> r6 | Some v \<Rightarrow> r6\<lparr>ar_throttle_minutes := v\<rparr>)"
  define r8 where "r8 = (case du of None \<Rightarrow> r7 | Some v \<Rightarrow> r7\<lparr>ar_duration_minutes := v\<rparr>)"
  have e: "set_rule_fields nm ds tc c a th du cl now r = (case cl of None \<Rightarrow> r8 | Some v \<Rightarrow> r8\<lparr>ar_clear_condition := v\<rparr>)"
    unfolding set_rule_fields_def Let_def r8_def r7_def r6_def r5_def r4_def r3_def r2_def r1_def by (rule refl)
  have k: "ar_clear_condition r8 = ar_clear_condition r7" "ar_description r8 = ar_description r7" "ar_condition r8 = ar_condition r7"
    "ar_clear_condition r7 = ar_clear_condition r6" "ar_description r7 = ar_description r6" "ar_condition r7 = ar_condition r6"
    "ar_clear_condition r6 = ar_clear_condition r5" "ar_description r6 = ar_description r5" "ar_condition r6 = ar_condition r5"
    "ar_clear_condition r4 = ar_clear_condition r3" "ar_description r4 = ar_description r3" "ar_condition r4 = ar_condition r3"
    "ar_clear_condition r2 = ar_clear_condition r1" "ar_description r2 = ar_description r1" "ar_condition r2 = ar_condition r1"
    by (simp_all add: r8_def r7_def r6_def r4_def r2_def split: option.split)
  show "ar_clear_condition (set_rule_fields nm ds tc c a th du cl now r) = (case cl of None \<Rightarrow> ar_clear_condition r | Some v \<Rightarrow> v)"
    "ar_description (set_rule_fields nm ds tc c a th du cl now r) = (if ds \<noteq> None then ds else ar_description r)"
    "ar_condition (set_rule_fields nm ds tc c a th du cl now r) = (case c of None \<Rightarrow> ar_condition r | Some v \<Rightarrow> v)"
    unfolding e by (simp_all add: k r5_def r3_def r1_def split: option.split)
qed

lemma de_update_fields:
  assumes "de_update_rule_request (JObject m) = Some req"
  shows "ur_clear_condition req = deserialize_double_option ''clear_condition'' m"
    and "field_option as_str ''description'' m = Some (ur_description req)"
    and "field_option Some ''condition'' m = Some (ur_condition req)"
  using assms by (auto simp: de_update_rule_request_def as_object_def split: bind_splits)

lemma clear_condition_update:
  assumes "de_update_rule_request (JObject m) = Some req"
  shows "ar_clear_condition (updated_rule req now r) =
    (case jmap_get m ''clear_condition'' of None \<Rightarrow> ar_clear_condition r | Some v \<Rightarrow> if v = JNull then None else Some v)"
  using de_update_fields(1) [OF assms]
  by (simp add: updated_rule_def set_rule_fields_read deserialize_double_option_def split: option.split)

lemma null_keeps_other_fields:
  assumes "de_update_rule_request (JObject m) = Some req"
  shows "jmap_get m ''description'' \<in> {None, Some JNull} \<Longrightarrow> ar_description (updated_rule req now r) = ar_description r"
    and "jmap_get m ''condition'' \<in> {None, Some JNull} \<Longrightarrow> ar_condition (updated_rule req now r) = ar_condition r"
  using de_update_fields(2, 3) [OF assms]
  by (auto simp: updated_rule_def set_rule_fields_read field_option_def)

text \<open>Minutes that pass the deserialisation fit the 32-bit columns.\<close>

lemma create_request_minutes:
  assumes "de_create_rule_request body = Some req"
  shows "- (2 ^ 31) \<le> cr_throttle_minutes req \<and> cr_throttle_minutes req < 2 ^ 31 \<and>
    - (2 ^ 31) \<le> cr_duration_minutes req \<and> cr_duration_minutes req < 2 ^ 31"
  using assms
  by (auto simp: de_create_rule_request_def field_default_def de_i32_def split: bind_splits option.splits if_splits)

end
