(* ===== verification/Engine_Duration.thy ===== *)
theory Engine_Duration
  imports Engine_Behaviour
begin

text \<open>
  Rules with a duration, over any history of triggers: an alarm needs an unbroken run of reports on which
  the condition held, as long as the configured duration. Proved from the contract of the state store
  alone, in the locale \<open>rule_state_store\<close>, for the whole engine: the loop over the rules, the resets on
  an unsatisfied report and those after clearing.
\<close>

section \<open>Programs that return\<close>

definition returns :: "('s, 'e, 'a) io \<Rightarrow> bool" where
  "returns m \<longleftrightarrow> (\<forall>env w. \<not> isl (fst (m env w)))"

named_theorems returns_intros \<open>a program returns if its parts do\<close>

lemma returns_basic [returns_intros]:
  "returns (ret x)" "returns now_utc" "returns (store_call f)" "returns (ignoreE m)"
  by (simp_all add: returns_def ret_def now_utc_def store_call_def ignoreE_def matchE_def split: prod.split sum.split)

lemma returns_matchE [returns_intros]:
  "(\<And>x. returns (f x)) \<Longrightarrow> (\<And>e. returns (h e)) \<Longrightarrow> returns (matchE m f h)"
  by (simp add: returns_def matchE_def split: prod.split sum.split)

lemma returns_bindE [returns_intros]: "returns m \<Longrightarrow> (\<And>x. returns (f x)) \<Longrightarrow> returns (bindE m f)"
  unfolding returns_def bindE_def by (auto split: prod.split sum.split) (metis fst_conv isl_def)

lemma returns_cases [returns_intros]:
  "(b \<Longrightarrow> returns m) \<Longrightarrow> (\<not> b \<Longrightarrow> returns n) \<Longrightarrow> returns (if b then m else n)"
  "returns m \<Longrightarrow> (\<And>y. returns (f y)) \<Longrightarrow> returns (case x of None \<Rightarrow> m | Some y \<Rightarrow> f y)"
  by (simp_all split: option.split)

lemma returns_process_rule: "returns (process_rule ops repo ctx rule)"
  unfolding process_rule_def duration_gate_def fire_rule_def check_dedup_def mark_triggered_def check_duration_def
    reset_duration_def by (intro returns_intros)

lemma returns_forE [returns_intros]: "(\<And>x. returns (f x)) \<Longrightarrow> returns (forE xs f)"
  by (induction xs) (auto intro: returns_intros)

lemma returns_step:
  assumes "returns m"
  shows "snd (bindE m f env w) = snd (f (projr (fst (m env w))) env (snd (m env w)))"
  using assms unfolding returns_def bindE_def
  by (auto split: prod.split sum.split) (metis fst_conv isl_def)

lemma forE_split:
  assumes "\<And>x. returns (f x)"
  shows "snd (forE (xs @ x # ys) f env w) = snd (forE ys f env (snd (f x env (snd (forE xs f env w)))))"
  by (induction xs arbitrary: w) (simp_all add: returns_step assms ret_def)

section \<open>What a trigger does to the tracking\<close>

lemma frame_view_mono: "frame v m \<Longrightarrow> (\<And>w w'. v w = v w' \<Longrightarrow> u w = u w') \<Longrightarrow> frame u m"
  unfolding frame_def by blast

context rule_state_store
begin

text \<open>Since when the condition of the rule holds, its number of alarms, and the cached rules.\<close>

definition tview where "tview r d w = (tracking_since (state_store w) r d, cached_rules w)"
definition dview where "dview r d w = (tview r d w, alarm_count r d (db w))"

lemma tview_of_engine: "frame (engine_view r d) m \<Longrightarrow> frame (tview r d) m"
  by (erule frame_view_mono) (simp add: engine_view_def tview_def)

lemma dview_of_engine: "frame (engine_view r d) m \<Longrightarrow> frame (dview r d) m"
  by (erule frame_view_mono) (simp add: engine_view_def tview_def dview_def)

lemma frame_now: "frame (tview r d) now_utc" "frame (dview r d) now_utc"
  by (intro frame_now_utc; simp add: tview_def dview_def)+

lemma frame_dview_store:
  assumes "\<And>s. tracking_since (snd (f s)) r d = tracking_since s r d"
  shows "frame (tview r d) (store_call f)" "frame (dview r d) (store_call f)"
  using assms by (simp_all add: frame_def store_call_run tview_def dview_def)

lemma frame_tview_insert: "frame (tview r d) (insert_alarm ri rn p dv l m tv tt)"
  unfolding insert_alarm_def by (intro frame_db_exec) (simp_all add: tview_def)

lemma frame_tview_execute: "frame (tview r d) (execute_actions repo actions ctx ri rn)"
  unfolding execute_actions_def by (intro frame_intros frame_tview_insert frame_now) (intro tview_of_engine frame_intros)+

lemma frame_tview_fire: "frame (tview r d) (fire_rule ops repo rule ctx)"
  unfolding fire_rule_def mark_triggered_def
  by (intro frame_intros frame_now frame_dview_store frame_tview_execute) (simp add: mark_triggered_frame)

lemma frame_dview_process_other:
  "(ar_id rule, ctx_device_id ctx) \<noteq> (r, d) \<Longrightarrow> frame (dview r d) (process_rule ops repo ctx rule)"
  unfolding process_rule_def duration_gate_def fire_rule_def check_dedup_def mark_triggered_def check_duration_def
    reset_duration_def
  by (intro frame_intros frame_now frame_dview_store)
    (auto simp: store_specs intro: dview_of_engine frame_view_execute_other)

lemma frame_dview_clear_other:
  "(ar_id rule, ctx_device_id ctx) \<noteq> (r, d) \<Longrightarrow> frame (dview r d) (clear_rule ops ctx rule)"
  unfolding clear_rule_def reset_duration_def query_active_alarms_for_clear_def
  by (intro frame_intros frame_dview_store) (auto simp: store_specs intro: dview_of_engine frame_intros)

text \<open>Clearing keeps the number of alarms; it may reset the tracking.\<close>

definition keeps_or_resets where
  "keeps_or_resets r d T k C w \<longleftrightarrow> (tracking_since (state_store w) r d = None \<or> tracking_since (state_store w) r d = T) \<and>
     alarm_count r d (db w) = k \<and> cached_rules w = C"

lemma keeps_or_resets_dview: "frame (dview r d) m \<Longrightarrow> keeps E (keeps_or_resets r d T k C) m"
  by (erule keeps_frame) (simp add: dview_def tview_def keeps_or_resets_def)

lemma keeps_or_resets_clear: "keeps E (keeps_or_resets r d T k C) (clear_rule ops ctx rule)"
proof -
  have reset: "keeps E (keeps_or_resets r d T k C) (reset_duration ops ri dv)" for ri dv
    unfolding reset_duration_def triple_def store_call_run by (simp add: keeps_or_resets_def store_specs)
  show ?thesis
    unfolding clear_rule_def query_active_alarms_for_clear_def
    by (intro triple_intros reset) (rule keeps_or_resets_dview, rule dview_of_engine, rule frame_view_writes)+
qed

text \<open>The report carries the property the rule watches, for this device.\<close>

end

definition observed :: "alarm_rule \<Rightarrow> string \<Rightarrow> trigger_context \<Rightarrow> bool" where
  "observed rule d ctx \<longleftrightarrow> ctx_device_id ctx = d \<and> ctx_trigger_type ctx = Property \<and>
     rule_actual_value Property rule ctx \<noteq> None"

definition satisfied :: "alarm_rule \<Rightarrow> string \<Rightarrow> trigger_context \<Rightarrow> bool" where
  "satisfied rule d ctx \<longleftrightarrow> ctx_device_id ctx = d \<and> ctx_trigger_type ctx = Property \<and>
     (\<exists>v. rule_actual_value Property rule ctx = Some v \<and> evaluate (ar_condition rule) v)"

lemma property_type: "trigger_type_from_str ''property'' = Some Property"
  by (simp add: trigger_type_from_str_def)

context rule_state_store
begin

text \<open>The rule's own turn in the loop.\<close>

lemma process_own:
  fixes w :: "'s world"
  assumes rule: "ar_id rule = r" "ar_trigger_type rule = ''property''" "0 < ar_duration_minutes rule"
    and d: "ctx_device_id ctx = d"
    and w': "w' = snd ((process_rule ops repo ctx rule :: ('s, 'e, unit) io) env w)"
  shows "cached_rules w' = cached_rules w"
    and "\<not> observed rule d ctx \<Longrightarrow> dview r d w' = dview r d w"
    and "observed rule d ctx \<Longrightarrow> \<not> satisfied rule d ctx \<Longrightarrow>
      tracking_since (state_store w') r d = None \<and> alarm_count r d (db w') = alarm_count r d (db w)"
    and "satisfied rule d ctx \<Longrightarrow>
      tracking_since (state_store w') r d =
        Some (case tracking_since (state_store w) r d of Some m \<Rightarrow> m | None \<Rightarrow> now_at env (tick w)) \<and>
      (alarm_count r d (db w') \<noteq> alarm_count r d (db w) \<longrightarrow>
        (\<exists>m. tracking_since (state_store w) r d = Some m \<and> m + ar_duration_minutes rule * ns_per_min \<le> now_at env (tick w)))"
proof -
  note run = process_rule_def property_type rule(2,3) ret_def bindE_def reset_duration_def store_call_run
  show unseen: "dview r d w' = dview r d w" if "\<not> observed rule d ctx"
    using that d unfolding w' by (auto simp: run observed_def split: option.split)
  show failed: "tracking_since (state_store w') r d = None \<and> alarm_count r d (db w') = alarm_count r d (db w)"
    if "observed rule d ctx" "\<not> satisfied rule d ctx"
    using that d rule(1) unfolding w' by (auto simp: run observed_def satisfied_def store_specs)
  have sat: "cached_rules w' = cached_rules w \<and> tracking_since (state_store w') r d =
        Some (case tracking_since (state_store w) r d of Some m \<Rightarrow> m | None \<Rightarrow> now_at env (tick w)) \<and>
      (alarm_count r d (db w') \<noteq> alarm_count r d (db w) \<longrightarrow>
        (\<exists>m. tracking_since (state_store w) r d = Some m \<and> m + ar_duration_minutes rule * ns_per_min \<le> now_at env (tick w)))"
    if holds: "satisfied rule d ctx"
  proof -
    let ?now = "now_at env (tick w)"
    let ?res = "st_check_duration ops r d (ar_duration_minutes rule) ?now (state_store w)"
    let ?w1 = "w\<lparr>tick := Suc (tick w), state_store := snd ?res\<rparr>"
    let ?rest = "bindE now_utc (\<lambda>n. bindE (check_dedup ops (ar_id rule) (ctx_device_id ctx)
        (ar_throttle_minutes rule) n) (\<lambda>dup. if dup then ret () else fire_rule ops repo rule ctx)) :: ('s, 'e, unit) io"
    obtain v where v: "rule_actual_value Property rule ctx = Some v" "evaluate (ar_condition rule) v"
        "ctx_trigger_type ctx = Property"
      using holds by (auto simp: satisfied_def)
    have gate: "(duration_gate ops Property rule ctx :: ('s, 'e, bool) io) env w = (Inr (fst ?res = Met), ?w1)"
      using rule d by (simp add: duration_gate_def bindE_def now_utc_def check_duration_def store_call_run ret_def
        split: duration_check_result.split)
    have "(process_rule ops repo ctx rule :: ('s, 'e, unit) io) env w = (if fst ?res \<noteq> Met then ret () else ?rest) env ?w1"
      by (simp add: process_rule_def property_type rule(2) v bindE_def [of "duration_gate ops Property rule ctx"] gate)
    then have w1: "w' = (if fst ?res = Met then snd (?rest env ?w1) else ?w1)"
      unfolding w' by (simp add: ret_def)
    have "frame (tview r d) ?rest"
      unfolding check_dedup_def by (intro frame_intros frame_now frame_dview_store frame_tview_fire) simp
    then have rest: "tview r d (snd (?rest env ?w1)) = tview r d ?w1" by (simp add: frame_def)
    have "tview r d w' = tview r d ?w1" unfolding w1 using rest by simp
    moreover have "alarm_count r d (db w') = alarm_count r d (db w)" if "fst ?res \<noteq> Met" unfolding w1 using that by simp
    moreover have "\<exists>m. tracking_since (state_store w) r d = Some m \<and> m + ar_duration_minutes rule * ns_per_min \<le> ?now"
      if "fst ?res = Met"
      using that rule(3) by (auto simp: check_duration_result split: option.splits if_splits)
    moreover have "tview r d ?w1 = (Some (case tracking_since (state_store w) r d of Some m \<Rightarrow> m | None \<Rightarrow> ?now), cached_rules w)"
      using rule(3) by (auto simp: tview_def check_duration_tracks split: option.split)
    ultimately show ?thesis unfolding tview_def by (metis prod.inject)
  qed
  then show "satisfied rule d ctx \<Longrightarrow>
      tracking_since (state_store w') r d =
        Some (case tracking_since (state_store w) r d of Some m \<Rightarrow> m | None \<Rightarrow> now_at env (tick w)) \<and>
      (alarm_count r d (db w') \<noteq> alarm_count r d (db w) \<longrightarrow>
        (\<exists>m. tracking_since (state_store w) r d = Some m \<and> m + ar_duration_minutes rule * ns_per_min \<le> now_at env (tick w)))"
    by blast
  show "cached_rules w' = cached_rules w"
  proof (cases "observed rule d ctx \<and> \<not> satisfied rule d ctx")
    case True
    then show ?thesis using d unfolding w' by (auto simp: run observed_def satisfied_def)
  next
    case False
    with unseen sat show ?thesis by (auto simp: dview_def tview_def)
  qed
qed

text \<open>One trigger, with the rules of the product cached. The tracking after it is reset, or what the
  rule's own turn left; the turn saw the tracking from before.\<close>

lemma trigger_effect:
  fixes w :: "'s world"
  assumes cached: "cached_rules w (ctx_product_id ctx) = Some rules" "distinct (map ar_id rules)" "rule \<in> set rules"
    and rule: "ar_id rule = r" "ar_trigger_type rule = ''property''" "0 < ar_duration_minutes rule"
    and w': "w' = snd ((evaluate_and_trigger ops repo ctx :: ('s, 'e, unit) io) env w)"
  shows "cached_rules w' = cached_rules w"
    and "tracking_since (state_store w') r d = Some m \<Longrightarrow> observed rule d ctx \<Longrightarrow> satisfied rule d ctx"
    and "tracking_since (state_store w') r d = Some m \<Longrightarrow>
      tracking_since (state_store w) r d = Some m \<or> satisfied rule d ctx \<and> (\<exists>n. m = now_at env n)"
    and "alarm_count r d (db w') \<noteq> alarm_count r d (db w) \<Longrightarrow> satisfied rule d ctx \<and>
      (\<exists>m n. tracking_since (state_store w) r d = Some m \<and> m + ar_duration_minutes rule * ns_per_min \<le> now_at env n)"
proof -
  let ?p = "process_rule ops repo ctx :: alarm_rule \<Rightarrow> ('s, 'e, unit) io"
  let ?c = "clear_rule ops ctx :: alarm_rule \<Rightarrow> ('s, 'e, unit) io"
  obtain A B where AB: "rules = A @ rule # B" using cached(3) by (meson split_list)
  have other: "ar_id x \<noteq> r" if "x \<in> set A \<union> set B" for x using cached(2) that rule(1) unfolding AB by (auto simp: image_iff)
  define wA where "wA = snd (forE A ?p env w)"
  define w1 where "w1 = snd (?p rule env wA)"
  define w2 where "w2 = snd (forE B ?p env w1)"
  have loop_frame: "frame (dview r d) (forE xs ?p)" if "set xs \<subseteq> set A \<union> set B" for xs
    by (rule frame_forE, rule frame_dview_process_other) (use other that in blast)
  have A: "dview r d wA = dview r d w"
    unfolding wA_def using loop_frame [of A] by (simp add: frame_def)
  have B: "dview r d w2 = dview r d w1"
    unfolding w2_def using loop_frame [of B] by (simp add: frame_def)
  have loop: "snd (forE rules ?p env w) = w2"
    unfolding AB w2_def w1_def wA_def by (rule forE_split) (rule returns_process_rule)
  have "w' = snd (bindE (forE rules ?p) (\<lambda>_. if ctx_trigger_type ctx = Property then forE rules ?c else ret ()) env w)"
    unfolding w' evaluate_and_trigger_def by (simp add: bindE_def [of "get_rules _"] bindE_def [of "ret _"] get_rules_def ret_def cached(1))
  moreover have "returns (forE rules ?p)" by (intro returns_forE returns_process_rule)
  ultimately have clears: "w' = snd ((if ctx_trigger_type ctx = Property then forE rules ?c else ret ()) env w2)"
    by (simp only: returns_step loop)
  have "keeps (\<lambda>_. True) (keeps_or_resets r d T k C) (if ctx_trigger_type ctx = Property then forE rules ?c else ret ())" for T k C
    by (intro triple_intros keeps_or_resets_clear)
  from tripleD [OF this [of "tracking_since (state_store w2) r d" "alarm_count r d (db w2)" "cached_rules w2"] _ _ prod.collapse [symmetric],
      of w2 env]
  have end': "(tracking_since (state_store w') r d = None \<or> tracking_since (state_store w') r d = tracking_since (state_store w2) r d) \<and>
      alarm_count r d (db w') = alarm_count r d (db w2) \<and> cached_rules w' = cached_rules w2"
    unfolding clears by (simp add: keeps_or_resets_def)
  have own: "cached_rules w1 = cached_rules wA \<and> (\<not> observed rule d ctx \<longrightarrow> dview r d w1 = dview r d wA) \<and>
      (observed rule d ctx \<and> \<not> satisfied rule d ctx \<longrightarrow>
        tracking_since (state_store w1) r d = None \<and> alarm_count r d (db w1) = alarm_count r d (db wA)) \<and>
      (satisfied rule d ctx \<longrightarrow> (tracking_since (state_store w1) r d =
          Some (case tracking_since (state_store wA) r d of Some m \<Rightarrow> m | None \<Rightarrow> now_at env (tick wA)) \<and>
        (alarm_count r d (db w1) \<noteq> alarm_count r d (db wA) \<longrightarrow>
          (\<exists>m. tracking_since (state_store wA) r d = Some m \<and>
             m + ar_duration_minutes rule * ns_per_min \<le> now_at env (tick wA)))))"
  proof (cases "ctx_device_id ctx = d")
    case True
    from process_own [OF rule True w1_def] show ?thesis by blast
  next
    case False
    then have "frame (dview r d) (?p rule)" by (intro frame_dview_process_other) auto
    then have "dview r d w1 = dview r d wA" unfolding w1_def by (simp add: frame_def)
    with False show ?thesis by (auto simp: observed_def satisfied_def dview_def tview_def)
  qed
  have sub: "satisfied rule d ctx \<Longrightarrow> observed rule d ctx" by (auto simp: observed_def satisfied_def)
  note views = A [unfolded dview_def tview_def prod.inject] B [unfolded dview_def tview_def prod.inject]
  show "cached_rules w' = cached_rules w" using end' own views by simp
  show "satisfied rule d ctx" if "tracking_since (state_store w') r d = Some m" "observed rule d ctx"
    using that end' own views by (metis option.distinct(1))
  show "tracking_since (state_store w) r d = Some m \<or> satisfied rule d ctx \<and> (\<exists>n. m = now_at env n)"
    if "tracking_since (state_store w') r d = Some m"
  proof (cases "satisfied rule d ctx")
    case True
    then have "Some m = Some (case tracking_since (state_store w) r d of Some m \<Rightarrow> m | None \<Rightarrow> now_at env (tick wA))"
      using that end' own views by (metis option.distinct(1))
    with True show ?thesis by (auto split: option.splits)
  next
    case False
    then have "dview r d w1 = dview r d wA" using that end' own views by (metis option.distinct(1))
    with that end' views show ?thesis by (auto simp: dview_def tview_def)
  qed
  show "satisfied rule d ctx \<and>
      (\<exists>m n. tracking_since (state_store w) r d = Some m \<and> m + ar_duration_minutes rule * ns_per_min \<le> now_at env n)"
    if "alarm_count r d (db w') \<noteq> alarm_count r d (db w)"
  proof -
    have ne: "alarm_count r d (db w1) \<noteq> alarm_count r d (db wA)" using that end' views by simp
    then have "satisfied rule d ctx" using own unfolding dview_def by (metis prod.inject)
    with own ne views show ?thesis by metis
  qed
qed

end

section \<open>Histories\<close>

text \<open>The engine run on a sequence of triggers, each with its own clock and call outcomes.\<close>

fun engine_run :: "'s store_ops \<Rightarrow> alarm_repo \<Rightarrow> (env \<times> trigger_context) list \<Rightarrow> 's world \<Rightarrow> 's world" where
  "engine_run ops repo [] w = w"
| "engine_run ops repo ((env, ctx) # ts) w =
     engine_run ops repo ts (snd ((evaluate_and_trigger ops repo ctx :: ('s, unit, unit) io) env w))"

lemma engine_run_snoc:
  "engine_run ops repo (ts @ [(env, ctx)]) w =
     snd ((evaluate_and_trigger ops repo ctx :: ('s, unit, unit) io) env (engine_run ops repo ts w))"
  by (induction ts arbitrary: w) auto

text \<open>
  In the history the condition held on a report at time \<open>m\<close> and on every later report of the device that
  carries the property.
\<close>

definition held_since :: "alarm_rule \<Rightarrow> string \<Rightarrow> instant \<Rightarrow> (env \<times> trigger_context) list \<Rightarrow> bool" where
  "held_since rule d m hist \<longleftrightarrow>
     (\<exists>before env ctx later n. hist = before @ (env, ctx) # later \<and> satisfied rule d ctx \<and> m = now_at env n \<and>
        (\<forall>(e, c)\<in>set later. observed rule d c \<longrightarrow> satisfied rule d c))"

lemma held_since_snoc:
  assumes "held_since rule d m hist" "observed rule d ctx \<longrightarrow> satisfied rule d ctx"
  shows "held_since rule d m (hist @ [(env, ctx)])"
proof -
  obtain before e c later n where "hist = before @ (e, c) # later" "satisfied rule d c" "m = now_at e n"
      "\<forall>(e, c)\<in>set later. observed rule d c \<longrightarrow> satisfied rule d c"
    using assms(1) unfolding held_since_def by blast
  then show ?thesis using assms(2) unfolding held_since_def
    by (intro exI [of _ before] exI [of _ e] exI [of _ c] exI [of _ "later @ [(env, ctx)]"] exI [of _ n]) auto
qed

lemma held_since_now: "satisfied rule d ctx \<Longrightarrow> held_since rule d (now_at env n) (hist @ [(env, ctx)])"
  unfolding held_since_def
  by (intro exI [of _ hist] exI [of _ env] exI [of _ ctx] exI [of _ "[]"] exI [of _ n]) auto

context rule_state_store
begin

lemma tracked_run_held:
  assumes "cached_rules w p = Some rules" "distinct (map ar_id rules)" "rule \<in> set rules"
    and "ar_trigger_type rule = ''property''" "0 < ar_duration_minutes rule"
    and "tracking_since (state_store w) (ar_id rule) d = None"
    and "\<forall>(e, c)\<in>set hist. ctx_product_id c = p"
  shows "cached_rules (engine_run ops repo hist w) p = Some rules \<and>
    (\<forall>m. tracking_since (state_store (engine_run ops repo hist w)) (ar_id rule) d = Some m \<longrightarrow> held_since rule d m hist)"
  using assms(7)
proof (induction hist rule: rev_induct)
  case Nil
  show ?case using assms(1,6) by simp
next
  case (snoc t hist)
  obtain env ctx where t: "t = (env, ctx)" by (cases t)
  let ?w = "engine_run ops repo hist w"
  have IH: "cached_rules ?w (ctx_product_id ctx) = Some rules"
    "\<And>m. tracking_since (state_store ?w) (ar_id rule) d = Some m \<Longrightarrow> held_since rule d m hist"
    using snoc t by auto
  note eff = trigger_effect [where w = ?w and ctx = ctx and env = env and repo = repo and 'e = unit, OF IH(1) assms(2,3) refl assms(4,5) refl]
  have "held_since rule d m (hist @ [(env, ctx)])"
    if tr: "tracking_since (state_store (engine_run ops repo (hist @ [(env, ctx)]) w)) (ar_id rule) d = Some m" for m
  proof -
    note tr' = tr [unfolded engine_run_snoc]
    consider "tracking_since (state_store ?w) (ar_id rule) d = Some m" | n where "satisfied rule d ctx" "m = now_at env n"
      using eff(3) [OF tr'] by blast
    then show ?thesis
    proof cases
      case 1
      from IH(2) [OF 1] eff(2) [OF tr'] show ?thesis by (blast intro: held_since_snoc)
    next
      case 2
      then show ?thesis by (simp add: held_since_now)
    qed
  qed
  moreover have "cached_rules (engine_run ops repo (hist @ [(env, ctx)]) w) p = Some rules"
    unfolding engine_run_snoc using eff(1) IH(1) snoc.prems t by simp
  ultimately show ?case unfolding t by blast
qed

lemma alarm_needs_run:
  assumes "cached_rules w p = Some rules" "distinct (map ar_id rules)" "rule \<in> set rules"
    and "ar_trigger_type rule = ''property''" "0 < ar_duration_minutes rule"
    and "tracking_since (state_store w) (ar_id rule) d = None"
    and "\<forall>(e, c)\<in>set (hist @ [(env, ctx)]). ctx_product_id c = p"
    and "alarm_count (ar_id rule) d (db (engine_run ops repo (hist @ [(env, ctx)]) w)) \<noteq>
      alarm_count (ar_id rule) d (db (engine_run ops repo hist w))"
  shows "satisfied rule d ctx \<and>
    (\<exists>m n. held_since rule d m hist \<and> m + ar_duration_minutes rule * ns_per_min \<le> now_at env n)"
proof -
  let ?w = "engine_run ops repo hist w"
  have run: "cached_rules ?w (ctx_product_id ctx) = Some rules"
    "\<And>m. tracking_since (state_store ?w) (ar_id rule) d = Some m \<Longrightarrow> held_since rule d m hist"
    using tracked_run_held [OF assms(1-6), of hist repo] assms(7) by auto
  from trigger_effect(4) [where w = ?w and ctx = ctx and env = env and repo = repo and 'e = unit,
      OF run(1) assms(2,3) refl assms(4,5) refl assms(8) [unfolded engine_run_snoc]] run(2)
  show ?thesis by blast
qed

end

section \<open>Properties\<close>

text \<open>
  C22. Sustained conditions. Let a property rule with a duration be among the cached rules of its product,
  and let its condition not be tracked for the device at first. Over any history of triggers of the product
  (reports of any devices, events, status changes), whatever calls fail: if a trigger adds an alarm of the
  rule for the device, then this trigger is a report of the device on which the condition holds, and the
  condition held on an earlier report, at least the configured number of minutes before the time read
  in this evaluation, and on every report of the device that carried the property since. An unsatisfied
  report in between restarts the wait.
\<close>

theorem sustained_condition_needed:
  assumes "cached_rules w p = Some rules" "distinct (map ar_id rules)" "rule \<in> set rules"
    and "ar_trigger_type rule = ''property''" "0 < ar_duration_minutes rule"
    and "mem_tracking_since (state_store w) (ar_id rule) d = None"
    and "\<forall>(e, c)\<in>set (hist @ [(env, ctx)]). ctx_product_id c = p"
    and "alarm_count (ar_id rule) d (db (engine_run in_memory_ops repo (hist @ [(env, ctx)]) w)) \<noteq>
      alarm_count (ar_id rule) d (db (engine_run in_memory_ops repo hist w))"
  shows "satisfied rule d ctx \<and>
    (\<exists>m n. held_since rule d m hist \<and> m + ar_duration_minutes rule * ns_per_min \<le> now_at env n)"
  using assms by (rule mem.alarm_needs_run)

text \<open>A rule that fires after five minutes: two hot reports, five minutes apart.\<close>

definition lasting_rule :: alarm_rule where
  "lasting_rule = sample_rule\<lparr>ar_duration_minutes := 5, ar_throttle_minutes := 0, ar_clear_condition := None\<rparr>"

definition lasting_world :: "in_memory_store world" where
  "lasting_world = sample_world\<lparr>cached_rules := [''p'' \<mapsto> [lasting_rule]]\<rparr>"

definition clock_at :: "instant \<Rightarrow> env" where
  "clock_at t = all_done\<lparr>now_at := (\<lambda>n. t)\<rparr>"

lemma clock_at_simps [simp]: "now_at (clock_at t) n = t" "outcome_at (clock_at t) n = Done"
  by (simp_all add: clock_at_def all_done_def)

lemma single_rule_trigger:
  assumes "cached_rules w (ctx_product_id ctx) = Some [rule]" "ar_clear_condition rule = None"
  shows "snd ((evaluate_and_trigger ops repo ctx :: ('s, unit, unit) io) env w) =
    snd ((process_rule ops repo ctx rule :: ('s, unit, unit) io) env w)"
proof -
  obtain x w' where "(process_rule ops repo ctx rule :: ('s, unit, unit) io) env w = (Inr x, w')"
    using returns_process_rule [of ops repo ctx rule] unfolding returns_def by (metis isl_def prod.collapse sum.exhaust)
  with assms show ?thesis
    by (simp add: evaluate_and_trigger_def bindE_def get_rules_def ret_def clear_rule_def)
qed

lemma lasting_satisfied: "satisfied lasting_rule ''dev'' (sample_ctx 90)" "rule_matches (sample_ctx 90) lasting_rule"
  using sample_rule_matches [of 90]
  by (auto simp: satisfied_def rule_matches_def lasting_rule_def rule_actual_value_def sample_ctx_def sample_rule_def
    split: option.splits)

lemma recorded_alarm_owner:
  "al_rule_id (recorded_alarm repo env n k a) = al_rule_id a" "al_device_id (recorded_alarm repo env n k a) = al_device_id a"
  "al_rule_id (new_alarm as ctx ri rn i now) = ri" "al_device_id (new_alarm as ctx ri rn i now) = ctx_device_id ctx"
  by (simp_all add: recorded_alarm_def set_webhook_def new_alarm_def split: prod.split)

lemma lasting_alarms:
  defines "h \<equiv> [(clock_at 0, sample_ctx 90)]"
  shows "alarm_count 1 ''dev'' (db (engine_run in_memory_ops sample_repo h lasting_world)) = 0"
    "alarm_count 1 ''dev'' (db (engine_run in_memory_ops sample_repo (h @ [(clock_at (5 * ns_per_min), sample_ctx 90)])
       lasting_world)) = 1"
proof -
  have r: "ar_id lasting_rule = 1" "ar_trigger_type lasting_rule = ''property''" "0 < ar_duration_minutes lasting_rule"
      "ar_clear_condition lasting_rule = None" "ar_throttle_minutes lasting_rule = 0" "ar_duration_minutes lasting_rule = 5"
    by (simp_all add: lasting_rule_def sample_rule_def)
  have ctx: "ctx_device_id (sample_ctx 90) = ''dev''" "ctx_product_id (sample_ctx 90) = ''p''" "ctx_trigger_type (sample_ctx 90) = Property"
    by (simp_all add: sample_ctx_def)
  define w1 where "w1 = snd ((process_rule in_memory_ops sample_repo (sample_ctx 90) lasting_rule
    :: (in_memory_store, unit, unit) io) (clock_at 0) lasting_world)"
  define w2 where "w2 = snd ((process_rule in_memory_ops sample_repo (sample_ctx 90) lasting_rule
    :: (in_memory_store, unit, unit) io) (clock_at (5 * ns_per_min)) w1)"
  have c0: "cached_rules lasting_world ''p'' = Some [lasting_rule]" by (simp add: lasting_world_def)
  note own = mem.process_own [OF r(1-3) ctx(1) w1_def]
  have c1: "cached_rules w1 ''p'' = Some [lasting_rule]" using own(1) c0 by simp
  have run: "engine_run in_memory_ops sample_repo h lasting_world = w1"
      "engine_run in_memory_ops sample_repo (h @ [(clock_at (5 * ns_per_min), sample_ctx 90)]) lasting_world = w2"
    using c0 c1 r(4) ctx(2) by (simp_all add: h_def single_rule_trigger w1_def [symmetric] w2_def [symmetric])
  have start: "mem_tracking_since (state_store lasting_world) 1 ''dev'' = None" "alarms (db lasting_world) = []"
    by (simp_all add: lasting_world_def sample_world_def mem_tracking_since_def in_memory_new_def empty_db_def)
  have t1: "mem_tracking_since (state_store w1) 1 ''dev'' = Some 0"
    using own(4) [OF lasting_satisfied(1)] start by simp
  have "fresh_alarm_ids (db lasting_world)" by (simp add: fresh_alarm_ids_def start)
  from mem.process_rule_alarms [OF this, of sample_repo "sample_ctx 90" lasting_rule "clock_at 0", where 'e = unit]
  have a1: "alarms (db w1) = []"
    by (simp add: w1_def [symmetric] start rule_due_def sustained_def gated_def ctx r)
  have "fresh_alarm_ids (db w1)" by (simp add: fresh_alarm_ids_def a1)
  from mem.process_rule_alarms [OF this, of sample_repo "sample_ctx 90" lasting_rule "clock_at (5 * ns_per_min)", where 'e = unit]
  have "length (alarms (db w2)) = 1 \<and> (\<forall>a\<in>set (alarms (db w2)). al_rule_id a = 1 \<and> al_device_id a = ''dev'')"
    by (simp add: w2_def [symmetric] a1 rule_due_def lasting_satisfied(2) sustained_def gated_def ctx r t1 in_throttle_window_def
      fired_alarms_def executed_alarms_def recorded_alarm_owner)
  then have "filter (\<lambda>a. al_rule_id a = 1 \<and> al_device_id a = ''dev'') (alarms (db w2)) = alarms (db w2)"
    "length (alarms (db w2)) = 1" by (simp_all add: filter_id_conv)
  then show "alarm_count 1 ''dev'' (db (engine_run in_memory_ops sample_repo (h @ [(clock_at (5 * ns_per_min), sample_ctx 90)])
       lasting_world)) = 1"
    unfolding run alarm_count_def count_where_def by metis
  show "alarm_count 1 ''dev'' (db (engine_run in_memory_ops sample_repo h lasting_world)) = 0"
    unfolding run by (simp add: alarm_count_def count_where_def a1)
qed

theorem sustained_condition_needed_witness:
  "\<exists>m. held_since lasting_rule ''dev'' m [(clock_at 0, sample_ctx 90)] \<and> m + 5 * ns_per_min \<le> 5 * ns_per_min"
proof -
  have "cached_rules lasting_world ''p'' = Some [lasting_rule]" "distinct (map ar_id [lasting_rule])" "lasting_rule \<in> set [lasting_rule]"
      "ar_trigger_type lasting_rule = ''property''" "0 < ar_duration_minutes lasting_rule"
      "mem_tracking_since (state_store lasting_world) (ar_id lasting_rule) ''dev'' = None"
      "\<forall>(e, c)\<in>set ([(clock_at 0, sample_ctx 90)] @ [(clock_at (5 * ns_per_min), sample_ctx 90)]). ctx_product_id c = ''p''"
      "ar_id lasting_rule = 1" "ar_duration_minutes lasting_rule = 5"
    by (simp_all add: lasting_world_def lasting_rule_def sample_rule_def sample_world_def mem_tracking_since_def
      in_memory_new_def sample_ctx_def)
  note lasting = this
  from sustained_condition_needed [OF lasting(1-7), of sample_repo] lasting_alarms lasting(8,9) show ?thesis
    by auto
qed

end
