(* ===== verification/Spec2Isabelle.thy ===== *)
theory Spec2Isabelle
  imports Webhook_Retry Command_Delivery Device_Behaviour Charts Alarm_Behaviour Ota
    Admin_Behaviour Access_Behaviour Factory_Behaviour Redis_Behaviour Schema_Store
    Startup Rule_Requests Engine_Duration
begin

text \<open>
  \<^bold>\<open>Verification of the rmqtt-things backend\<close> (\<open>backend/src\<close>, Rust).

  \<^bold>\<open>The program.\<close> The backend sits between an MQTT broker (RMQTT), a PostgreSQL database and a web console.
  The broker forwards what devices publish, subscribe and report to webhooks (\<open>api/handlers.rs\<close>,
  \<open>api/ota_handlers.rs\<close>, \<open>api/factory_handlers.rs\<close>) and asks the backend who may connect and which topics a
  device may use (\<open>api/auth_handlers.rs\<close>). Reports are validated against templates, stored, and handed to the
  rule engine (\<open>rule_engine/\<close>), which raises and clears alarms and posts webhooks; a background task
  (\<open>main.rs\<close>) retries failed webhooks. The console manages products, certificates, rules, templates,
  firmware, commands and the device shadow (\<open>api/admin_handlers.rs\<close>, \<open>api/alarm_handlers.rs\<close>,
  \<open>api/product_handlers.rs\<close>, \<open>api/ca_handlers.rs\<close>) behind permission checks (\<open>api/middleware/\<close>). Commands are
  rows of two tables that are delivered through the broker (\<open>api/utils.rs\<close>, \<open>rmqtt_client.rs\<close>) and settled by
  the replies of the devices. A production line reports component and device metadata
  (\<open>db/factory_metadata.rs\<close>).

  \<^bold>\<open>How it is modelled.\<close> Rust structs are records with a field prefix, enums are datatypes, functions keep
  their names; a name with the suffix \<open>_sql\<close> is the effect of one SQL statement or transaction on the tables,
  a name with the suffix \<open>_handler\<close> is a handler whose name would clash with a repository method. Strings are
  UTF-8 byte lists, \<open>i64\<close> and \<open>i32\<close> are \<open>int\<close> with the wrap-around written out where the code can reach it
  (\<open>as_i16\<close>, \<open>as_i32\<close>, \<open>as_u32\<close>, \<open>wrap_i64\<close>, also in the offset of a page), address bytes are machine words, instants count nanoseconds.
  Asynchronous code is a program of type \<open>io\<close> (theory \<open>World\<close>): a function of an environment and a world
  that returns an error or a value and the new world. Every call that leaves the process is numbered; the
  environment says what the clock shows at that call and whether it succeeds, fails without effect, or takes
  effect although the caller sees an error. Properties quantify over environments, so they hold for every
  pattern of faults. A transaction is one atomic step; work put on a task with \<open>tokio::spawn\<close> is recorded in the
  world and executed by \<open>run_task\<close> at any later time.

  \<^bold>\<open>Parameters.\<close> Code that is not part of the repository is an argument: the record \<open>libs\<close> (JSON text, base64,
  schema validators, time formats, S3, UUIDs), \<open>auth_libs\<close> (URL parsing, hashes, random tokens, the answers of
  Herald), \<open>rcgen\<close> and \<open>fs_env\<close> (the certificate library and the outcome of file operations), \<open>redis_client\<close> (which
  Redis commands are answered, the server's clock, the replies to SCAN), \<open>startup_env\<close> (what the start of the process
  calls), the check of a JSON schema, SQL's ILIKE and the Herald client. Each hypothesis on a parameter has a
  witness with a concrete function.

  \<^bold>\<open>Theories.\<close>
  \<^item> \<open>Prelude\<close>, \<open>Rust_Str\<close>, \<open>F64\<close>, \<open>Json\<close>: lists and tables, the string functions of Rust, binary64 numbers,
    \<open>serde_json\<close> values (the locale \<open>key_map\<close> is the contract of its object maps).
  \<^item> \<open>Models\<close>, \<open>Api_Error\<close>, \<open>World\<close>, \<open>Hoare\<close>: the rows of \<open>db/models.rs\<close>, HTTP errors, the world with its
    program combinators, and frame and triple rules for programs.
  \<^item> \<open>Evaluator\<close>, \<open>Rule_State\<close>, \<open>Alarm_Repo\<close>, \<open>Actions\<close>, \<open>Rule_Engine\<close>: \<open>rule_engine/evaluator.rs\<close>, the trait
    \<open>RuleStateStore\<close> with its in-memory implementation (\<open>rule_engine/cache.rs\<close>; its contract is the locale
    \<open>rule_state_store\<close>, which gives the weaker \<open>throttle_store\<close>), \<open>db/alarm.rs\<close>, \<open>rule_engine/actions.rs\<close> and
    \<open>rule_engine/mod.rs\<close>. \<open>Engine_Throttle\<close> proves in \<open>throttle_store\<close> that a rule raises at most one alarm per
    device and throttle window,
    \<open>Engine_Behaviour\<close> what one trigger does to the alarm table,
    \<open>Engine_Duration\<close> that over any history of triggers a rule with a duration fires only after an unbroken run of
    satisfied reports of that length, \<open>Webhook_Retry\<close> (\<open>main.rs\<close>) that retries settle, at every other tick of the task.
  \<^item> \<open>Redis_Store\<close>, \<open>Redis_Behaviour\<close>, \<open>Schema_Store\<close>: the Redis implementation of the same trait, which refines the
    in-memory one on an available server and still throttles when reads fail, and the schema cache of
    \<open>cache.rs\<close> in memory and on Redis (contract: the locale \<open>schema_map\<close>).
  \<^item> \<open>Shadow\<close>, \<open>Topics\<close>, \<open>Rmqtt\<close>, \<open>Telemetry\<close>, \<open>Templates\<close>, \<open>Charts\<close>: \<open>api/shadow.rs\<close> and the shadow tables, the
    pure part of \<open>api/utils.rs\<close>, \<open>rmqtt_client.rs\<close>, the history, status and template tables of
    \<open>db/database.rs\<close> and \<open>db/device.rs\<close>, and the chart endpoints.
  \<^item> \<open>Commands\<close>, \<open>Command_Delivery\<close>: the command tables and the delivery programs; the locale \<open>command_table\<close>
    is the abstract queue of commands, interpreted on both tables; every statement carries out one operation
    of the queue, and the unified list shows each command once.
  \<^item> \<open>Device_Api\<close>, \<open>Device_Behaviour\<close>: the device webhooks of \<open>api/handlers.rs\<close> with the schema cache of
    \<open>cache.rs\<close>; reports are atomic and replies settle their command.
  \<^item> \<open>Registry\<close>, \<open>Alarm_Api\<close>, \<open>Rule_Requests\<close>, \<open>Alarm_Behaviour\<close>, \<open>Admin_Api\<close>, \<open>Admin_Behaviour\<close>: products and
    certificates, the alarm endpoints with their request bodies, the management endpoints; changes reach the caches, accepted rules are
    loaded by the engine, a patch of the desired state queues its delta.
  \<^item> \<open>Ota\<close>: \<open>db/ota.rs\<close>, \<open>api/ota_handlers.rs\<close> and the firmware endpoints; the encoding of versions and the
    choice of the version a device is offered.
  \<^item> \<open>Http_Guard\<close>, \<open>Access\<close>, \<open>Access_Behaviour\<close>: the middlewares with the address parser, the route tables of
    \<open>api/mod.rs\<close>, device authentication, topic permissions and the OAuth login.
  \<^item> \<open>Factory\<close>, \<open>Factory_Behaviour\<close>: factory metadata; the locales \<open>latest_wins\<close> and \<open>audited\<close> are the
    contracts of an upserted table and of its change log, interpreted on the component and device tables.
  \<^item> \<open>Ca\<close>, \<open>Config\<close>, \<open>Startup\<close>: the certificate generator and the files of the CA (\<open>ca/\<close>), the configuration with
    its defaults (\<open>config.rs\<close>) and \<open>main\<close> as a program over the files and a trace of events.

  \<^bold>\<open>Loops.\<close> Loops over rows are structural recursion (\<open>forE\<close>). The loop that drains pending actions
  (\<open>action_drain\<close>) ends because every round claims a pending row, which is its measure. The retry task is an
  endless loop in the code; \<open>webhook_retry_task\<close> runs it for a list of rounds, of any length, each with its own
  environment. The loop over the replies to SCAN (\<open>scan_delete\<close>) ends when the server says so; it has fuel
  (\<open>rd_rounds\<close>) and reports whether it ended, and \<open>redis_del_matching\<close> shows that it ends and deletes every matching
  key whenever the fuel covers the iteration of the server.

  \<^bold>\<open>Not modelled.\<close> The exporters of \<open>telemetry.rs\<close> (calls into opentelemetry that only observe the program), the
  OpenAPI document (generated from attributes), the S3 client (its answers are parameters), the unused
  \<open>check_client_online\<close>, and log output. The handlers use the schema cache in memory; the one on Redis is
  modelled on its own, so that a removal that fails on Redis is outside the property of cached schemas. A database
  answers the two queries of a page or of a chart on one state. Rows locked by concurrent transactions (SKIP LOCKED) do not occur, since
  statements are atomic steps.
\<close>

end
